theory Spec2Isabelle
  imports Complex_Main "HOL-Library.AList"
begin

section \<open>Strings and slug generation\<close>

text \<open>
  JavaScript strings are modelled as \<^typ>\<open>string\<close>: lists of code units in the range
  0..255 (ASCII and Latin-1).  \<open>toLowerCase\<close> maps the upper-case letters of that range to
  their lower-case partners; the regular-expression classes \<open>[a-z0-9]\<close>, \<open>\w\<close> and \<open>\s\<close> are
  predicates on the code of a character; \<open>s.replace(/[C]+/g, '-')\<close> replaces every maximal
  run of characters of the class \<open>C\<close> by one hyphen (\<open>replace_runs\<close>).
\<close>

definition is_upper_code :: "nat \<Rightarrow> bool" where
  "is_upper_code n = ((65 \<le> n \<and> n \<le> 90) \<or> (192 \<le> n \<and> n \<le> 222 \<and> n \<noteq> 215))"

definition toLowerCase_char :: "char \<Rightarrow> char" where
  "toLowerCase_char c =
     (if is_upper_code (of_char c) then char_of ((of_char c :: nat) + 32) else c)"

definition toLowerCase :: "string \<Rightarrow> string" where
  "toLowerCase s = map toLowerCase_char s"

definition is_lower_or_digit :: "char \<Rightarrow> bool" where
  "is_lower_or_digit c =
     (let n = (of_char c :: nat) in (97 \<le> n \<and> n \<le> 122) \<or> (48 \<le> n \<and> n \<le> 57))"

definition is_word_char :: "char \<Rightarrow> bool" where
  "is_word_char c =
     (let n = (of_char c :: nat) in
      (65 \<le> n \<and> n \<le> 90) \<or> (97 \<le> n \<and> n \<le> 122) \<or> (48 \<le> n \<and> n \<le> 57) \<or> n = 95)"

definition is_white_space :: "char \<Rightarrow> bool" where
  "is_white_space c =
     (let n = (of_char c :: nat) in (9 \<le> n \<and> n \<le> 13) \<or> n = 32 \<or> n = 160)"

function replace_runs :: "(char \<Rightarrow> bool) \<Rightarrow> string \<Rightarrow> string" where
  "replace_runs p [] = []"
| "replace_runs p (c # cs) =
     (if p c then CHR ''-'' # replace_runs p (dropWhile p cs) else c # replace_runs p cs)"
  by pat_completeness auto
termination
  by (relation "measure (\<lambda>(p, s). length s)") (auto simp: length_dropWhile_le less_Suc_eq_le)

text \<open>
  \<open>s.replace(/(^-|-$)/g, '')\<close>: one hyphen at the start and one hyphen at the end are removed
  (a string that is a single hyphen becomes empty).
\<close>

definition strip_edge_hyphen :: "string \<Rightarrow> string" where
  "strip_edge_hyphen s =
     (let t = (case s of [] \<Rightarrow> [] | c # cs \<Rightarrow> if c = CHR ''-'' then cs else s)
      in if t \<noteq> [] \<and> last t = CHR ''-'' then butlast t else t)"

text \<open>
  \<open>generateSlug\<close> of the category form (src/unnamed/part\_001, lines 168--173; the same
  function is in src/unnamed/part\_002, line 199):
  \<^verbatim>\<open>name.toLowerCase().replace(/[^a-z0-9]+/g, '-').replace(/(^-|-$)/g, '')\<close>
\<close>

definition generateSlug_category :: "string \<Rightarrow> string" where
  "generateSlug_category name =
     strip_edge_hyphen (replace_runs (\<lambda>c. \<not> is_lower_or_digit c) (toLowerCase name))"

text \<open>
  \<open>generateSlug\<close> of the product form (src/app/(admin)/products/schema.ts, lines 847--860):
  \<^verbatim>\<open>name.toLowerCase().trim().replace(/[^\w\s-]/g, '')
      .replace(/[\s_-]+/g, '-').replace(/^-+|-+$/g, '')\<close>
\<close>

definition trim :: "string \<Rightarrow> string" where
  "trim s = rev (dropWhile is_white_space (rev (dropWhile is_white_space s)))"

definition strip_hyphens :: "string \<Rightarrow> string" where
  "strip_hyphens s =
     rev (dropWhile (\<lambda>c. c = CHR ''-'') (rev (dropWhile (\<lambda>c. c = CHR ''-'') s)))"

definition generateSlug_productForm :: "string \<Rightarrow> string" where
  "generateSlug_productForm name =
     strip_hyphens
       (replace_runs (\<lambda>c. is_white_space c \<or> c = CHR ''_'' \<or> c = CHR ''-'')
         (filter (\<lambda>c. is_word_char c \<or> is_white_space c \<or> c = CHR ''-'')
           (trim (toLowerCase name))))"

text \<open>
  The shape \<open>replace_runs\<close> produces: every character of the class is a hyphen and is not
  followed by another character of the class.
\<close>

fun runs_single :: "(char \<Rightarrow> bool) \<Rightarrow> string \<Rightarrow> bool" where
  "runs_single p [] = True"
| "runs_single p [c] = (if p c then c = CHR ''-'' else True)"
| "runs_single p (c # d # cs) = ((if p c then c = CHR ''-'' \<and> \<not> p d else True) \<and> runs_single p (d # cs))"

section \<open>JavaScript values, the database client and the network\<close>

text \<open>
  JSON-like values.  Numbers are exact rationals (every finite double is one; JSON carries
  no NaN).  An object is an association list from property names to values; a property
  that is absent reads as \<open>undefined\<close>.
\<close>

datatype jsval =
    JUndefined
  | JNull
  | JBool bool
  | JNum rat
  | JStr string
  | JArr "jsval list"
  | JObj "(string \<times> jsval) list"

type_synonym obj = "(string \<times> jsval) list"

text \<open>\<open>ob.k\<close> on an object, and \<open>v?.k\<close> on any value.\<close>

definition field :: "obj \<Rightarrow> string \<Rightarrow> jsval" where
  "field ob k = (case map_of ob k of None \<Rightarrow> JUndefined | Some v \<Rightarrow> v)"

fun jfield :: "jsval \<Rightarrow> string \<Rightarrow> jsval" where
  "jfield (JObj ob) k = field ob k"
| "jfield v k = JUndefined"

fun truthy :: "jsval \<Rightarrow> bool" where
  "truthy JUndefined = False"
| "truthy JNull = False"
| "truthy (JBool b) = b"
| "truthy (JNum r) = (r \<noteq> 0)"
| "truthy (JStr s) = (s \<noteq> [])"
| "truthy (JArr xs) = True"
| "truthy (JObj ob) = True"

text \<open>\<open>v || null\<close> and \<open>v ?? null\<close>.\<close>

definition or_null :: "jsval \<Rightarrow> jsval" where
  "or_null v = (if truthy v then v else JNull)"

definition nullish_null :: "jsval \<Rightarrow> jsval" where
  "nullish_null v = (if v = JUndefined \<or> v = JNull then JNull else v)"

text \<open>
  \<open>{...ob, k: v}\<close>.  A property whose value is \<open>undefined\<close> is not part of what is sent to
  the database (JSON serialisation drops it), so it is removed.
\<close>

definition set_field :: "string \<Rightarrow> jsval \<Rightarrow> obj \<Rightarrow> obj" where
  "set_field k v ob = (if v = JUndefined then AList.delete k ob else AList.update k v ob)"

definition set_fields :: "(string \<times> jsval) list \<Rightarrow> obj \<Rightarrow> obj" where
  "set_fields kvs ob = fold (\<lambda>(k, v). set_field k v) kvs ob"

text \<open>
  A template literal \<open>`${v}`\<close> over a value read from a column of SQL type text.  The
  columns read this way (the slugs) are declared \<open>string\<close> in types/supabase.ts; the
  rendering of values of other types is not modelled.
\<close>

fun text_of :: "jsval \<Rightarrow> string" where
  "text_of (JStr s) = s"
| "text_of v = []"

text \<open>\<open>Array.from(new Set(xs))\<close>: the first occurrence of every element, in order.\<close>

definition dedupe :: "'a list \<Rightarrow> 'a list" where
  "dedupe xs = rev (remdups (rev xs))"

text \<open>\<open>s.includes(t)\<close>.\<close>

fun starts_with :: "string \<Rightarrow> string \<Rightarrow> bool" where
  "starts_with s [] = True"
| "starts_with [] (c # t) = False"
| "starts_with (d # s) (c # t) = (d = c \<and> starts_with s t)"

fun includes_str :: "string \<Rightarrow> string \<Rightarrow> bool" where
  "includes_str [] t = (t = [])"
| "includes_str (d # s) t = (starts_with (d # s) t \<or> includes_str s t)"

text \<open>The decimal rendering of an array index in a template literal.\<close>

fun string_of_nat :: "nat \<Rightarrow> string" where
  "string_of_nat n =
     (if n < 10 then [char_of (48 + n)]
      else string_of_nat (n div 10) @ [char_of (48 + n mod 10)])"

declare string_of_nat.simps [simp del]

text \<open>\<open>s.split(',').map((x) => x.trim()).filter((x) => x)\<close>.\<close>

fun split_comma :: "string \<Rightarrow> string list" where
  "split_comma [] = [[]]"
| "split_comma (c # cs) =
     (if c = CHR '','' then [] # split_comma cs
      else (case split_comma cs of [] \<Rightarrow> [[c]] | p # ps \<Rightarrow> (c # p) # ps))"

definition split_trim :: "string \<Rightarrow> string list" where
  "split_trim s = filter (\<lambda>x. x \<noteq> []) (map trim (split_comma s))"

subsection \<open>The database client\<close>

text \<open>
  The Supabase client is an external service.  Every statement resolves to \<open>{data, error}\<close>:
  either the data or an error with a code, a message and details (an empty string stands
  for a missing one).  The handlers read failure from \<open>error\<close>; the only place where they
  read a rejected promise is the batch of deletions joined with \<open>Promise.allSettled\<close>, so a
  deletion is the one statement that is modelled with both outcomes.
\<close>

record pg_error =
  err_code :: string
  err_message :: string
  err_details :: string

datatype 'a response = Success 'a | Failure pg_error

datatype 'a settled = Fulfilled 'a | Rejected string

datatype filter = Eq string jsval | In string "jsval list"

subsection \<open>The network\<close>

text \<open>
  \<open>fetch\<close> either rejects (a network error, with its message) or resolves to a response
  with \<open>ok\<close>, \<open>status\<close> and the two body readers \<open>text()\<close> and \<open>json()\<close>, each of which
  may reject with a message (\<open>Inl\<close>).
\<close>

record RevalidationPayload =
  path :: "string option"
  paths :: "string list option"

record http_response =
  ok :: bool
  status :: nat
  text_body :: "string + string"
  json_body :: "string + jsval"

datatype fetch_result = FetchRejected string | FetchResolved http_response

record process_env =
  CUSTOMER_APP_BASE_URLS :: "string option"
  REVALIDATION_SECRET :: "string option"

subsection \<open>The platform a handler runs on\<close>

text \<open>
  The statements the handlers issue, over a state \<open>'s\<close> of the outside world that each
  statement may change:
  \<^item> \<open>insert_single t row cols\<close> is \<open>from(t).insert(row).select(cols).single()\<close>;
  \<^item> \<open>insert_rows t rows\<close> is \<open>from(t).insert(rows)\<close>;
  \<^item> \<open>select_single t cols f\<close> is \<open>from(t).select(cols).eq(..).single()\<close>,
    \<open>select_maybe_single\<close> the same with \<open>maybeSingle()\<close>;
  \<^item> \<open>select_rows t cols f\<close> is \<open>from(t).select(cols).eq(..)\<close>;
  \<^item> \<open>update_rows t row f\<close> is \<open>from(t).update(row).eq(..)\<close>;
  \<^item> \<open>delete_rows t f\<close> is \<open>from(t).delete().eq(..)\<close> or \<open>.in(..)\<close>;
  \<^item> \<open>http_post url authorization payload\<close> is the \<open>fetch\<close> of the revalidation notifier.
\<close>

record 's platform =
  insert_single :: "string \<Rightarrow> obj \<Rightarrow> string \<Rightarrow> 's \<Rightarrow> obj option response \<times> 's"
  insert_rows :: "string \<Rightarrow> obj list \<Rightarrow> 's \<Rightarrow> unit response \<times> 's"
  select_single :: "string \<Rightarrow> string \<Rightarrow> filter \<Rightarrow> 's \<Rightarrow> obj option response \<times> 's"
  select_maybe_single :: "string \<Rightarrow> string \<Rightarrow> filter \<Rightarrow> 's \<Rightarrow> obj option response \<times> 's"
  select_rows :: "string \<Rightarrow> string \<Rightarrow> filter \<Rightarrow> 's \<Rightarrow> obj list option response \<times> 's"
  update_rows :: "string \<Rightarrow> obj \<Rightarrow> filter \<Rightarrow> 's \<Rightarrow> unit response \<times> 's"
  delete_rows :: "string \<Rightarrow> filter \<Rightarrow> 's \<Rightarrow> unit response settled \<times> 's"
  http_post :: "string \<Rightarrow> string \<Rightarrow> RevalidationPayload \<Rightarrow> 's \<Rightarrow> fetch_result \<times> 's"

text \<open>
  The trace of a run: every statement issued, with its arguments and what came back.
  \<open>traced io\<close> is the platform \<open>io\<close> that also records each statement.
\<close>

datatype event =
    InsertSingle string obj string "obj option response"
  | InsertRows string "obj list" "unit response"
  | SelectSingle string string filter "obj option response"
  | SelectMaybeSingle string string filter "obj option response"
  | SelectRows string string filter "obj list option response"
  | UpdateRows string obj filter "unit response"
  | DeleteRows string filter "unit response settled"
  | HttpPost string string RevalidationPayload fetch_result

definition record_event :: "('r \<Rightarrow> event) \<Rightarrow> ('s \<Rightarrow> 'r \<times> 's) \<Rightarrow> 's \<times> event list \<Rightarrow> 'r \<times> ('s \<times> event list)" where
  "record_event ev stmt = (\<lambda>(s, tr). case stmt s of (r, s') \<Rightarrow> (r, (s', tr @ [ev r])))"

definition traced :: "'s platform \<Rightarrow> ('s \<times> event list) platform" where
  "traced io =
     \<lparr> insert_single = (\<lambda>t row cols. record_event (InsertSingle t row cols) (insert_single io t row cols)),
       insert_rows = (\<lambda>t rows. record_event (InsertRows t rows) (insert_rows io t rows)),
       select_single = (\<lambda>t cols f. record_event (SelectSingle t cols f) (select_single io t cols f)),
       select_maybe_single =
         (\<lambda>t cols f. record_event (SelectMaybeSingle t cols f) (select_maybe_single io t cols f)),
       select_rows = (\<lambda>t cols f. record_event (SelectRows t cols f) (select_rows io t cols f)),
       update_rows = (\<lambda>t row f. record_event (UpdateRows t row f) (update_rows io t row f)),
       delete_rows = (\<lambda>t f. record_event (DeleteRows t f) (delete_rows io t f)),
       http_post = (\<lambda>url auth p. record_event (HttpPost url auth p) (http_post io url auth p)) \<rparr>"

section \<open>The revalidation notifier\<close>

text \<open>
  src/unnamed/part\_000, lines 314--399 (lib/revalidateCustomerApp.ts).  Console output is
  returned as a list of structured lines.  A call either returns or throws; the handlers
  await it inside their \<open>try\<close> block, so a throw would reach their \<open>catch\<close>.
\<close>

datatype console_line =
    ErrorBaseUrlsNotSet
  | ErrorSecretNotSet
  | WarnNoValidUrls
  | LogAttempt RevalidationPayload string
  | LogSuccessful string jsval
  | ErrorTriggering string string
  | ErrorPromiseRejected string
  | LogFinished

datatype 'a completion = Returns 'a | Throws string

datatype request_report =
    ReportFulfilled string jsval
  | ReportRejected string string

text \<open>
  The body of the \<open>try\<close> block of one request: \<open>Inl\<close> is the message of the error thrown in
  it (by \<open>fetch\<close>, by \<open>response.text()\<close>, by the \<open>throw new Error\<close> for a response that is
  not ok, or by \<open>response.json()\<close>).
\<close>

definition request_try ::
  "'s platform \<Rightarrow> string \<Rightarrow> RevalidationPayload \<Rightarrow> string \<Rightarrow> 's \<Rightarrow> (string + jsval) \<times> 's" where
  "request_try io revalidationSecret payload baseUrl s =
     (case http_post io (baseUrl @ ''/api/revalidate'') (''Bearer '' @ revalidationSecret) payload s of
        (FetchRejected msg, s') \<Rightarrow> (Inl msg, s')
      | (FetchResolved response, s') \<Rightarrow>
          if \<not> ok response then
            (case text_body response of
               Inl msg \<Rightarrow> (Inl msg, s')
             | Inr errorBody \<Rightarrow>
                 (Inl (''Revalidation failed for '' @ baseUrl @ '' with status ''
                        @ string_of_nat (status response) @ '': '' @ errorBody), s'))
          else
            (case json_body response of
               Inl msg \<Rightarrow> (Inl msg, s')
             | Inr result \<Rightarrow> (Inr result, s')))"

text \<open>
  One element of \<open>requests\<close>: the async function of \<open>customerAppBaseUrls.map\<close>, from its
  \<open>try\<close> on.  Its \<open>catch\<close> turns every error of the \<open>try\<close> block into a returned report,
  so its promise is fulfilled.  The line is the one it logs when the request is over.
\<close>

definition request_one ::
  "'s platform \<Rightarrow> string \<Rightarrow> RevalidationPayload \<Rightarrow> string \<Rightarrow> 's
     \<Rightarrow> (request_report settled \<times> console_line list) \<times> 's" where
  "request_one io revalidationSecret payload baseUrl s =
     (case request_try io revalidationSecret payload baseUrl s of
        (Inr result, s') \<Rightarrow>
          ((Fulfilled (ReportFulfilled baseUrl result), [LogSuccessful baseUrl result]), s')
      | (Inl msg, s') \<Rightarrow>
          ((Fulfilled (ReportRejected baseUrl msg), [ErrorTriggering baseUrl msg]), s'))"

text \<open>
  \<open>Promise.allSettled(requests)\<close>.  The requests run concurrently in the source; the model
  completes them in the order of the list.
\<close>

fun all_requests ::
  "'s platform \<Rightarrow> string \<Rightarrow> RevalidationPayload \<Rightarrow> string list \<Rightarrow> 's
     \<Rightarrow> (request_report settled list \<times> console_line list) \<times> 's" where
  "all_requests io secret payload [] s = (([], []), s)"
| "all_requests io secret payload (baseUrl # rest) s =
     (case request_one io secret payload baseUrl s of
        ((r, lines), s') \<Rightarrow>
          (case all_requests io secret payload rest s' of
             ((rs, lines'), s'') \<Rightarrow> ((r # rs, lines @ lines'), s'')))"

text \<open>
  \<open>map\<close> runs each async function up to its first \<open>await\<close>, the \<open>fetch\<close>: the ``Attempting''
  lines of all the targets are logged before any request is over.
\<close>

definition attempt_lines :: "RevalidationPayload \<Rightarrow> string list \<Rightarrow> console_line list" where
  "attempt_lines payload customerAppBaseUrls =
     map (\<lambda>baseUrl. LogAttempt payload (baseUrl @ ''/api/revalidate'')) customerAppBaseUrls"

fun rejected_lines :: "request_report settled list \<Rightarrow> console_line list" where
  "rejected_lines [] = []"
| "rejected_lines (Rejected reason # rs) = ErrorPromiseRejected reason # rejected_lines rs"
| "rejected_lines (Fulfilled v # rs) = rejected_lines rs"

definition revalidateCustomerApp ::
  "'s platform \<Rightarrow> process_env \<Rightarrow> RevalidationPayload \<Rightarrow> 's
     \<Rightarrow> console_line list completion \<times> 's" where
  "revalidateCustomerApp io env payload s =
     (case CUSTOMER_APP_BASE_URLS env of
        None \<Rightarrow> (Returns [ErrorBaseUrlsNotSet], s)
      | Some customerAppBaseUrlsString \<Rightarrow>
          if customerAppBaseUrlsString = [] then (Returns [ErrorBaseUrlsNotSet], s)
          else
            (case REVALIDATION_SECRET env of
               None \<Rightarrow> (Returns [ErrorSecretNotSet], s)
             | Some revalidationSecret \<Rightarrow>
                 if revalidationSecret = [] then (Returns [ErrorSecretNotSet], s)
                 else
                   let customerAppBaseUrls = split_trim customerAppBaseUrlsString in
                   if customerAppBaseUrls = [] then (Returns [WarnNoValidUrls], s)
                   else
                     (case all_requests io revalidationSecret payload customerAppBaseUrls s of
                        ((results, lines), s') \<Rightarrow>
                          (Returns (attempt_lines payload customerAppBaseUrls @ lines
                                    @ rejected_lines results @ [LogFinished]), s'))))"

section \<open>Product payloads and the insertion of related data\<close>

text \<open>
  The validated payload (\<open>validation.data\<close>).  The child collections have the element types
  the imported schemas of src/app/(admin)/products/schema.ts give them; where the handlers
  apply \<open>||\<close> or \<open>??\<close> to an optional field, the field is kept as a JavaScript value.
  \<open>productFeatureSchema\<close> and \<open>variantFeatureSchema\<close> have the same fields and share one
  record.  The scalar columns of a product or of a variant other than its name are an
  object (\<open>c_rest\<close>, \<open>variant_rest\<close>): the handlers spread them into the row they send.
\<close>

record feature_item =
  feature_text :: string
  icon_url :: jsval

record VariantAttribute =
  attribute_name :: string
  attribute_value :: string

record ProductVariant =
  variant_name :: string
  variant_rest :: obj
  attributes :: "VariantAttribute list"
  variant_features :: "feature_item list"

record TestimonialVideo =
  video_url :: string
  title :: jsval
  description :: jsval
  uploader_name :: jsval

record PageTestimonial =
  customer_name :: string
  testimonial_text :: string
  rating :: jsval
  customer_image_url :: jsval

record FaqItem =
  question :: string
  answer :: string

record related_data =
  images :: "string list"
  features :: "feature_item list"
  variants :: "ProductVariant list"
  testimonial_videos :: "TestimonialVideo list"
  customer_testimonials :: "PageTestimonial list"
  tags :: "string list"
  faqs :: "FaqItem list"

record ValidatedProductData = related_data +
  c_name :: string
  c_rest :: obj
  c_seo_keywords :: "string option"

record ValidatedUpdateData = related_data +
  products_id :: int
  u_name :: "string option"
  u_rest :: obj
  u_seo_keywords :: "string option"

record next_response =
  res_status :: nat
  res_body :: obj

definition json_response :: "obj \<Rightarrow> nat \<Rightarrow> next_response" where
  "json_response b st = \<lparr> res_status = st, res_body = b \<rparr>"

text \<open>The \<open>catch\<close> block of a handler, for an error that is not a \<open>SyntaxError\<close>.\<close>

definition unexpected_error :: "string \<Rightarrow> next_response" where
  "unexpected_error msg =
     json_response [(''error'', JStr ''An unexpected error occurred''), (''details'', JStr msg)] 500"

definition invalid_json_body :: next_response where
  "invalid_json_body = json_response [(''error'', JStr ''Invalid JSON body'')] 400"

subsection \<open>Rows of the child tables\<close>

text \<open>
  src/unnamed/part\_004, lines 211--309, and src/app/api/products/update/route.ts,
  lines 357--454: the rows each child collection is mapped to.
\<close>

definition imagesToInsert :: "jsval \<Rightarrow> string list \<Rightarrow> obj list" where
  "imagesToInsert productId urls =
     map (\<lambda>(index, url).
            [(''product_id'', productId),
             (''url'', JStr url),
             (''is_primary'', JBool (index = 0)),
             (''sort_order'', JNum (of_nat index))])
         (enumerate 0 urls)"

definition featuresToInsert :: "jsval \<Rightarrow> feature_item list \<Rightarrow> obj list" where
  "featuresToInsert productId fs =
     map (\<lambda>f. [(''product_id'', productId), (''feature_text'', JStr (feature_text f))]) fs"

definition tagsToInsert :: "jsval \<Rightarrow> string list \<Rightarrow> obj list" where
  "tagsToInsert productId ts =
     map (\<lambda>tagText. [(''product_id'', productId), (''tag_text'', JStr tagText)]) ts"

definition faqsToInsert :: "jsval \<Rightarrow> FaqItem list \<Rightarrow> obj list" where
  "faqsToInsert productId qs =
     map (\<lambda>faq. [(''product_id'', productId),
                 (''question'', JStr (question faq)),
                 (''answer'', JStr (answer faq))]) qs"

definition videosToInsert :: "jsval \<Rightarrow> TestimonialVideo list \<Rightarrow> obj list" where
  "videosToInsert productId vs =
     map (\<lambda>video. [(''product_id'', productId),
                   (''video_url'', JStr (video_url video)),
                   (''title'', or_null (title video)),
                   (''description'', or_null (description video)),
                   (''uploader_name'', or_null (uploader_name video))]) vs"

definition testimonialsToInsert :: "jsval \<Rightarrow> PageTestimonial list \<Rightarrow> obj list" where
  "testimonialsToInsert productId ts =
     map (\<lambda>test. [(''products_id'', productId),
                  (''customer_name'', JStr (customer_name test)),
                  (''testimonial_text'', JStr (testimonial_text test)),
                  (''rating'', nullish_null (rating test)),
                  (''customer_image_url'', or_null (customer_image_url test))]) ts"

definition coreVariantData :: "ProductVariant \<Rightarrow> obj" where
  "coreVariantData variant = set_field ''name'' (JStr (variant_name variant)) (variant_rest variant)"

text \<open>
  \<open>variantInsertData\<close>.  The update route adds \<open>id: undefined\<close> (\<open>drop_id\<close>), the create
  route does not.
\<close>

definition variantInsertData :: "bool \<Rightarrow> jsval \<Rightarrow> ProductVariant \<Rightarrow> obj" where
  "variantInsertData drop_id productId variant =
    (let core = coreVariantData variant in
     set_fields
       [(''product_id'', productId),
        (''price'', nullish_null (field core ''price'')),
        (''compare_at_price'', nullish_null (field core ''compare_at_price'')),
        (''sku'', nullish_null (field core ''sku'')),
        (''quantity'', nullish_null (field core ''quantity'')),
        (''image_url'', nullish_null (field core ''image_url'')),
        (''icon_url'', nullish_null (field core ''icon_url''))]
       (if drop_id then set_field ''id'' JUndefined core else core))"

definition attributesToInsert :: "jsval \<Rightarrow> VariantAttribute list \<Rightarrow> obj list" where
  "attributesToInsert newVariantId as =
     map (\<lambda>attr. [(''variant_id'', newVariantId),
                  (''name'', JStr (attribute_name attr)),
                  (''value'', JStr (attribute_value attr))])
         (filter (\<lambda>a. attribute_name a \<noteq> [] \<and> attribute_value a \<noteq> []) as)"

definition variantFeaturesToInsert :: "jsval \<Rightarrow> feature_item list \<Rightarrow> obj list" where
  "variantFeaturesToInsert newVariantId fs =
     map (\<lambda>feat. [(''variant_id'', newVariantId),
                  (''feature_text'', JStr (feature_text feat)),
                  (''icon_url'', nullish_null (icon_url feat))])
         (filter (\<lambda>f. feature_text f \<noteq> []) fs)"

subsection \<open>Inserting the child collections\<close>

text \<open>
  One child collection: if there are rows, insert them into the table; an error is
  appended to \<open>relatedDataErrors\<close> as \<open>`${label}: ${error.message}`\<close>, and the run goes on.
  The source repeats this block for each collection.
\<close>

definition insert_child ::
  "'s platform \<Rightarrow> string \<Rightarrow> string \<Rightarrow> obj list \<Rightarrow> string list \<times> 's \<Rightarrow> string list \<times> 's" where
  "insert_child io table label rows = (\<lambda>(relatedDataErrors, s).
     if rows = [] then (relatedDataErrors, s)
     else
       (case insert_rows io table rows s of
          (Success u, s') \<Rightarrow> (relatedDataErrors, s')
        | (Failure error, s') \<Rightarrow> (relatedDataErrors @ [label @ '': '' @ err_message error], s')))"

text \<open>
  The body of \<open>for (const variant of variants)\<close>: insert the variant; on an error (or no
  row back) record it and \<open>continue\<close>; otherwise insert its attributes and its features
  under the new variant's id.
\<close>

definition insert_variant ::
  "'s platform \<Rightarrow> bool \<Rightarrow> jsval \<Rightarrow> ProductVariant \<Rightarrow> string list \<times> 's \<Rightarrow> string list \<times> 's" where
  "insert_variant io drop_id productId variant = (\<lambda>(relatedDataErrors, s).
     (case insert_single io ''product_variants'' (variantInsertData drop_id productId variant) ''id'' s of
        (Success (Some newVariant), s1) \<Rightarrow>
          (let newVariantId = field newVariant ''id'' in
           insert_child io ''variant_features''
             (''Variant Features ('' @ variant_name variant @ '')'')
             (variantFeaturesToInsert newVariantId (variant_features variant))
             (insert_child io ''variant_attributes''
                (''Variant Attributes ('' @ variant_name variant @ '')'')
                (attributesToInsert newVariantId (attributes variant))
                (relatedDataErrors, s1)))
      | (Success None, s1) \<Rightarrow>
          (relatedDataErrors @
             [''Variant ('' @ (if variant_name variant = [] then ''Unnamed'' else variant_name variant)
                @ ''): Failed to insert''], s1)
      | (Failure variantError, s1) \<Rightarrow>
          (relatedDataErrors @
             [''Variant ('' @ (if variant_name variant = [] then ''Unnamed'' else variant_name variant)
                @ ''): ''
                @ (if err_message variantError = [] then ''Failed to insert''
                   else err_message variantError)], s1)))"

text \<open>
  ``Insert related data'': part\_004, lines 207--393 (create, \<open>drop_id = False\<close>) and
  update/route.ts, lines 354--534 (update, \<open>drop_id = True\<close>).
\<close>

definition insert_related ::
  "'s platform \<Rightarrow> bool \<Rightarrow> jsval \<Rightarrow> 'a related_data_scheme \<Rightarrow> string list \<times> 's \<Rightarrow> string list \<times> 's" where
  "insert_related io drop_id productId d acc =
    (let acc1 = insert_child io ''product_images'' ''Images'' (imagesToInsert productId (images d)) acc;
         acc2 = insert_child io ''product_features'' ''Features'' (featuresToInsert productId (features d)) acc1;
         acc3 = insert_child io ''product_tags'' ''Tags'' (tagsToInsert productId (tags d)) acc2;
         acc4 = insert_child io ''product_faqs'' ''FAQs'' (faqsToInsert productId (faqs d)) acc3;
         acc5 = insert_child io ''product_testimonial_videos'' ''Testimonial Videos''
                  (videosToInsert productId (testimonial_videos d)) acc4;
         acc6 = insert_child io ''customer_testimonials'' ''Customer Testimonials''
                  (testimonialsToInsert productId (customer_testimonials d)) acc5
     in fold (insert_variant io drop_id productId) (variants d) acc6)"

text \<open>\<open>relatedDataErrors.join('; ')\<close>.\<close>

fun join_semicolon :: "string list \<Rightarrow> string" where
  "join_semicolon [] = []"
| "join_semicolon [e] = e"
| "join_semicolon (e # f # es) = e @ ''; '' @ join_semicolon (f # es)"

subsection \<open>Paths of a product's category and brand\<close>

text \<open>
  \<open>getProductRelatedPaths\<close>, src/unnamed/part\_000, lines 409--447.  \<open>first_if_array v\<close> is
  \<open>Array.isArray(v) ? v[0] : v\<close>.
\<close>

fun first_if_array :: "jsval \<Rightarrow> jsval" where
  "first_if_array (JArr []) = JUndefined"
| "first_if_array (JArr (x # xs)) = x"
| "first_if_array v = v"

definition slug_path :: "string \<Rightarrow> jsval \<Rightarrow> string option" where
  "slug_path prefix v =
     (if truthy (jfield v ''slug'') then Some (prefix @ text_of (jfield v ''slug'')) else None)"

definition getProductRelatedPaths ::
  "'s platform \<Rightarrow> jsval \<Rightarrow> 's \<Rightarrow> (string option \<times> string option) \<times> 's" where
  "getProductRelatedPaths io productId s =
     (case select_single io ''products'' ''categories ( slug ), brands ( slug )''
             (Eq ''products_id'' productId) s of
        (Failure error, s') \<Rightarrow> ((None, None), s')
      | (Success data, s') \<Rightarrow>
          (let row = (case data of None \<Rightarrow> JNull | Some ob \<Rightarrow> JObj ob);
               category = first_if_array (jfield row ''categories'');
               brand = first_if_array (jfield row ''brands'')
           in ((slug_path ''/category/'' category, slug_path ''/brand/'' brand), s')))"

definition option_list :: "'a option \<Rightarrow> 'a list" where
  "option_list x = (case x of None \<Rightarrow> [] | Some y \<Rightarrow> [y])"

section \<open>The product-create route\<close>

text \<open>
  \<open>dataToInsert\<close>, src/unnamed/part\_004, lines 114--175.  \<open>coreProductData\<close> is the payload
  without the child collections and without \<open>seo_keywords\<close>.
\<close>

definition coreProductData :: "'a ValidatedProductData_scheme \<Rightarrow> obj" where
  "coreProductData p = set_field ''name'' (JStr (c_name p)) (c_rest p)"

definition keywords_array :: "string \<Rightarrow> jsval" where
  "keywords_array kws = JArr (map JStr (split_trim kws))"

definition dataToInsert :: "'a ValidatedProductData_scheme \<Rightarrow> string \<Rightarrow> obj" where
  "dataToInsert p slug =
    (let core = coreProductData p in
     set_fields
       [(''slug'', JStr slug),
        (''sku'', or_null (field core ''sku'')),
        (''mark'', or_null (field core ''mark'')),
        (''category_id'', or_null (field core ''category_id'')),
        (''brand_id'', or_null (field core ''brand_id'')),
        (''subcategory_id'', or_null (field core ''subcategory_id'')),
        (''compare_at_price'', nullish_null (field core ''compare_at_price'')),
        (''cost_price'', nullish_null (field core ''cost_price'')),
        (''initial_stock'', nullish_null (field core ''initial_stock'')),
        (''max_stock'', nullish_null (field core ''max_stock'')),
        (''weight'', nullish_null (field core ''weight'')),
        (''weight_unit'',
           if truthy (field core ''weight'') then field core ''weight_unit'' else JNull),
        (''dimensions_length'', nullish_null (field core ''dimensions_length'')),
        (''dimensions_width'', nullish_null (field core ''dimensions_width'')),
        (''dimensions_height'', nullish_null (field core ''dimensions_height'')),
        (''dimensions_unit'',
           if truthy (field core ''dimensions_length'') \<or> truthy (field core ''dimensions_width'')
              \<or> truthy (field core ''dimensions_height'')
           then field core ''dimensions_unit'' else JNull),
        (''shipping_class'', or_null (field core ''shipping_class'')),
        (''seo_title'', or_null (field core ''seo_title'')),
        (''seo_description'', or_null (field core ''seo_description'')),
        (''seo_keywords'',
           case c_seo_keywords p of
             None \<Rightarrow> JNull
           | Some kws \<Rightarrow> if kws = [] then JNull else keywords_array kws),
        (''featured_in_collection_slug'', or_null (field core ''featured_in_collection_slug''))]
       core)"

text \<open>
  The response after the related data, part\_004, lines 395--424, for the product row
  \<open>newProduct\<close> and the collected errors.
\<close>

definition create_paths :: "obj \<Rightarrow> string option \<times> string option \<Rightarrow> string list" where
  "create_paths newProduct related =
     dedupe ([''/'', ''/products'', ''/products/'' @ text_of (field newProduct ''slug'')]
             @ option_list (fst related) @ option_list (snd related))"

definition created_response :: "obj \<Rightarrow> string list \<Rightarrow> next_response" where
  "created_response newProduct relatedDataErrors =
     json_response
       ([(''message'',
            JStr (if relatedDataErrors = [] then ''Product and all related data created successfully''
                  else ''Product created, but errors occurred with related data: ''
                       @ join_semicolon relatedDataErrors)),
         (''product'', JObj newProduct)]
        @ (if relatedDataErrors = [] then [] else [(''errors'', JArr (map JStr relatedDataErrors))]))
       201"

text \<open>
  \<open>POST\<close> of the create route, src/unnamed/part\_004, lines 85--435, from the point where
  the client exists.  \<open>req\<close> is the result of \<open>req.json()\<close> (\<open>None\<close>: it throws a
  \<open>SyntaxError\<close>); \<open>safeParse\<close> is \<open>createProductSchema.safeParse\<close> of the zod library
  (\<open>Inl\<close>: the flattened violations) and \<open>slugify\<close> is the slugify package called with
  \<open>{lower: true, strict: true}\<close>; both are external and are parameters.
\<close>

definition create_POST ::
  "'s platform \<Rightarrow> process_env \<Rightarrow> (string \<Rightarrow> string) \<Rightarrow> ('b \<Rightarrow> jsval + ValidatedProductData)
     \<Rightarrow> 'b option \<Rightarrow> 's \<Rightarrow> next_response \<times> 's" where
  "create_POST io env slugify safeParse req s =
    (case req of
       None \<Rightarrow> (invalid_json_body, s)
     | Some body \<Rightarrow>
        (case safeParse body of
           Inl violations \<Rightarrow>
             (json_response [(''error'', JStr ''Invalid product data''), (''details'', violations)] 400, s)
         | Inr productInput \<Rightarrow>
            (let baseSlug = slugify (c_name productInput);
                 slug = baseSlug
             in
             (case insert_single io ''products'' (dataToInsert productInput slug)
                     ''products_id, slug, category_id, brand_id'' s of
                (Failure insertError, s1) \<Rightarrow>
                  (if err_code insertError = ''23505'' then
                     (json_response
                        [(''error'', JStr (''Product creation failed: ''
                            @ (if err_details insertError = [] then ''Duplicate value exists''
                               else err_details insertError)))] 409, s1)
                   else
                     (json_response
                        [(''error'', JStr (''Failed to create product: '' @ err_message insertError))]
                        500, s1))
              | (Success None, s1) \<Rightarrow>
                  (json_response [(''error'', JStr ''Failed to create product: undefined'')] 500, s1)
              | (Success (Some newProduct), s1) \<Rightarrow>
                  (let newProductId = field newProduct ''products_id'' in
                   (case insert_related io False newProductId productInput ([], s1) of
                      (relatedDataErrors, s2) \<Rightarrow>
                        (case getProductRelatedPaths io newProductId s2 of
                           (related, s3) \<Rightarrow>
                             (case revalidateCustomerApp io env
                                     \<lparr> path = None, paths = Some (create_paths newProduct related) \<rparr> s3 of
                                (Throws msg, s4) \<Rightarrow> (unexpected_error msg, s4)
                              | (Returns lines, s4) \<Rightarrow>
                                  (created_response newProduct relatedDataErrors, s4)))))))))"

section \<open>The product-update route\<close>

text \<open>
  src/app/api/products/update/route.ts.  \<open>coreUpdateData\<close> is the payload without
  \<open>products_id\<close>, the child collections and \<open>seo_keywords\<close>; lines 122--128 put the new
  slug into it when a name is given.
\<close>

definition u_newSlug :: "(string \<Rightarrow> string) \<Rightarrow> 'a ValidatedUpdateData_scheme \<Rightarrow> string option" where
  "u_newSlug slugify p =
     (case u_name p of
        None \<Rightarrow> None
      | Some n \<Rightarrow> if n = [] then None else Some (slugify n))"

definition coreUpdateData :: "(string \<Rightarrow> string) \<Rightarrow> 'a ValidatedUpdateData_scheme \<Rightarrow> obj" where
  "coreUpdateData slugify p =
    (let core = (case u_name p of None \<Rightarrow> u_rest p | Some n \<Rightarrow> set_field ''name'' (JStr n) (u_rest p))
     in case u_newSlug slugify p of
          None \<Rightarrow> core
        | Some newSlug \<Rightarrow> set_field ''slug'' (JStr newSlug) core)"

text \<open>
  \<open>dataToUpdate\<close>, lines 149--236.  Every entry of the form
  \<open>k: core.k !== undefined ? core.k : undefined\<close> leaves \<open>k\<close> as the spread has it; the
  entries that change the object are \<open>weight_unit\<close>, \<open>dimensions_unit\<close>, \<open>seo_keywords\<close> and
  \<open>updated_at\<close> (\<open>now\<close> is \<open>new Date().toISOString()\<close>).  Keys whose value is \<open>undefined\<close>
  are deleted.
\<close>

definition dataToUpdate :: "obj \<Rightarrow> string option \<Rightarrow> string \<Rightarrow> obj" where
  "dataToUpdate core seo_keywords now =
     set_fields
       [(''weight_unit'',
           if truthy (field core ''weight'') then field core ''weight_unit'' else JUndefined),
        (''dimensions_unit'',
           if truthy (field core ''dimensions_length'') \<or> truthy (field core ''dimensions_width'')
              \<or> truthy (field core ''dimensions_height'')
           then field core ''dimensions_unit'' else JUndefined),
        (''seo_keywords'',
           case seo_keywords of
             None \<Rightarrow> JUndefined
           | Some kws \<Rightarrow> if kws = [] then JUndefined else keywords_array kws),
        (''updated_at'', JStr now)]
       core"

subsection \<open>The deletion phase\<close>

text \<open>
  Lines 243--260: the ids of the product's variants.  An error is recorded and leaves the
  list of ids empty.
\<close>

definition fetch_variant_ids :: "'s platform \<Rightarrow> jsval \<Rightarrow> 's \<Rightarrow> (string list \<times> jsval list) \<times> 's" where
  "fetch_variant_ids io pid s =
     (case select_rows io ''product_variants'' ''id'' (Eq ''product_id'' pid) s of
        (Failure variantIdsError, s') \<Rightarrow>
          (([''Failed to fetch variant IDs: '' @ err_message variantIdsError], []), s')
      | (Success None, s') \<Rightarrow> (([], []), s')
      | (Success (Some variantIdsData), s') \<Rightarrow>
          (([], map (\<lambda>v. field v ''id'') variantIdsData), s'))"

text \<open>Lines 263--298: \<open>deletePromises\<close>, as the table and the filter of each deletion.\<close>

definition deletePromises :: "jsval \<Rightarrow> jsval list \<Rightarrow> (string \<times> filter) list" where
  "deletePromises pid variantIdsToDelete =
     [(''product_images'', Eq ''product_id'' pid),
      (''product_features'', Eq ''product_id'' pid),
      (''product_tags'', Eq ''product_id'' pid),
      (''product_faqs'', Eq ''product_id'' pid),
      (''product_testimonial_videos'', Eq ''product_id'' pid),
      (''customer_testimonials'', Eq ''products_id'' pid)]
     @ (if variantIdsToDelete \<noteq> []
        then [(''variant_attributes'', In ''variant_id'' variantIdsToDelete),
              (''variant_features'', In ''variant_id'' variantIdsToDelete)]
        else [])"

text \<open>
  Line 301: \<open>Promise.allSettled(deletePromises)\<close>.  The deletions run concurrently in the
  source; the model issues them in the order of the array.
\<close>

fun allSettled_deletes ::
  "'s platform \<Rightarrow> (string \<times> filter) list \<Rightarrow> 's \<Rightarrow> unit response settled list \<times> 's" where
  "allSettled_deletes io [] s = ([], s)"
| "allSettled_deletes io ((table, f) # rest) s =
     (case delete_rows io table f s of
        (r, s') \<Rightarrow> (case allSettled_deletes io rest s' of (rs, s'') \<Rightarrow> (r # rs, s'')))"

text \<open>Lines 302--309: one error string for each rejected deletion, with its index.\<close>

definition delete_error :: "nat \<times> unit response settled \<Rightarrow> string list" where
  "delete_error ir =
     (case snd ir of
        Fulfilled v \<Rightarrow> []
      | Rejected reason \<Rightarrow>
          [''Error deleting related data group '' @ string_of_nat (fst ir) @ '': ''
             @ (if reason = [] then ''Unknown error'' else reason)])"

definition delete_errors :: "unit response settled list \<Rightarrow> string list" where
  "delete_errors deleteResults = concat (map delete_error (enumerate 0 deleteResults))"

text \<open>Lines 312--318: the condition under which the variants themselves are deleted.\<close>

definition mentions_variant_tables :: "string \<Rightarrow> bool" where
  "mentions_variant_tables e =
     (includes_str e ''variant_attributes'' \<or> includes_str e ''variant_features'')"

definition may_delete_variants :: "jsval list \<Rightarrow> string list \<Rightarrow> bool" where
  "may_delete_variants variantIdsToDelete relatedDataErrors =
     (variantIdsToDelete \<noteq> [] \<and> \<not> list_ex mentions_variant_tables relatedDataErrors)"

text \<open>
  Lines 238--329, the whole phase.  \<open>Inl\<close> is the message of an error thrown to the
  handler's \<open>catch\<close>: the deletion of the variants is awaited directly, so its rejection
  is thrown.
\<close>

definition delete_phase :: "'s platform \<Rightarrow> jsval \<Rightarrow> 's \<Rightarrow> (string + string list) \<times> 's" where
  "delete_phase io pid s =
     (case fetch_variant_ids io pid s of
        ((fetchErrors, variantIdsToDelete), s1) \<Rightarrow>
          (case allSettled_deletes io (deletePromises pid variantIdsToDelete) s1 of
             (deleteResults, s2) \<Rightarrow>
               (let relatedDataErrors = fetchErrors @ delete_errors deleteResults in
                if may_delete_variants variantIdsToDelete relatedDataErrors then
                  (case delete_rows io ''product_variants'' (In ''id'' variantIdsToDelete) s2 of
                     (Rejected reason, s3) \<Rightarrow> (Inl reason, s3)
                   | (Fulfilled (Failure deleteVariantsError), s3) \<Rightarrow>
                       (Inr (relatedDataErrors
                               @ [''Error deleting variants: '' @ err_message deleteVariantsError]), s3)
                   | (Fulfilled (Success u), s3) \<Rightarrow> (Inr relatedDataErrors, s3))
                else (Inr relatedDataErrors, s2))))"

subsection \<open>Revalidation paths and the response\<close>

text \<open>
  Lines 537--558.  \<open>newSlug || oldSlug\<close> is the new slug unless it is undefined or empty.
  The push of the old product path (line 547) is commented out in the source.
\<close>

definition update_paths ::
  "string option \<Rightarrow> jsval \<Rightarrow> string option \<times> string option \<Rightarrow> string option \<times> string option
     \<Rightarrow> string list" where
  "update_paths newSlug oldSlug oldPaths newPaths =
     dedupe
       ([''/'', ''/products'',
         ''/products/'' @ (case newSlug of
                            None \<Rightarrow> text_of oldSlug
                          | Some sl \<Rightarrow> if sl = [] then text_of oldSlug else sl)]
        @ option_list (fst oldPaths) @ option_list (snd oldPaths)
        @ option_list (fst newPaths) @ option_list (snd newPaths))"

definition updated_response :: "int \<Rightarrow> obj \<Rightarrow> string list \<Rightarrow> next_response" where
  "updated_response pid core relatedDataErrors =
     json_response
       ([(''message'',
            JStr (if relatedDataErrors = [] then ''Product and all related data updated successfully''
                  else ''Product updated, but errors occurred with related data: ''
                       @ join_semicolon relatedDataErrors)),
         (''updatedProduct'', JObj (set_fields core [(''products_id'', JNum (of_int pid))]))]
        @ (if relatedDataErrors = [] then [] else [(''errors'', JArr (map JStr relatedDataErrors))]))
       200"

subsection \<open>The handler\<close>

text \<open>
  \<open>POST\<close> of the update route, lines 84--583, from the point where the client exists.
  \<open>safeParse\<close> is \<open>updateProductSchema.safeParse\<close>.
\<close>

definition update_POST ::
  "'s platform \<Rightarrow> process_env \<Rightarrow> (string \<Rightarrow> string) \<Rightarrow> string
     \<Rightarrow> ('b \<Rightarrow> jsval + ValidatedUpdateData) \<Rightarrow> 'b option \<Rightarrow> 's \<Rightarrow> next_response \<times> 's" where
  "update_POST io env slugify now safeParse req s =
    (case req of
       None \<Rightarrow> (invalid_json_body, s)
     | Some body \<Rightarrow>
        (case safeParse body of
           Inl violations \<Rightarrow>
             (json_response [(''error'', JStr ''Invalid product data''), (''details'', violations)] 400, s)
         | Inr p \<Rightarrow>
            (let pid = JNum (of_int (products_id p));
                 newSlug = u_newSlug slugify p;
                 core = coreUpdateData slugify p
             in
             (case select_single io ''products'' ''slug, category_id, brand_id''
                     (Eq ''products_id'' pid) s of
                (Failure fetchError, s1) \<Rightarrow>
                  (json_response [(''error'', JStr ''Could not find product to update'')] 404, s1)
              | (Success None, s1) \<Rightarrow>
                  (json_response [(''error'', JStr ''Could not find product to update'')] 404, s1)
              | (Success (Some currentProductData), s1) \<Rightarrow>
                  (let oldSlug = field currentProductData ''slug'' in
                   (case getProductRelatedPaths io pid s1 of
                      (oldPaths, s2) \<Rightarrow>
                        (case delete_phase io pid s2 of
                           (Inl thrown, s3) \<Rightarrow> (unexpected_error thrown, s3)
                         | (Inr deletionErrors, s3) \<Rightarrow>
                             (case update_rows io ''products''
                                     (dataToUpdate core (u_seo_keywords p) now)
                                     (Eq ''products_id'' pid) s3 of
                                (Failure updateError, s4) \<Rightarrow>
                                  (if err_code updateError = ''23505'' then
                                     (json_response
                                        [(''error'', JStr (''Product update failed: ''
                                            @ (if err_details updateError = []
                                               then ''Duplicate value exists''
                                               else err_details updateError)))] 409, s4)
                                   else
                                     (json_response
                                        [(''error'', JStr (''Failed to update product: ''
                                            @ err_message updateError))] 500, s4))
                              | (Success u, s4) \<Rightarrow>
                                  (case insert_related io True pid p (deletionErrors, s4) of
                                     (relatedDataErrors, s5) \<Rightarrow>
                                       (case getProductRelatedPaths io pid s5 of
                                          (newPaths, s6) \<Rightarrow>
                                            (case revalidateCustomerApp io env
                                                    \<lparr> path = None,
                                                      paths = Some (update_paths newSlug oldSlug
                                                                      oldPaths newPaths) \<rparr> s6 of
                                               (Throws msg, s7) \<Rightarrow> (unexpected_error msg, s7)
                                             | (Returns lines, s7) \<Rightarrow>
                                                 (updated_response (products_id p) core
                                                    relatedDataErrors, s7))))))))))))"

section \<open>The category-delete route\<close>

text \<open>
  src/app/api/categories/delete/route.ts.  \<open>getCategorySlugById\<close>, lines 13--29: the result
  is the slug, or \<open>null\<close>.
\<close>

definition getCategorySlugById :: "'s platform \<Rightarrow> jsval \<Rightarrow> 's \<Rightarrow> jsval \<times> 's" where
  "getCategorySlugById io categoryId s =
     (if \<not> truthy categoryId then (JNull, s)
      else
        (case select_maybe_single io ''categories'' ''slug'' (Eq ''categories_id'' categoryId) s of
           (Failure error, s') \<Rightarrow> (JNull, s')
         | (Success None, s') \<Rightarrow> (JNull, s')
         | (Success (Some data), s') \<Rightarrow> (nullish_null (field data ''slug''), s')))"

text \<open>Lines 101--118: the paths to revalidate after a deletion.\<close>

definition category_delete_paths :: "'s platform \<Rightarrow> jsval \<Rightarrow> jsval \<Rightarrow> 's \<Rightarrow> string list \<times> 's" where
  "category_delete_paths io slugToDelete parentId s =
    (let base = [''/'', ''/categories'']
                @ (if truthy slugToDelete then [''/category/'' @ text_of slugToDelete] else [])
     in if truthy parentId then
          (case getCategorySlugById io parentId s of
             (parentSlug, s') \<Rightarrow>
               (dedupe (base @ (if truthy parentSlug then [''/category/'' @ text_of parentSlug] else [])),
                s'))
        else (dedupe base, s))"

text \<open>
  \<open>POST\<close>, lines 31--146, from the point where the client exists.  \<open>safeParse\<close> is
  \<open>deleteCategorySchema.safeParse\<close>, whose data is the integer \<open>id\<close>.
\<close>

definition category_delete_POST ::
  "'s platform \<Rightarrow> process_env \<Rightarrow> ('b \<Rightarrow> jsval + int) \<Rightarrow> 'b option \<Rightarrow> 's \<Rightarrow> next_response \<times> 's" where
  "category_delete_POST io env safeParse req s =
    (case req of
       None \<Rightarrow> (invalid_json_body, s)
     | Some body \<Rightarrow>
        (case safeParse body of
           Inl violations \<Rightarrow>
             (json_response
                [(''error'', JStr ''Invalid category ID provided''), (''details'', violations)] 400, s)
         | Inr cid \<Rightarrow>
            (let categoryId = JNum (of_int cid) in
             (case select_single io ''categories'' ''slug, parent_category_id''
                     (Eq ''categories_id'' categoryId) s of
                (Failure fetchError, s1) \<Rightarrow>
                  (json_response
                     [(''error'', JStr ''Category not found or error fetching data before deletion.'')]
                     404, s1)
              | (Success None, s1) \<Rightarrow>
                  (json_response
                     [(''error'', JStr ''Category not found or error fetching data before deletion.'')]
                     404, s1)
              | (Success (Some categoryToDelete), s1) \<Rightarrow>
                  (let slugToDelete = field categoryToDelete ''slug'';
                       parentId = field categoryToDelete ''parent_category_id''
                   in
                   (case delete_rows io ''categories'' (Eq ''categories_id'' categoryId) s1 of
                      (Rejected reason, s2) \<Rightarrow> (unexpected_error reason, s2)
                    | (Fulfilled (Failure deleteError), s2) \<Rightarrow>
                        (if err_code deleteError = ''23503'' then
                           (json_response
                              [(''error'', JStr (''Cannot delete category: It is referenced by other records (e.g., products, subcategories). Details: ''
                                  @ err_details deleteError))] 409, s2)
                         else
                           (json_response
                              [(''error'', JStr (''Failed to delete category: ''
                                  @ err_message deleteError))] 500, s2))
                    | (Fulfilled (Success u), s2) \<Rightarrow>
                        (case category_delete_paths io slugToDelete parentId s2 of
                           (pathsToRevalidate, s3) \<Rightarrow>
                             if pathsToRevalidate = [] then
                               (json_response
                                  [(''message'', JStr ''Category deleted successfully'')] 200, s3)
                             else
                               (case revalidateCustomerApp io env
                                       \<lparr> path = None, paths = Some pathsToRevalidate \<rparr> s3 of
                                  (Throws msg, s4) \<Rightarrow> (unexpected_error msg, s4)
                                | (Returns lines, s4) \<Rightarrow>
                                    (json_response
                                       [(''message'', JStr ''Category deleted successfully'')] 200,
                                     s4)))))))))"

section \<open>A reference database\<close>

text \<open>
  Modelled from the spec: the external database and the storefronts, which are not part of
  the source files.  The database (spec, section 6) holds named tables of rows and
  executes one statement at a time; a statement that fails changes nothing.  Of the
  constraints of its schema the model has the two the spec states in section 3: product
  slugs are unique (a violation has code 23505), and a category or brand that a product
  still references cannot be deleted (code 23503).  A select returns whole rows whatever
  the column list is; a select on \<open>products\<close> also embeds the rows of the product's
  category and brand, as the query of \<open>getProductRelatedPaths\<close> asks.  \<open>insert(..).select()\<close>
  gives the new row a fresh primary key; rows inserted in bulk are stored as they are sent.
  \<open>storefront\<close> is what a POST to each URL comes back with.
\<close>

record memdb =
  tables :: "string \<Rightarrow> obj list"
  next_id :: nat
  storefront :: "string \<Rightarrow> fetch_result"

definition primary_key :: "string \<Rightarrow> string" where
  "primary_key t =
     (if t = ''products'' then ''products_id''
      else if t = ''categories'' then ''categories_id''
      else if t = ''brands'' then ''brands_id''
      else ''id'')"

fun matches :: "filter \<Rightarrow> obj \<Rightarrow> bool" where
  "matches (Eq col v) row = (v \<noteq> JNull \<and> v \<noteq> JUndefined \<and> field row col = v)"
| "matches (In col vs) row =
     (field row col \<noteq> JNull \<and> field row col \<noteq> JUndefined \<and> List.member vs (field row col))"

definition unique_violation :: pg_error where
  "unique_violation =
     \<lparr> err_code = ''23505'',
       err_message = ''duplicate key value violates unique constraint'',
       err_details = ''Key (slug) already exists.'' \<rparr>"

definition foreign_key_violation :: pg_error where
  "foreign_key_violation =
     \<lparr> err_code = ''23503'',
       err_message = ''update or delete on table violates foreign key constraint'',
       err_details = ''Key is still referenced from table products.'' \<rparr>"

definition not_single_row :: pg_error where
  "not_single_row =
     \<lparr> err_code = ''PGRST116'',
       err_message = ''JSON object requested, multiple (or no) rows returned'',
       err_details = [] \<rparr>"

definition related_row :: "memdb \<Rightarrow> string \<Rightarrow> jsval \<Rightarrow> jsval" where
  "related_row db t key =
     (case filter (matches (Eq (primary_key t) key)) (tables db t) of
        [] \<Rightarrow> JNull
      | r # rs \<Rightarrow> JObj r)"

definition embed :: "memdb \<Rightarrow> string \<Rightarrow> obj \<Rightarrow> obj" where
  "embed db t row =
     (if t = ''products''
      then row @ [(''categories'', related_row db ''categories'' (field row ''category_id'')),
                  (''brands'', related_row db ''brands'' (field row ''brand_id''))]
      else row)"

definition slug_taken :: "obj list \<Rightarrow> jsval \<Rightarrow> bool" where
  "slug_taken rows slug = (slug \<noteq> JUndefined \<and> slug \<noteq> JNull \<and> list_ex (\<lambda>r. field r ''slug'' = slug) rows)"

definition put_table :: "string \<Rightarrow> obj list \<Rightarrow> memdb \<Rightarrow> memdb" where
  "put_table t rows db = db \<lparr> tables := (tables db)(t := rows) \<rparr>"

definition mem_insert_single :: "string \<Rightarrow> obj \<Rightarrow> string \<Rightarrow> memdb \<Rightarrow> obj option response \<times> memdb" where
  "mem_insert_single t row cols db =
     (if t = ''products'' \<and> slug_taken (tables db t) (field row ''slug'')
      then (Failure unique_violation, db)
      else
        (let row' = set_field (primary_key t) (JNum (of_nat (next_id db))) row;
             db' = (put_table t (tables db t @ [row']) db) \<lparr> next_id := Suc (next_id db) \<rparr>
         in (Success (Some (embed db' t row')), db')))"

definition mem_insert_rows :: "string \<Rightarrow> obj list \<Rightarrow> memdb \<Rightarrow> unit response \<times> memdb" where
  "mem_insert_rows t rows db =
     (if t = ''products'' \<and> list_ex (\<lambda>r. slug_taken (tables db t) (field r ''slug'')) rows
      then (Failure unique_violation, db)
      else (Success (), put_table t (tables db t @ rows) db))"

definition mem_select :: "string \<Rightarrow> filter \<Rightarrow> memdb \<Rightarrow> obj list" where
  "mem_select t f db = map (embed db t) (filter (matches f) (tables db t))"

definition mem_select_single :: "string \<Rightarrow> string \<Rightarrow> filter \<Rightarrow> memdb \<Rightarrow> obj option response \<times> memdb" where
  "mem_select_single t cols f db =
     (case mem_select t f db of
        [r] \<Rightarrow> (Success (Some r), db)
      | rs \<Rightarrow> (Failure not_single_row, db))"

definition mem_select_maybe_single ::
  "string \<Rightarrow> string \<Rightarrow> filter \<Rightarrow> memdb \<Rightarrow> obj option response \<times> memdb" where
  "mem_select_maybe_single t cols f db =
     (case mem_select t f db of
        [] \<Rightarrow> (Success None, db)
      | [r] \<Rightarrow> (Success (Some r), db)
      | rs \<Rightarrow> (Failure not_single_row, db))"

definition mem_select_rows ::
  "string \<Rightarrow> string \<Rightarrow> filter \<Rightarrow> memdb \<Rightarrow> obj list option response \<times> memdb" where
  "mem_select_rows t cols f db = (Success (Some (mem_select t f db)), db)"

definition mem_update_rows :: "string \<Rightarrow> obj \<Rightarrow> filter \<Rightarrow> memdb \<Rightarrow> unit response \<times> memdb" where
  "mem_update_rows t row f db =
     (let hit = filter (matches f) (tables db t);
          others = filter (\<lambda>r. \<not> matches f r) (tables db t)
      in if t = ''products'' \<and> hit \<noteq> []
            \<and> (slug_taken others (field row ''slug'')
                \<or> (length hit > 1 \<and> field row ''slug'' \<noteq> JUndefined \<and> field row ''slug'' \<noteq> JNull))
         then (Failure unique_violation, db)
         else (Success (),
               put_table t (map (\<lambda>r. if matches f r then set_fields row r else r) (tables db t)) db))"

definition referenced :: "memdb \<Rightarrow> string \<Rightarrow> obj \<Rightarrow> bool" where
  "referenced db t row =
     (if t = ''categories''
      then list_ex (matches (Eq ''category_id'' (field row ''categories_id''))) (tables db ''products'')
      else if t = ''brands''
      then list_ex (matches (Eq ''brand_id'' (field row ''brands_id''))) (tables db ''products'')
      else False)"

definition mem_delete_rows :: "string \<Rightarrow> filter \<Rightarrow> memdb \<Rightarrow> unit response settled \<times> memdb" where
  "mem_delete_rows t f db =
     (if list_ex (referenced db t) (filter (matches f) (tables db t))
      then (Fulfilled (Failure foreign_key_violation), db)
      else (Fulfilled (Success ()), put_table t (filter (\<lambda>r. \<not> matches f r) (tables db t)) db))"

definition mem_http_post ::
  "string \<Rightarrow> string \<Rightarrow> RevalidationPayload \<Rightarrow> memdb \<Rightarrow> fetch_result \<times> memdb" where
  "mem_http_post url auth payload db = (storefront db url, db)"

definition memdb_platform :: "memdb platform" where
  "memdb_platform =
     \<lparr> insert_single = mem_insert_single,
       insert_rows = mem_insert_rows,
       select_single = mem_select_single,
       select_maybe_single = mem_select_maybe_single,
       select_rows = mem_select_rows,
       update_rows = mem_update_rows,
       delete_rows = mem_delete_rows,
       http_post = mem_http_post \<rparr>"

text \<open>
  The same platform with bulk inserts into the tables of \<open>broken\<close> failing, for runs in
  which a child collection cannot be stored.
\<close>

definition insert_failure :: pg_error where
  "insert_failure =
     \<lparr> err_code = ''XX000'', err_message = ''insert failed'', err_details = [] \<rparr>"

definition flaky_platform :: "string list \<Rightarrow> memdb platform" where
  "flaky_platform broken =
     memdb_platform
       \<lparr> insert_rows :=
           (\<lambda>t rows db. if List.member broken t then (Failure insert_failure, db)
                        else mem_insert_rows t rows db),
         insert_single :=
           (\<lambda>t row cols db.
              if List.member broken t \<and> field row ''name'' = JStr ''Broken''
              then (Failure insert_failure, db)
              else mem_insert_single t row cols db) \<rparr>"

text \<open>
  The reference platform with the deletions on the tables of \<open>broken\<close> refused by the
  database: the promise resolves to \<open>{ error }\<close>, as every failure does with the client
  that \<open>getSupabaseAdmin\<close> builds, and no row is deleted.
\<close>

definition delete_failure :: pg_error where
  "delete_failure =
     \<lparr> err_code = ''57014'', err_message = ''canceling statement due to statement timeout'',
       err_details = [] \<rparr>"

definition refusing_platform :: "string list \<Rightarrow> memdb platform" where
  "refusing_platform broken =
     memdb_platform
       \<lparr> delete_rows :=
           (\<lambda>t f db. if List.member broken t then (Fulfilled (Failure delete_failure), db)
                     else mem_delete_rows t f db) \<rparr>"

text \<open>
  Modelled from the spec: the slug derivation of the external slugify package, as
  section 4.2 step 2 words it (lower case, runs of non-alphanumeric characters collapsed
  to single hyphens, leading and trailing hyphens trimmed).  It stands for the package in
  concrete runs only; the handlers take the package as a parameter.
\<close>

definition slugify_model :: "string \<Rightarrow> string" where
  "slugify_model n = generateSlug_category n"

text \<open>Tables given by a list of named row lists, and an empty database.\<close>

definition tables_of :: "(string \<times> obj list) list \<Rightarrow> string \<Rightarrow> obj list" where
  "tables_of ts t = (case map_of ts t of None \<Rightarrow> [] | Some rows \<Rightarrow> rows)"

definition no_storefront :: "string \<Rightarrow> fetch_result" where
  "no_storefront url = FetchRejected ''fetch failed''"

section \<open>Reading a trace\<close>

text \<open>What a run posted to the storefronts: URL, authorization header and payload.\<close>

fun posted :: "event \<Rightarrow> (string \<times> string \<times> RevalidationPayload) list" where
  "posted (HttpPost url auth payload r) = [(url, auth, payload)]"
| "posted e = []"

definition posts :: "event list \<Rightarrow> (string \<times> string \<times> RevalidationPayload) list" where
  "posts tr = concat (map posted tr)"


text \<open>The kind and the table (or URL) of a statement.\<close>

fun statement :: "event \<Rightarrow> string" where
  "statement (InsertSingle t row cols r) = ''insert '' @ t"
| "statement (InsertRows t rows r) = ''insert '' @ t"
| "statement (SelectSingle t cols f r) = ''select '' @ t"
| "statement (SelectMaybeSingle t cols f r) = ''select '' @ t"
| "statement (SelectRows t cols f r) = ''select '' @ t"
| "statement (UpdateRows t row f r) = ''update '' @ t"
| "statement (DeleteRows t f r) = ''delete '' @ t"
| "statement (HttpPost url auth payload r) = ''post '' @ url"

text \<open>The rows of the bulk inserts into a table, in the order they were issued.\<close>

fun rows_inserted_by :: "string \<Rightarrow> event \<Rightarrow> obj list list" where
  "rows_inserted_by t (InsertRows t' rows r) = (if t' = t then [rows] else [])"
| "rows_inserted_by t e = []"

definition rows_inserted :: "string \<Rightarrow> event list \<Rightarrow> obj list list" where
  "rows_inserted t tr = concat (map (rows_inserted_by t) tr)"

text \<open>Inserts, failed inserts, and the outcomes of the variant inserts, in order.\<close>

fun is_insert :: "event \<Rightarrow> bool" where
  "is_insert (InsertSingle t row cols r) = True"
| "is_insert (InsertRows t rows r) = True"
| "is_insert e = False"

fun insert_failed :: "event \<Rightarrow> bool" where
  "insert_failed (InsertSingle t row cols (Failure e)) = True"
| "insert_failed (InsertSingle t row cols (Success None)) = True"
| "insert_failed (InsertRows t rows (Failure e)) = True"
| "insert_failed e = False"

fun variant_outcome :: "event \<Rightarrow> bool list" where
  "variant_outcome (InsertSingle t row cols r) =
     (if t = ''product_variants''
      then [case r of Success (Some v) \<Rightarrow> True | Success None \<Rightarrow> False | Failure e \<Rightarrow> False]
      else [])"
| "variant_outcome e = []"

definition variant_outcomes :: "event list \<Rightarrow> bool list" where
  "variant_outcomes tr = concat (map variant_outcome tr)"

text \<open>The \<open>errors\<close> array of a response body.\<close>

definition errors_in :: "next_response \<Rightarrow> jsval list" where
  "errors_in resp = (case field (res_body resp) ''errors'' of JArr xs \<Rightarrow> xs | v \<Rightarrow> [])"

text \<open>
  The inserts of related data as the spec words them (section 4.2, step 4), to be
  compared with the trace of a run: one insert for each child collection that is not
  empty, independently of the others; then for each variant its insert and, if that
  insert succeeded (\<open>inserted\<close>), the insert of its attributes and the insert of its
  features, when it has any with non-empty fields.
\<close>

definition expected_variant_inserts :: "ProductVariant \<Rightarrow> bool \<Rightarrow> string list" where
  "expected_variant_inserts v inserted =
     ''insert product_variants''
     # (if inserted
        then (if list_ex (\<lambda>a. attribute_name a \<noteq> [] \<and> attribute_value a \<noteq> []) (attributes v)
              then [''insert variant_attributes''] else [])
             @ (if list_ex (\<lambda>f. feature_text f \<noteq> []) (variant_features v)
                then [''insert variant_features''] else [])
        else [])"

definition expected_child_inserts :: "'a related_data_scheme \<Rightarrow> bool list \<Rightarrow> string list" where
  "expected_child_inserts d inserted =
     (if images d = [] then [] else [''insert product_images''])
     @ (if features d = [] then [] else [''insert product_features''])
     @ (if tags d = [] then [] else [''insert product_tags''])
     @ (if faqs d = [] then [] else [''insert product_faqs''])
     @ (if testimonial_videos d = [] then [] else [''insert product_testimonial_videos''])
     @ (if customer_testimonials d = [] then [] else [''insert customer_testimonials''])
     @ concat (map (\<lambda>(v, ok). expected_variant_inserts v ok) (zip (variants d) inserted))"




section \<open>Sample data for concrete runs\<close>

definition env_unset :: process_env where
  "env_unset = \<lparr> CUSTOMER_APP_BASE_URLS = None, REVALIDATION_SECRET = None \<rparr>"

definition env_two :: process_env where
  "env_two =
     \<lparr> CUSTOMER_APP_BASE_URLS = Some ''https://a.example, https://b.example,'',
       REVALIDATION_SECRET = Some ''s3cret'' \<rparr>"

text \<open>One storefront answers with 200 and a JSON body; any other URL is unreachable.\<close>

definition storefront_a :: "string \<Rightarrow> fetch_result" where
  "storefront_a url =
     (if url = ''https://a.example/api/revalidate''
      then FetchResolved \<lparr> ok = True, status = 200, text_body = Inr ''{}'',
                           json_body = Inr (JObj [(''revalidated'', JBool True)]) \<rparr>
      else FetchRejected ''fetch failed'')"

definition payload_home :: RevalidationPayload where
  "payload_home = \<lparr> path = Some ''/'', paths = None \<rparr>"

text \<open>
  A shop with one category, two products, three images of product 1 and one variant of
  product 1 with one attribute.
\<close>

definition shop :: memdb where
  "shop =
     \<lparr> tables = tables_of
         [(''categories'',
             [[(''categories_id'', JNum 7), (''slug'', JStr ''hats''), (''parent_category_id'', JNull)]]),
          (''products'',
             [[(''products_id'', JNum 1), (''name'', JStr ''Red Hat''), (''slug'', JStr ''red-hat''),
               (''category_id'', JNum 7), (''brand_id'', JNull)],
              [(''products_id'', JNum 2), (''name'', JStr ''Blue Cap''), (''slug'', JStr ''blue-cap''),
               (''category_id'', JNull), (''brand_id'', JNull)]]),
          (''product_images'',
             [[(''product_id'', JNum 1), (''url'', JStr ''https://img.example/a''),
               (''is_primary'', JBool True), (''sort_order'', JNum 0)],
              [(''product_id'', JNum 1), (''url'', JStr ''https://img.example/b''),
               (''is_primary'', JBool False), (''sort_order'', JNum 1)],
              [(''product_id'', JNum 1), (''url'', JStr ''https://img.example/c''),
               (''is_primary'', JBool False), (''sort_order'', JNum 2)]]),
          (''product_variants'',
             [[(''id'', JNum 5), (''product_id'', JNum 1), (''name'', JStr ''Large'')]]),
          (''variant_attributes'',
             [[(''variant_id'', JNum 5), (''name'', JStr ''Size''), (''value'', JStr ''L'')]])],
       next_id = 100,
       storefront = storefront_a \<rparr>"

definition no_related :: related_data where
  "no_related =
     \<lparr> images = [], features = [], variants = [], testimonial_videos = [],
       customer_testimonials = [], tags = [], faqs = [] \<rparr>"

text \<open>A create payload for a product named ``Red Hat'', and one with child collections.\<close>

definition create_red_hat :: ValidatedProductData where
  "create_red_hat =
     related_data.extend no_related
       (ValidatedProductData.fields ''Red Hat'' [(''price'', JNum 10)] None)"

definition create_green_hat :: ValidatedProductData where
  "create_green_hat =
     related_data.extend
       (no_related
          \<lparr> images := [''https://img.example/x'', ''https://img.example/y''],
            tags := [''wool''],
            variants :=
              [\<lparr> variant_name = ''Broken'', variant_rest = [],
                 attributes = [\<lparr> attribute_name = ''Size'', attribute_value = ''S'' \<rparr>],
                 variant_features = [] \<rparr>,
               \<lparr> variant_name = ''Large'', variant_rest = [],
                 attributes = [\<lparr> attribute_name = ''Size'', attribute_value = ''L'' \<rparr>],
                 variant_features = [] \<rparr>] \<rparr>)
       (ValidatedProductData.fields ''Green Hat'' [(''price'', JNum 12)] None)"

text \<open>Update payloads for product 2 and product 1.\<close>

definition rename_cap_to_red_hat :: ValidatedUpdateData where
  "rename_cap_to_red_hat =
     related_data.extend no_related
       (ValidatedUpdateData.fields 2 (Some ''Red Hat'') [(''slug'', JStr ''blue-cap'')] None)"



definition same_name_own_slug :: ValidatedUpdateData where
  "same_name_own_slug =
     related_data.extend no_related
       (ValidatedUpdateData.fields 1 (Some ''Red Hat'') [(''slug'', JStr ''my-hat'')] None)"

definition new_images :: ValidatedUpdateData where
  "new_images =
     related_data.extend
       (no_related \<lparr> images := [''https://img.example/x'', ''https://img.example/y''] \<rparr>)
       (ValidatedUpdateData.fields 1 None [] None)"

text \<open>
  \<open>updateProductSchema.safeParse\<close> on the bodies that hold at most the keys \<open>products_id\<close>
  (\<open>z.number().int()\<close>, required) and \<open>price\<close> (\<open>z.coerce.number().min(0).optional()\<close>), each
  a JSON number when present.  The violations are zod's flattened error, with the issues
  of every field.
\<close>

record id_price_body =
  body_products_id :: "rat option"
  body_price :: "rat option"

definition field_issues :: "string \<Rightarrow> string list + 'a \<Rightarrow> (string \<times> jsval) list" where
  "field_issues k r = (case r of Inl msgs \<Rightarrow> [(k, JArr (map JStr msgs))] | Inr v \<Rightarrow> [])"

definition safeParse_id_price :: "id_price_body \<Rightarrow> jsval + ValidatedUpdateData" where
  "safeParse_id_price body =
     (let idResult =
            (case body_products_id body of
               None \<Rightarrow> Inl [''Required'']
             | Some i \<Rightarrow>
                 if of_int \<lfloor>i\<rfloor> = i then Inr \<lfloor>i\<rfloor> else Inl [''Expected integer, received float'']);
          priceResult =
            (case body_price body of
               None \<Rightarrow> Inr []
             | Some price \<Rightarrow>
                 if price < 0 then Inl [''Number must be greater than or equal to 0'']
                 else Inr [(''price'', JNum price)])
      in case (idResult, priceResult) of
           (Inr i, Inr rest) \<Rightarrow>
             Inr (related_data.extend no_related (ValidatedUpdateData.fields i None rest None))
         | other \<Rightarrow>
             Inl (JObj [(''formErrors'', JArr []),
                        (''fieldErrors'',
                           JObj (field_issues ''products_id'' idResult
                                 @ field_issues ''price'' priceResult))]))"

section \<open>Properties of slug generation\<close>

lemma hd_replace_runs: "xs \<noteq> [] \<Longrightarrow> \<not> p (hd xs) \<Longrightarrow> replace_runs p xs = hd xs # replace_runs p (tl xs)"
  by (cases xs) auto

lemma dropWhile_hd: "dropWhile p xs \<noteq> [] \<Longrightarrow> \<not> p (hd (dropWhile p xs))"
  by (simp add: hd_dropWhile)

lemma runs_single_replace_runs: "p (CHR ''-'') \<Longrightarrow> runs_single p (replace_runs p s)"
proof (induction p s rule: replace_runs.induct)
  case (1 p)
  then show ?case by simp
next
  case (2 p c cs)
  show ?case
  proof (cases "p c")
    case True
    let ?r = "dropWhile p cs"
    show ?thesis
    proof (cases ?r)
      case Nil
      have "replace_runs p (c # cs) = CHR ''-'' # replace_runs p ?r" using True by simp
      then show ?thesis using Nil 2 by simp
    next
      case (Cons d ds)
      then have nd: "\<not> p d" using dropWhile_hd[of p cs] by simp
      from 2 True have "runs_single p (replace_runs p ?r)" by simp
      with True Cons nd show ?thesis by simp
    qed
  next
    case False
    with 2 have ih: "runs_single p (replace_runs p cs)" by simp
    show ?thesis
    proof (cases cs)
      case Nil
      with False show ?thesis by simp
    next
      case (Cons d ds)
      with False ih show ?thesis by (cases "p d") auto 
    qed
  qed
qed

lemma replace_runs_fix: "runs_single p s \<Longrightarrow> replace_runs p s = s"
proof (induction p s rule: runs_single.induct)
  case (3 p c d cs)
  then show ?case by (cases "p c") auto
qed auto

lemma runs_single_tl: "runs_single p s \<Longrightarrow> runs_single p (tl s)"
  by (induction p s rule: runs_single.induct) (auto split: if_splits)

lemma runs_single_butlast: "runs_single p s \<Longrightarrow> runs_single p (butlast s)"
  by (induction p s rule: runs_single.induct) (auto split: if_splits)

lemma runs_single_dropWhile: "runs_single p s \<Longrightarrow> runs_single p (dropWhile q s)"
  by (induction p s rule: runs_single.induct) (auto split: if_splits)


lemma runs_single_chars: "runs_single p s \<Longrightarrow> c \<in> set s \<Longrightarrow> p c \<Longrightarrow> c = CHR ''-''"
  by (induction p s rule: runs_single.induct) (auto split: if_splits)

lemma runs_single_append:
  "runs_single p (xs @ ys) =
     (runs_single p xs \<and> runs_single p ys \<and> (xs = [] \<or> ys = [] \<or> \<not> (p (last xs) \<and> p (hd ys))))"
proof (induction p xs rule: runs_single.induct)
  case (1 p)
  then show ?case by simp
next
  case (2 p c)
  then show ?case by (cases ys) (auto dest: runs_single_chars)
next
  case (3 p c d cs)
  then show ?case by auto
qed

lemma runs_single_rev: "runs_single p (rev s) = runs_single p s"
proof (induction s)
  case Nil
  then show ?case by simp
next
  case (Cons a s)
  show ?case
  proof (cases s)
    case Nil
    then show ?thesis by simp
  next
    case (Cons b bs)
    have "runs_single p (rev (a # s)) =
            (runs_single p (rev s) \<and> runs_single p [a] \<and> \<not> (p (last (rev s)) \<and> p a))"
      using Cons by (simp add: runs_single_append)
    also have "\<dots> = (runs_single p s \<and> runs_single p [a] \<and> \<not> (p b \<and> p a))"
      using Cons Cons.IH by (simp add: last_rev)
    also have "\<dots> = runs_single p (a # s)"
      using Cons by (auto dest: runs_single_chars)
    finally show ?thesis .
  qed
qed

lemma strip_edge_hyphen_shape:
  assumes "p (CHR ''-'')" "runs_single p r"
  shows "runs_single p (strip_edge_hyphen r) \<and>
         (strip_edge_hyphen r = [] \<or>
          (hd (strip_edge_hyphen r) \<noteq> CHR ''-'' \<and> last (strip_edge_hyphen r) \<noteq> CHR ''-''))"
proof -
  define t0 where "t0 = (case r of [] \<Rightarrow> [] | c # cs \<Rightarrow> if c = CHR ''-'' then cs else r)"
  have t: "strip_edge_hyphen r = (if t0 \<noteq> [] \<and> last t0 = CHR ''-'' then butlast t0 else t0)"
    by (simp add: strip_edge_hyphen_def t0_def)
  have rs0: "runs_single p t0"
    using assms(2) runs_single_tl[of p r] by (auto simp: t0_def split: list.splits)
  have hd0: "t0 = [] \<or> hd t0 \<noteq> CHR ''-''"
  proof (cases r)
    case Nil
    then show ?thesis by (simp add: t0_def)
  next
    case (Cons c cs)
    show ?thesis
    proof (cases "c = CHR ''-''")
      case True
      then have "t0 = cs" using Cons by (simp add: t0_def)
      moreover have "cs = [] \<or> \<not> p (hd cs)"
        using assms Cons True by (cases cs) auto
      ultimately show ?thesis using assms(1) by auto
    next
      case False
      then show ?thesis using Cons by (simp add: t0_def)
    qed
  qed
  show ?thesis
  proof (cases "t0 \<noteq> [] \<and> last t0 = CHR ''-''")
    case False
    then show ?thesis using t rs0 hd0 by auto
  next
    case True
    then have eq: "strip_edge_hyphen r = butlast t0" using t by simp
    have rsb: "runs_single p (butlast t0)" using rs0 by (rule runs_single_butlast)
    have "butlast t0 = [] \<or> (hd (butlast t0) \<noteq> CHR ''-'' \<and> last (butlast t0) \<noteq> CHR ''-'')"
    proof (cases "butlast t0 = []")
      case True
      then show ?thesis by simp
    next
      case False
      have h: "hd (butlast t0) = hd t0" using False by (cases t0) auto
      from True have ne: "t0 \<noteq> []" and l: "last t0 = CHR ''-''" by simp_all
      have "butlast t0 @ [last t0] = t0" using ne by (rule append_butlast_last_id)
      then have "butlast t0 @ [CHR ''-''] = t0" using l by simp
      then have "runs_single p (butlast t0 @ [CHR ''-''])" using rs0 by simp
      then have "\<not> p (last (butlast t0))"
        using False assms(1) by (simp add: runs_single_append)
      then have "last (butlast t0) \<noteq> CHR ''-''" using assms(1) by auto
      then show ?thesis using h hd0 True by auto
    qed
    then show ?thesis using eq rsb by simp
  qed
qed

lemma strip_edge_hyphen_id:
  "t = [] \<or> (hd t \<noteq> CHR ''-'' \<and> last t \<noteq> CHR ''-'') \<Longrightarrow> strip_edge_hyphen t = t"
  by (cases t) (auto simp: strip_edge_hyphen_def)

lemma not_lower_or_digit_hyphen: "\<not> is_lower_or_digit (CHR ''-'')"
  by (simp add: is_lower_or_digit_def)

lemma toLowerCase_char_lower_or_digit: "is_lower_or_digit c \<Longrightarrow> toLowerCase_char c = c"
  by (auto simp: is_lower_or_digit_def toLowerCase_char_def is_upper_code_def Let_def)

lemma toLowerCase_char_hyphen: "toLowerCase_char (CHR ''-'') = CHR ''-''"
  by (simp add: toLowerCase_char_def is_upper_code_def)

lemma toLowerCase_id:
  assumes "\<And>c. c \<in> set t \<Longrightarrow> is_lower_or_digit c \<or> c = CHR ''-''"
  shows "toLowerCase t = t"
  unfolding toLowerCase_def
proof (rule map_idI)
  fix x assume "x \<in> set t"
  then have "is_lower_or_digit x \<or> x = CHR ''-''" by (rule assms)
  then show "toLowerCase_char x = x"
    using toLowerCase_char_lower_or_digit toLowerCase_char_hyphen by blast
qed

lemma generateSlug_category_idem:
  "generateSlug_category (generateSlug_category name) = generateSlug_category name"
proof -
  let ?np = "\<lambda>c. \<not> is_lower_or_digit c"
  define r where "r = replace_runs ?np (toLowerCase name)"
  define t where "t = strip_edge_hyphen r"
  have t_eq: "generateSlug_category name = t"
    by (simp add: generateSlug_category_def t_def r_def)
  have rs_r: "runs_single ?np r"
    unfolding r_def by (rule runs_single_replace_runs) (rule not_lower_or_digit_hyphen)
  have shape: "runs_single ?np t \<and> (t = [] \<or> (hd t \<noteq> CHR ''-'' \<and> last t \<noteq> CHR ''-''))"
    unfolding t_def using strip_edge_hyphen_shape[of ?np r] rs_r not_lower_or_digit_hyphen by simp
  have chars: "\<And>c. c \<in> set t \<Longrightarrow> is_lower_or_digit c \<or> c = CHR ''-''"
    using shape runs_single_chars[of ?np t] by blast
  have "toLowerCase t = t" using chars by (rule toLowerCase_id)
  moreover have "replace_runs ?np t = t" using shape by (simp add: replace_runs_fix)
  moreover have "strip_edge_hyphen t = t" using shape by (simp add: strip_edge_hyphen_id)
  ultimately have "generateSlug_category t = t" by (simp add: generateSlug_category_def)
  then show ?thesis by (simp add: t_eq)
qed

lemma set_replace_runs:
  "c \<in> set (replace_runs p s) \<Longrightarrow> c = CHR ''-'' \<or> (c \<in> set s \<and> \<not> p c)"
proof (induction p s rule: replace_runs.induct)
  case (1 p)
  then show ?case by simp
next
  case (2 p a cs)
  show ?case
  proof (cases "p a")
    case True
    with 2 have "c = CHR ''-'' \<or> c \<in> set (replace_runs p (dropWhile p cs))" by simp
    with 2 True have "c = CHR ''-'' \<or> (c \<in> set (dropWhile p cs) \<and> \<not> p c)" by blast
    then show ?thesis using set_dropWhileD[of c p cs] by auto
  next
    case False
    with 2 show ?thesis by auto
  qed
qed

lemma toLowerCase_char_not_upper:
  "\<not> (65 \<le> (of_char (toLowerCase_char c) :: nat) \<and> (of_char (toLowerCase_char c) :: nat) \<le> 90)"
proof (cases "is_upper_code (of_char c)")
  case True
  define n where "n = (of_char c :: nat)"
  have up: "(65 \<le> n \<and> n \<le> 90) \<or> (192 \<le> n \<and> n \<le> 222 \<and> n \<noteq> 215)"
    using True by (simp add: is_upper_code_def n_def)
  then have "n + 32 < 256" by auto
  then have "(n + 32) mod 256 = n + 32" by simp
  moreover have "toLowerCase_char c = char_of (n + 32)"
    using True by (simp add: toLowerCase_char_def n_def)
  ultimately have "(of_char (toLowerCase_char c) :: nat) = n + 32" by simp
  then show ?thesis using up by auto
next
  case False
  then have "toLowerCase_char c = c" by (simp add: toLowerCase_char_def)
  then show ?thesis using False by (auto simp: is_upper_code_def)
qed

lemma set_dropWhile_subset: "set (dropWhile P xs) \<subseteq> set xs"
  by (auto dest: set_dropWhileD)

lemma set_strip_both: "set (rev (dropWhile P (rev (dropWhile Q xs)))) \<subseteq> set xs"
  using set_dropWhile_subset[of P "rev (dropWhile Q xs)"] set_dropWhile_subset[of Q xs]
  by auto

lemma dropWhile_none: "(\<And>c. c \<in> set xs \<Longrightarrow> \<not> P c) \<Longrightarrow> dropWhile P xs = xs"
  by (cases xs) auto

lemma strip_hyphens_shape:
  "strip_hyphens r = [] \<or>
   (hd (strip_hyphens r) \<noteq> CHR ''-'' \<and> last (strip_hyphens r) \<noteq> CHR ''-'')"
proof (cases "strip_hyphens r = []")
  case True
  then show ?thesis by simp
next
  case False
  define a where "a = dropWhile (\<lambda>c. c = CHR ''-'') r"
  define b where "b = dropWhile (\<lambda>c. c = CHR ''-'') (rev a)"
  have s: "strip_hyphens r = rev b" by (simp add: strip_hyphens_def a_def b_def)
  have b: "b \<noteq> []" using False s by simp
  then have "hd b \<noteq> CHR ''-''" unfolding b_def by (rule dropWhile_hd)
  then have l: "last (rev b) \<noteq> CHR ''-''" unfolding last_rev .
  have "rev a = takeWhile (\<lambda>c. c = CHR ''-'') (rev a) @ b"
    unfolding b_def by (rule takeWhile_dropWhile_id[symmetric])
  then have "rev (rev a) = rev (takeWhile (\<lambda>c. c = CHR ''-'') (rev a) @ b)" by (rule arg_cong)
  then have a_eq: "a = rev b @ rev (takeWhile (\<lambda>c. c = CHR ''-'') (rev a))"
    by (simp only: rev_rev_ident rev_append)
  have rb: "rev b \<noteq> []" using b by simp
  have "hd a = hd (rev b)" using rb by (subst a_eq) (rule hd_append2)
  moreover have "a \<noteq> []" using a_eq rb by (metis append_is_Nil_conv)
  then have "hd a \<noteq> CHR ''-''" unfolding a_def by (rule dropWhile_hd)
  ultimately have "hd (rev b) \<noteq> CHR ''-''" by simp
  then show ?thesis using l s by simp
qed

lemma strip_hyphens_id:
  "t = [] \<or> (hd t \<noteq> CHR ''-'' \<and> last t \<noteq> CHR ''-'') \<Longrightarrow> strip_hyphens t = t"
proof (cases t)
  case Nil
  then show ?thesis by (simp add: strip_hyphens_def)
next
  case (Cons a as)
  assume "t = [] \<or> (hd t \<noteq> CHR ''-'' \<and> last t \<noteq> CHR ''-'')"
  with Cons have h: "a \<noteq> CHR ''-''" and l: "last t \<noteq> CHR ''-''" by auto
  have 1: "dropWhile (\<lambda>c. c = CHR ''-'') t = t" using Cons h by simp
  have "rev t \<noteq> []" using Cons by simp
  moreover have "hd (rev t) \<noteq> CHR ''-''" using l unfolding hd_rev .
  ultimately have 2: "dropWhile (\<lambda>c. c = CHR ''-'') (rev t) = rev t" by (cases "rev t") auto
  show ?thesis by (simp add: strip_hyphens_def 1 2)
qed

lemma trim_id: "(\<And>c. c \<in> set t \<Longrightarrow> \<not> is_white_space c) \<Longrightarrow> trim t = t"
proof -
  assume a: "\<And>c. c \<in> set t \<Longrightarrow> \<not> is_white_space c"
  have 1: "dropWhile is_white_space t = t" using a by (rule dropWhile_none)
  have 2: "dropWhile is_white_space (rev t) = rev t" using a by (intro dropWhile_none) simp
  show ?thesis by (simp add: trim_def 1 2)
qed

lemma lower_or_digit_word:
  assumes "is_lower_or_digit c"
  shows "is_word_char c \<and> \<not> is_white_space c \<and> c \<noteq> CHR ''_''"
proof -
  define n where "n = (of_char c :: nat)"
  have r: "(97 \<le> n \<and> n \<le> 122) \<or> (48 \<le> n \<and> n \<le> 57)"
    using assms by (simp add: is_lower_or_digit_def n_def Let_def)
  have "(65 \<le> n \<and> n \<le> 90) \<or> (97 \<le> n \<and> n \<le> 122) \<or> (48 \<le> n \<and> n \<le> 57) \<or> n = 95"
    using r by arith
  then have 1: "is_word_char c" by (simp add: is_word_char_def n_def[symmetric] Let_def)
  have "\<not> ((9 \<le> n \<and> n \<le> 13) \<or> n = 32 \<or> n = 160)" using r by arith
  then have 2: "\<not> is_white_space c" by (simp add: is_white_space_def n_def[symmetric] Let_def)
  have u: "(of_char (CHR ''_'') :: nat) = 95" by simp
  have "n \<noteq> 95" using r by arith
  then have 3: "c \<noteq> CHR ''_''" using u n_def by auto
  show ?thesis using 1 2 3 by simp
qed

lemma hyphen_not_space: "\<not> is_white_space (CHR ''-'')"
  by (simp add: is_white_space_def Let_def)

lemma generateSlug_productForm_idem:
  "generateSlug_productForm (generateSlug_productForm name) = generateSlug_productForm name"
proof -
  let ?q = "\<lambda>c. is_white_space c \<or> c = CHR ''_'' \<or> c = CHR ''-''"
  let ?keep = "\<lambda>c. is_word_char c \<or> is_white_space c \<or> c = CHR ''-''"
  define u where "u = filter ?keep (trim (toLowerCase name))"
  define r where "r = replace_runs ?q u"
  define t where "t = strip_hyphens r"
  have t_eq: "generateSlug_productForm name = t"
    by (simp add: generateSlug_productForm_def t_def r_def u_def)
  have rs_r: "runs_single ?q r"
    unfolding r_def by (rule runs_single_replace_runs) simp
  have rs_t: "runs_single ?q t"
    unfolding t_def strip_hyphens_def
    using rs_r by (simp add: runs_single_rev runs_single_dropWhile)
  have shape: "t = [] \<or> (hd t \<noteq> CHR ''-'' \<and> last t \<noteq> CHR ''-'')"
    unfolding t_def by (rule strip_hyphens_shape)
  have set_t: "set t \<subseteq> set r"
    unfolding t_def strip_hyphens_def by (rule set_strip_both)
  have set_u: "\<And>c. c \<in> set u \<Longrightarrow> ?keep c \<and> (\<exists>d. c = toLowerCase_char d)"
  proof -
    fix c assume "c \<in> set u"
    then have k: "?keep c" and "c \<in> set (trim (toLowerCase name))" by (auto simp: u_def)
    then have "c \<in> set (toLowerCase name)"
      using set_strip_both[of is_white_space is_white_space "toLowerCase name"]
      by (auto simp: trim_def)
    then show "?keep c \<and> (\<exists>d. c = toLowerCase_char d)" using k by (auto simp: toLowerCase_def)
  qed
  have chars: "\<And>c. c \<in> set t \<Longrightarrow> is_lower_or_digit c \<or> c = CHR ''-''"
  proof -
    fix c assume "c \<in> set t"
    then have "c \<in> set r" using set_t by blast
    then have "c = CHR ''-'' \<or> (c \<in> set u \<and> \<not> ?q c)"
      unfolding r_def by (rule set_replace_runs)
    then show "is_lower_or_digit c \<or> c = CHR ''-''"
    proof
      assume "c = CHR ''-''" then show ?thesis by simp
    next
      assume a: "c \<in> set u \<and> \<not> ?q c"
      then obtain d where d: "c = toLowerCase_char d" and w: "is_word_char c" and n: "c \<noteq> CHR ''_''"
        using set_u by blast
      have "\<not> (65 \<le> (of_char c :: nat) \<and> (of_char c :: nat) \<le> 90)"
        unfolding d by (rule toLowerCase_char_not_upper)
      moreover have "(of_char c :: nat) \<noteq> 95"
      proof
        assume "(of_char c :: nat) = 95"
        moreover have "(of_char (CHR ''_'') :: nat) = 95" by simp
        ultimately have "(of_char c :: nat) = of_char (CHR ''_'')" by simp
        then show False using n by (simp only: of_char_eq_iff)
      qed
      ultimately have "is_lower_or_digit c"
        using w by (auto simp: is_word_char_def is_lower_or_digit_def Let_def)
      then show ?thesis by simp
    qed
  qed
  have 1: "toLowerCase t = t" using chars by (rule toLowerCase_id)
  have nws: "\<And>c. c \<in> set t \<Longrightarrow> \<not> is_white_space c"
  proof -
    fix c assume "c \<in> set t"
    then have "is_lower_or_digit c \<or> c = CHR ''-''" by (rule chars)
    then show "\<not> is_white_space c" using lower_or_digit_word[of c] hyphen_not_space by blast
  qed
  have 2: "trim t = t" using nws by (rule trim_id)
  have 3: "filter ?keep t = t"
  proof (rule filter_True)
    show "\<forall>c\<in>set t. ?keep c"
    proof
      fix c assume "c \<in> set t"
      then have "is_lower_or_digit c \<or> c = CHR ''-''" by (rule chars)
      then show "?keep c" using lower_or_digit_word[of c] by blast
    qed
  qed
  have 4: "replace_runs ?q t = t" using rs_t by (rule replace_runs_fix)
  have 5: "strip_hyphens t = t" using shape by (rule strip_hyphens_id)
  have "generateSlug_productForm t = t"
    by (simp add: generateSlug_productForm_def 1 2 3 4 5)
  then show ?thesis by (simp add: t_eq)
qed

subsection \<open>Claim C9: slug generation\<close>

lemma generateSlug_category_example:
  "generateSlug_category ''Men's T-Shirt!'' = ''men-s-t-shirt''"
  by code_simp

lemma generateSlug_productForm_example:
  "generateSlug_productForm ''Men's T-Shirt!'' = ''mens-t-shirt''"
  by code_simp

text \<open>
  Claim C9, as stated, says that \<open>generateSlug("Men's T-Shirt!")\<close> returns \<open>"mens-t-shirt"\<close>.
  The claim names two functions \<open>generateSlug\<close>.  The one of the category form turns the
  apostrophe into a hyphen, so it returns \<open>"men-s-t-shirt"\<close>: the claim fails for it.
\<close>

theorem C9_category_slug_counterexample:
  "generateSlug_category ''Men's T-Shirt!'' \<noteq> ''mens-t-shirt''"
  by code_simp

text \<open>
  Claim C9, amended.  Both \<open>generateSlug\<close> functions are functions of the name alone and
  idempotent, and their results neither start nor end with a hyphen.  On
  \<open>"Men's T-Shirt!"\<close> the product form's function returns \<open>"mens-t-shirt"\<close> (apostrophe and
  punctuation dropped), the category form's function returns \<open>"men-s-t-shirt"\<close> (every run
  of characters outside \<open>[a-z0-9]\<close> becomes one hyphen).
\<close>

theorem C9_generateSlug_idempotent:
  "generateSlug_productForm (generateSlug_productForm name) = generateSlug_productForm name
   \<and> generateSlug_category (generateSlug_category name) = generateSlug_category name
   \<and> (generateSlug_productForm name = []
        \<or> (hd (generateSlug_productForm name) \<noteq> CHR ''-''
            \<and> last (generateSlug_productForm name) \<noteq> CHR ''-''))
   \<and> (generateSlug_category name = []
        \<or> (hd (generateSlug_category name) \<noteq> CHR ''-''
            \<and> last (generateSlug_category name) \<noteq> CHR ''-''))
   \<and> generateSlug_productForm ''Men's T-Shirt!'' = ''mens-t-shirt''
   \<and> generateSlug_category ''Men's T-Shirt!'' = ''men-s-t-shirt''"
proof -
  have "runs_single (\<lambda>c. \<not> is_lower_or_digit c)
          (replace_runs (\<lambda>c. \<not> is_lower_or_digit c) (toLowerCase name))"
    by (rule runs_single_replace_runs) (rule not_lower_or_digit_hyphen)
  then have "generateSlug_category name = []
        \<or> (hd (generateSlug_category name) \<noteq> CHR ''-''
            \<and> last (generateSlug_category name) \<noteq> CHR ''-'')"
    unfolding generateSlug_category_def
    using strip_edge_hyphen_shape[of "\<lambda>c. \<not> is_lower_or_digit c"] not_lower_or_digit_hyphen
    by blast
  moreover have "generateSlug_productForm name = []
        \<or> (hd (generateSlug_productForm name) \<noteq> CHR ''-''
            \<and> last (generateSlug_productForm name) \<noteq> CHR ''-'')"
    unfolding generateSlug_productForm_def by (rule strip_hyphens_shape)
  ultimately show ?thesis
    using generateSlug_productForm_idem generateSlug_category_idem
      generateSlug_productForm_example generateSlug_category_example
    by blast
qed

section \<open>Properties of the revalidation notifier\<close>

lemma traced_http_post:
  "http_post (traced io) url auth payload (s, tr) =
     (fst (http_post io url auth payload s),
      (snd (http_post io url auth payload s), tr @ [HttpPost url auth payload (fst (http_post io url auth payload s))]))"
  by (simp add: traced_def record_event_def split: prod.splits)

lemma request_one_fulfilled:
  "\<exists>report lines s'. request_one io secret payload baseUrl s = ((Fulfilled report, lines), s')"
  by (auto simp: request_one_def split: prod.splits sum.splits)

lemma all_requests_fulfilled:
  "all_requests io secret payload urls s = ((results, lines), s') \<Longrightarrow> rejected_lines results = []"
proof (induction urls arbitrary: s results lines s')
  case Nil
  then show ?case by simp
next
  case (Cons baseUrl rest)
  obtain report l1 s1 where one: "request_one io secret payload baseUrl s = ((Fulfilled report, l1), s1)"
    using request_one_fulfilled[of io secret payload baseUrl s] by blast
  obtain rs l2 s2 where more: "all_requests io secret payload rest s1 = ((rs, l2), s2)"
    by (metis prod.exhaust)
  from Cons.prems one more have "results = Fulfilled report # rs" by simp
  moreover have "rejected_lines rs = []" using more by (rule Cons.IH)
  ultimately show ?case by simp
qed

lemma request_try_traced_posts:
  "posts (snd (snd (request_try (traced io) secret payload baseUrl (s, tr)))) =
     posts tr @ [(baseUrl @ ''/api/revalidate'', ''Bearer '' @ secret, payload)]"
  by (simp add: request_try_def traced_http_post posts_def
           split: prod.splits fetch_result.splits sum.splits)

lemma request_one_snd: 
  "snd (request_one io secret payload baseUrl s) = snd (request_try io secret payload baseUrl s)"
  by (simp add: request_one_def split: prod.splits sum.splits)

lemma all_requests_traced_posts:
  "posts (snd (snd (all_requests (traced io) secret payload urls (s, tr)))) =
     posts tr @ map (\<lambda>b. (b @ ''/api/revalidate'', ''Bearer '' @ secret, payload)) urls"
proof (induction urls arbitrary: s tr)
  case Nil
  then show ?case by simp
next
  case (Cons baseUrl rest)
  obtain r l1 s1 tr1 where one: "request_one (traced io) secret payload baseUrl (s, tr) = ((r, l1), (s1, tr1))"
    by (metis prod.exhaust)
  have "snd (request_try (traced io) secret payload baseUrl (s, tr)) = (s1, tr1)"
    using request_one_snd[of "traced io" secret payload baseUrl "(s, tr)"] one by simp
  then have "posts (snd (snd (request_try (traced io) secret payload baseUrl (s, tr)))) = posts tr1"
    by simp
  then have p1: "posts tr1 = posts tr @ [(baseUrl @ ''/api/revalidate'', ''Bearer '' @ secret, payload)]"
    using request_try_traced_posts[of io secret payload baseUrl s tr] by simp
  obtain rs l2 w2 where more: "all_requests (traced io) secret payload rest (s1, tr1) = ((rs, l2), w2)"
    by (metis prod.exhaust)
  have "posts (snd w2) = posts tr1 @ map (\<lambda>b. (b @ ''/api/revalidate'', ''Bearer '' @ secret, payload)) rest"
    using Cons.IH[of s1 tr1] more by simp
  then show ?case using one more p1 by simp
qed

lemma revalidate_returns:
  "\<exists>lines s'. revalidateCustomerApp io env payload s = (Returns lines, s')"
  by (auto simp: revalidateCustomerApp_def Let_def split: option.splits prod.splits)

lemma split_trim_Nil: "split_trim [] = []"
  by (simp add: split_trim_def trim_def)

lemma revalidate_unconfigured:
  assumes "CUSTOMER_APP_BASE_URLS env = None \<or> CUSTOMER_APP_BASE_URLS env = Some []
           \<or> REVALIDATION_SECRET env = None \<or> REVALIDATION_SECRET env = Some []
           \<or> (\<exists>u. CUSTOMER_APP_BASE_URLS env = Some u \<and> split_trim u = [])"
  shows "\<exists>line. revalidateCustomerApp io env payload w = (Returns [line], w)"
  using assms by (auto simp: revalidateCustomerApp_def Let_def split: option.splits)

lemma revalidate_configured_posts:
  assumes "CUSTOMER_APP_BASE_URLS env = Some u" "REVALIDATION_SECRET env = Some k" "k \<noteq> []"
    "split_trim u \<noteq> []"
  shows "posts (snd (snd (revalidateCustomerApp (traced io) env payload (s, tr)))) =
           posts tr @ map (\<lambda>b. (b @ ''/api/revalidate'', ''Bearer '' @ k, payload)) (split_trim u)"
proof -
  have u: "u \<noteq> []" using assms(4) split_trim_Nil by auto
  obtain rs ls w where a: "all_requests (traced io) k payload (split_trim u) (s, tr) = ((rs, ls), w)"
    by (metis prod.exhaust)
  have "snd (revalidateCustomerApp (traced io) env payload (s, tr)) = w"
    using assms u a by (simp add: revalidateCustomerApp_def Let_def)
  moreover have "posts (snd w) = posts tr @ map (\<lambda>b. (b @ ''/api/revalidate'', ''Bearer '' @ k, payload)) (split_trim u)"
    using all_requests_traced_posts[of io k payload "split_trim u" s tr] a by simp
  ultimately show ?thesis by simp
qed

subsection \<open>Claim C8: the notifier never fails its caller\<close>

text \<open>
  Claim C8.  For every payload, every configuration and every behaviour of the network,
  \<open>revalidateCustomerApp\<close> returns and does not throw.  If the list of base URLs or the
  secret is absent or empty, or the list holds no non-empty URL after trimming, it logs
  one line and returns without issuing any request.  Otherwise it posts the payload once
  to every configured target, whatever the earlier requests came back with: no outcome
  of a request stops the others or reaches the caller.
\<close>

theorem C8_revalidate_never_throws:
  fixes io :: "'s platform"
  shows "(\<exists>lines s'. revalidateCustomerApp io env payload s = (Returns lines, s'))
    \<and> ((CUSTOMER_APP_BASE_URLS env = None \<or> CUSTOMER_APP_BASE_URLS env = Some []
         \<or> REVALIDATION_SECRET env = None \<or> REVALIDATION_SECRET env = Some []
         \<or> (\<exists>u. CUSTOMER_APP_BASE_URLS env = Some u \<and> split_trim u = []))
        \<longrightarrow> (\<exists>line. revalidateCustomerApp (traced io) env payload (s, tr) = (Returns [line], (s, tr))))
    \<and> (\<forall>u k. CUSTOMER_APP_BASE_URLS env = Some u \<and> REVALIDATION_SECRET env = Some k
               \<and> k \<noteq> [] \<and> split_trim u \<noteq> []
          \<longrightarrow> posts (snd (snd (revalidateCustomerApp (traced io) env payload (s, []))))
                = map (\<lambda>b. (b @ ''/api/revalidate'', ''Bearer '' @ k, payload)) (split_trim u))"
proof (intro conjI impI allI)
  show "\<exists>lines s'. revalidateCustomerApp io env payload s = (Returns lines, s')"
    by (rule revalidate_returns)
next
  assume "CUSTOMER_APP_BASE_URLS env = None \<or> CUSTOMER_APP_BASE_URLS env = Some []
         \<or> REVALIDATION_SECRET env = None \<or> REVALIDATION_SECRET env = Some []
         \<or> (\<exists>u. CUSTOMER_APP_BASE_URLS env = Some u \<and> split_trim u = [])"
  then show "\<exists>line. revalidateCustomerApp (traced io) env payload (s, tr) = (Returns [line], (s, tr))"
    by (rule revalidate_unconfigured)
next
  fix u k
  assume a: "CUSTOMER_APP_BASE_URLS env = Some u \<and> REVALIDATION_SECRET env = Some k
               \<and> k \<noteq> [] \<and> split_trim u \<noteq> []"
  show "posts (snd (snd (revalidateCustomerApp (traced io) env payload (s, []))))
                = map (\<lambda>b. (b @ ''/api/revalidate'', ''Bearer '' @ k, payload)) (split_trim u)"
    using revalidate_configured_posts[of env u k io payload s "[]"] a by (simp add: posts_def)
qed

theorem C8_revalidate_witness:
  "revalidateCustomerApp (traced memdb_platform) env_unset payload_home (shop, []) =
     (Returns [ErrorBaseUrlsNotSet], (shop, []))
   \<and> posts (snd (snd (revalidateCustomerApp (traced memdb_platform) env_two payload_home (shop, [])))) =
       [(''https://a.example/api/revalidate'', ''Bearer s3cret'', payload_home),
        (''https://b.example/api/revalidate'', ''Bearer s3cret'', payload_home)]
   \<and> fst (revalidateCustomerApp (traced memdb_platform) env_two payload_home (shop, [])) =
       Returns [LogAttempt payload_home ''https://a.example/api/revalidate'',
                LogAttempt payload_home ''https://b.example/api/revalidate'',
                LogSuccessful ''https://a.example'' (JObj [(''revalidated'', JBool True)]),
                ErrorTriggering ''https://b.example'' ''fetch failed'',
                LogFinished]"
proof -
  have st: "split_trim ''https://a.example, https://b.example,'' = [''https://a.example'', ''https://b.example'']"
    by code_simp
  have 1: "revalidateCustomerApp (traced memdb_platform) env_unset payload_home (shop, []) =
     (Returns [ErrorBaseUrlsNotSet], (shop, []))"
    using C8_revalidate_never_throws[of memdb_platform env_unset payload_home shop "[]"]
    by (simp add: revalidateCustomerApp_def env_unset_def)
  have 2: "posts (snd (snd (revalidateCustomerApp (traced memdb_platform) env_two payload_home (shop, [])))) =
       [(''https://a.example/api/revalidate'', ''Bearer s3cret'', payload_home),
        (''https://b.example/api/revalidate'', ''Bearer s3cret'', payload_home)]"
    using C8_revalidate_never_throws[of memdb_platform env_two payload_home shop "[]"]
    by (simp add: env_two_def st)
  have 3: "fst (revalidateCustomerApp (traced memdb_platform) env_two payload_home (shop, [])) =
       Returns [LogAttempt payload_home ''https://a.example/api/revalidate'',
                LogAttempt payload_home ''https://b.example/api/revalidate'',
                LogSuccessful ''https://a.example'' (JObj [(''revalidated'', JBool True)]),
                ErrorTriggering ''https://b.example'' ''fetch failed'',
                LogFinished]"
    by (simp add: revalidateCustomerApp_def env_two_def st request_one_def request_try_def
          attempt_lines_def
          traced_def record_event_def memdb_platform_def mem_http_post_def shop_def storefront_a_def)
  show ?thesis using 1 2 3 by simp
qed

section \<open>Statements on the traced platform and on the reference database\<close>

lemma traced_insert_single:
  "insert_single (traced io) t row cols (s, tr) =
     (case insert_single io t row cols s of (r, s') \<Rightarrow> (r, (s', tr @ [InsertSingle t row cols r])))"
  by (simp add: traced_def record_event_def)

lemma traced_insert_rows:
  "insert_rows (traced io) t rows (s, tr) =
     (case insert_rows io t rows s of (r, s') \<Rightarrow> (r, (s', tr @ [InsertRows t rows r])))"
  by (simp add: traced_def record_event_def)

lemma traced_select_single:
  "select_single (traced io) t cols f (s, tr) =
     (case select_single io t cols f s of (r, s') \<Rightarrow> (r, (s', tr @ [SelectSingle t cols f r])))"
  by (simp add: traced_def record_event_def)

lemma traced_select_maybe_single:
  "select_maybe_single (traced io) t cols f (s, tr) =
     (case select_maybe_single io t cols f s of
        (r, s') \<Rightarrow> (r, (s', tr @ [SelectMaybeSingle t cols f r])))"
  by (simp add: traced_def record_event_def)

lemma traced_select_rows:
  "select_rows (traced io) t cols f (s, tr) =
     (case select_rows io t cols f s of (r, s') \<Rightarrow> (r, (s', tr @ [SelectRows t cols f r])))"
  by (simp add: traced_def record_event_def)

lemma traced_update_rows:
  "update_rows (traced io) t row f (s, tr) =
     (case update_rows io t row f s of (r, s') \<Rightarrow> (r, (s', tr @ [UpdateRows t row f r])))"
  by (simp add: traced_def record_event_def)

lemma traced_delete_rows:
  "delete_rows (traced io) t f (s, tr) =
     (case delete_rows io t f s of (r, s') \<Rightarrow> (r, (s', tr @ [DeleteRows t f r])))"
  by (simp add: traced_def record_event_def)

lemma traced_http_post_case:
  "http_post (traced io) url auth payload (s, tr) =
     (case http_post io url auth payload s of (r, s') \<Rightarrow> (r, (s', tr @ [HttpPost url auth payload r])))"
  by (simp add: traced_def record_event_def)

lemmas traced_statements =
  traced_insert_single traced_insert_rows traced_select_single traced_select_maybe_single
  traced_select_rows traced_update_rows traced_delete_rows

lemma memdb_statements:
  "insert_single memdb_platform = mem_insert_single"
  "insert_rows memdb_platform = mem_insert_rows"
  "select_single memdb_platform = mem_select_single"
  "select_maybe_single memdb_platform = mem_select_maybe_single"
  "select_rows memdb_platform = mem_select_rows"
  "update_rows memdb_platform = mem_update_rows"
  "delete_rows memdb_platform = mem_delete_rows"
  "http_post memdb_platform = mem_http_post"
  by (simp_all add: memdb_platform_def)

lemma field_set_field: "field (set_field k v ob) k' = (if k' = k then v else field ob k')"
  by (simp add: field_def set_field_def update_conv' delete_conv' split: option.splits)

lemma dataToInsert_slug: "field (dataToInsert p slug) ''slug'' = JStr slug"
  by (simp add: dataToInsert_def set_fields_def Let_def field_set_field)

lemma dataToUpdate_slug: "field (dataToUpdate core kws now) ''slug'' = field core ''slug''"
  by (simp add: dataToUpdate_def set_fields_def field_set_field)

lemma coreUpdateData_slug:
  "field (coreUpdateData slugify p) ''slug'' =
     (case u_newSlug slugify p of
        None \<Rightarrow> field (u_rest p) ''slug''
      | Some newSlug \<Rightarrow> JStr newSlug)"
  by (simp add: coreUpdateData_def u_newSlug_def Let_def field_set_field split: option.splits)

section \<open>Statements that leave the reference database as it is\<close>

lemma mem_select_single_snd: "snd (mem_select_single t cols f db) = db"
  by (simp add: mem_select_single_def split: list.splits)

lemma mem_select_maybe_single_snd: "snd (mem_select_maybe_single t cols f db) = db"
  by (simp add: mem_select_maybe_single_def split: list.splits)

lemma mem_select_rows_snd: "snd (mem_select_rows t cols f db) = db"
  by (simp add: mem_select_rows_def)

lemma getProductRelatedPaths_memdb_snd: "snd (getProductRelatedPaths memdb_platform pid db) = db"
proof -
  obtain r db' where sel: "mem_select_single ''products'' ''categories ( slug ), brands ( slug )''
      (Eq ''products_id'' pid) db = (r, db')"
    by (metis prod.exhaust)
  then have "db' = db"
    using mem_select_single_snd[of "''products''" "''categories ( slug ), brands ( slug )''"
        "Eq ''products_id'' pid" db]
    by simp
  then show ?thesis
    using sel by (simp add: getProductRelatedPaths_def memdb_statements Let_def split: response.splits)
qed

lemma request_try_memdb_snd: "snd (request_try memdb_platform secret payload baseUrl db) = db"
  by (simp add: request_try_def memdb_statements mem_http_post_def
           split: fetch_result.splits sum.splits)

lemma all_requests_memdb_snd: "snd (all_requests memdb_platform secret payload urls db) = db"
proof (induction urls)
  case Nil
  then show ?case by simp
next
  case (Cons baseUrl rest)
  have "snd (request_one memdb_platform secret payload baseUrl db) = db"
    by (simp add: request_one_snd request_try_memdb_snd)
  then obtain r l where one: "request_one memdb_platform secret payload baseUrl db = ((r, l), db)"
    by (metis prod.collapse)
  show ?case using one Cons.IH by (auto split: prod.splits)
qed

lemma revalidate_memdb_snd: "snd (revalidateCustomerApp memdb_platform env payload db) = db"
proof -
  have "\<And>k us. snd (case all_requests memdb_platform k payload us db of
                       ((results, lines), s') \<Rightarrow>
                          (Returns (attempt_lines payload us @ lines @ rejected_lines results
                                    @ [LogFinished]), s')) = db"
    using all_requests_memdb_snd by (simp split: prod.splits) (metis snd_conv)
  then show ?thesis
    by (simp add: revalidateCustomerApp_def Let_def split: option.splits)
qed

lemma mem_update_rows_failure:
  "fst (mem_update_rows t row f db) = Failure e \<Longrightarrow> snd (mem_update_rows t row f db) = db"
  by (auto simp: mem_update_rows_def Let_def split: if_splits)

section \<open>The image rows of a product\<close>

lemma imagesToInsert_length: "length (imagesToInsert pid urls) = length urls"
  by (simp add: imagesToInsert_def)

lemma imagesToInsert_nth:
  "i < length urls \<Longrightarrow>
   imagesToInsert pid urls ! i =
     [(''product_id'', pid), (''url'', JStr (urls ! i)),
      (''is_primary'', JBool (i = 0)), (''sort_order'', JNum (of_nat i))]"
  by (simp add: imagesToInsert_def nth_enumerate_eq)

lemma imagesToInsert_Nil: "(imagesToInsert pid urls = []) = (urls = [])"
  by (cases urls) (simp_all add: imagesToInsert_def)

lemma imagesToInsert_match:
  "pid \<noteq> JNull \<Longrightarrow> pid \<noteq> JUndefined \<Longrightarrow>
   filter (matches (Eq ''product_id'' pid)) (imagesToInsert pid urls) = imagesToInsert pid urls"
  by (rule filter_True) (auto simp: imagesToInsert_def field_def)

subsection \<open>On the reference database\<close>

lemma put_table_tables: "tables (put_table t rows db) t' = (if t' = t then rows else tables db t')"
  by (simp add: put_table_def)

lemma mem_insert_rows_child:
  "t \<noteq> ''products'' \<Longrightarrow>
   mem_insert_rows t rows db = (Success (), put_table t (tables db t @ rows) db)"
  by (simp add: mem_insert_rows_def)

lemma insert_child_memdb_tables:
  assumes "t \<noteq> ''products''"
  shows "tables (snd (insert_child memdb_platform t label rows (errs, db))) t' =
           (if t' = t then tables db t @ rows else tables db t')"
  using assms
  by (simp add: insert_child_def memdb_statements mem_insert_rows_child put_table_tables)

lemma insert_child_memdb_tables':
  assumes "t \<noteq> ''products''"
  shows "tables (snd (insert_child memdb_platform t label rows acc)) t' =
           (if t' = t then tables (snd acc) t @ rows else tables (snd acc) t')"
  using insert_child_memdb_tables[OF assms, of label rows "fst acc" "snd acc" t'] by simp

lemma mem_insert_single_variant_tables:
  "t' \<noteq> ''product_variants'' \<Longrightarrow>
   tables (snd (mem_insert_single ''product_variants'' row cols db)) t' = tables db t'"
  by (simp add: mem_insert_single_def Let_def put_table_tables put_table_def)

lemma mem_insert_single_variant_ok:
  "\<exists>r. fst (mem_insert_single ''product_variants'' row cols db) = Success (Some r)"
  by (simp add: mem_insert_single_def Let_def)

lemma insert_variant_memdb_images:
  "tables (snd (insert_variant memdb_platform drop_id pid v acc)) ''product_images'' =
     tables (snd acc) ''product_images''"
proof -
  obtain errs db where acc: "acc = (errs, db)" by (cases acc)
  obtain r where r: "fst (mem_insert_single ''product_variants'' (variantInsertData drop_id pid v) ''id'' db)
      = Success (Some r)"
    using mem_insert_single_variant_ok by blast
  define db1 where "db1 = snd (mem_insert_single ''product_variants'' (variantInsertData drop_id pid v) ''id'' db)"
  have ins: "mem_insert_single ''product_variants'' (variantInsertData drop_id pid v) ''id'' db
      = (Success (Some r), db1)"
    using r by (simp add: db1_def prod_eq_iff)
  have 1: "tables db1 ''product_images'' = tables db ''product_images''"
    unfolding db1_def by (simp add: mem_insert_single_variant_tables)
  show ?thesis
    unfolding acc
    by (simp add: insert_variant_def memdb_statements ins Let_def insert_child_memdb_tables' 1)
qed

lemma fold_insert_variant_memdb_images:
  "tables (snd (fold (insert_variant memdb_platform drop_id pid) vs acc)) ''product_images'' =
     tables (snd acc) ''product_images''"
  by (induction vs arbitrary: acc) (simp_all add: insert_variant_memdb_images)

lemma insert_related_memdb_images:
  "tables (snd (insert_related memdb_platform drop_id pid d acc)) ''product_images'' =
     tables (snd acc) ''product_images'' @ imagesToInsert pid (images d)"
  by (simp add: insert_related_def Let_def fold_insert_variant_memdb_images
        insert_child_memdb_tables')

lemma mem_delete_rows_child:
  "t \<noteq> ''categories'' \<Longrightarrow> t \<noteq> ''brands'' \<Longrightarrow>
   mem_delete_rows t f db =
     (Fulfilled (Success ()), put_table t (filter (\<lambda>r. \<not> matches f r) (tables db t)) db)"
  by (simp add: mem_delete_rows_def referenced_def list_ex_iff)

lemma fetch_variant_ids_memdb_snd: "snd (fetch_variant_ids memdb_platform pid db) = db"
  by (simp add: fetch_variant_ids_def memdb_statements mem_select_rows_def)

lemma allSettled_deletes_memdb_images:
  "tables (snd (allSettled_deletes memdb_platform (deletePromises pid ids) db)) ''product_images'' =
     filter (\<lambda>r. \<not> matches (Eq ''product_id'' pid) r) (tables db ''product_images'')"
  by (simp add: deletePromises_def memdb_statements mem_delete_rows_child put_table_tables
           split: prod.splits)

lemma delete_phase_memdb_images:
  "tables (snd (delete_phase memdb_platform pid db)) ''product_images'' =
     filter (\<lambda>r. \<not> matches (Eq ''product_id'' pid) r) (tables db ''product_images'')"
proof -
  obtain fe ids where f: "fetch_variant_ids memdb_platform pid db = ((fe, ids), db)"
    using fetch_variant_ids_memdb_snd[of pid db] by (metis prod.collapse)
  obtain rs db2 where a: "allSettled_deletes memdb_platform (deletePromises pid ids) db = (rs, db2)"
    by (metis prod.exhaust)
  have i2: "tables db2 ''product_images'' =
     filter (\<lambda>r. \<not> matches (Eq ''product_id'' pid) r) (tables db ''product_images'')"
    using allSettled_deletes_memdb_images[of pid ids db] a by simp
  show ?thesis
    by (simp add: delete_phase_def f a Let_def memdb_statements mem_delete_rows_child
          put_table_tables i2)
qed

lemma delete_phase_memdb_returns: "\<exists>errs. fst (delete_phase memdb_platform pid db) = Inr errs"
proof -
  obtain fe ids where f: "fetch_variant_ids memdb_platform pid db = ((fe, ids), db)"
    using fetch_variant_ids_memdb_snd[of pid db] by (metis prod.collapse)
  obtain rs db2 where a: "allSettled_deletes memdb_platform (deletePromises pid ids) db = (rs, db2)"
    by (metis prod.exhaust)
  show ?thesis
    by (simp add: delete_phase_def f a Let_def memdb_statements mem_delete_rows_child)
qed

lemma mem_update_rows_products_images:
  "tables (snd (mem_update_rows ''products'' row f db)) ''product_images'' = tables db ''product_images''"
  by (simp add: mem_update_rows_def Let_def put_table_tables)

section \<open>The trace of the related-data phase\<close>

lemma variant_outcomes_append [simp]:
  "variant_outcomes (xs @ ys) = variant_outcomes xs @ variant_outcomes ys"
  by (simp add: variant_outcomes_def)

lemma rows_inserted_append [simp]:
  "rows_inserted t (xs @ ys) = rows_inserted t xs @ rows_inserted t ys"
  by (simp add: rows_inserted_def)

lemma variant_outcomes_Nil [simp]: "variant_outcomes [] = []"
  by (simp add: variant_outcomes_def)

lemma rows_inserted_Nil [simp]: "rows_inserted t [] = []"
  by (simp add: rows_inserted_def)

lemma not_insert_quiet:
  assumes "\<not> is_insert e"
  shows "\<not> insert_failed e" "variant_outcome e = []" "rows_inserted_by t e = []"
  using assms by (cases e; simp)+

lemma quiet_events:
  assumes "list_all (\<lambda>e. \<not> is_insert e) evs"
  shows "filter is_insert evs = []" "filter insert_failed evs = []" "variant_outcomes evs = []"
    "rows_inserted t evs = []"
  using assms
  by (induction evs) (auto simp: variant_outcomes_def rows_inserted_def not_insert_quiet)

text \<open>One child collection.\<close>

lemma insert_child_traced:
  "\<exists>errs' s' evs.
     insert_child (traced io) t label rows (errs, (s, tr)) = (errs @ errs', (s', tr @ evs))
     \<and> map statement evs = (if rows = [] then [] else [''insert '' @ t])
     \<and> list_all is_insert evs
     \<and> length errs' = length (filter insert_failed evs)
     \<and> (t \<noteq> ''product_variants'' \<longrightarrow> variant_outcomes evs = [])
     \<and> rows_inserted t' evs = (if t' = t \<and> rows \<noteq> [] then [rows] else [])"
proof (cases "rows = []")
  case True
  then have "insert_child (traced io) t label rows (errs, (s, tr)) = (errs @ [], (s, tr @ []))"
    by (simp add: insert_child_def)
  then show ?thesis using True by (intro exI[of _ "[]"] exI[of _ s]) simp
next
  case False
  obtain r s' where ins: "insert_rows io t rows s = (r, s')" by (cases "insert_rows io t rows s")
  show ?thesis
  proof (cases r)
    case (Success u)
    have "insert_child (traced io) t label rows (errs, (s, tr)) =
            (errs @ [], (s', tr @ [InsertRows t rows r]))"
      using False ins Success by (simp add: insert_child_def traced_insert_rows)
    then show ?thesis
      using False Success
      by (intro exI[of _ "[]"] exI[of _ s'] exI[of _ "[InsertRows t rows r]"])
         (simp add: variant_outcomes_def rows_inserted_def)
  next
    case (Failure e)
    have "insert_child (traced io) t label rows (errs, (s, tr)) =
            (errs @ [label @ '': '' @ err_message e], (s', tr @ [InsertRows t rows r]))"
      using False ins Failure by (simp add: insert_child_def traced_insert_rows)
    then show ?thesis
      using False Failure
      by (intro exI[of _ "[label @ '': '' @ err_message e]"] exI[of _ s']
            exI[of _ "[InsertRows t rows r]"])
         (simp add: variant_outcomes_def rows_inserted_def)
  qed
qed

text \<open>One variant with its nested rows.\<close>

lemma attributesToInsert_Nil:
  "(attributesToInsert vid as = []) =
     (\<not> list_ex (\<lambda>a. attribute_name a \<noteq> [] \<and> attribute_value a \<noteq> []) as)"
  by (auto simp: attributesToInsert_def filter_empty_conv list_ex_iff)

lemma variantFeaturesToInsert_Nil:
  "(variantFeaturesToInsert vid fs = []) = (\<not> list_ex (\<lambda>f. feature_text f \<noteq> []) fs)"
  by (auto simp: variantFeaturesToInsert_def filter_empty_conv list_ex_iff)

lemma insert_variant_traced:
  "\<exists>errs' s' evs inserted.
     insert_variant (traced io) drop_id pid v (errs, (s, tr)) = (errs @ errs', (s', tr @ evs))
     \<and> map statement evs = expected_variant_inserts v inserted
     \<and> variant_outcomes evs = [inserted]
     \<and> list_all is_insert evs
     \<and> length errs' = length (filter insert_failed evs)
     \<and> rows_inserted ''product_images'' evs = []"
  (is ?G)
proof -
  let ?row = "variantInsertData drop_id pid v"
  obtain r s1 where ins: "insert_single io ''product_variants'' ?row ''id'' s = (r, s1)"
    by (cases "insert_single io ''product_variants'' ?row ''id'' s")
  let ?e0 = "InsertSingle ''product_variants'' ?row ''id'' r"
  have failed:
    "\<And>msg. insert_variant (traced io) drop_id pid v (errs, (s, tr)) = (errs @ [msg], (s1, tr @ [?e0]))
       \<Longrightarrow> insert_failed ?e0 \<Longrightarrow> variant_outcome ?e0 = [False] \<Longrightarrow> ?G"
  proof -
    fix msg
    assume a: "insert_variant (traced io) drop_id pid v (errs, (s, tr)) = (errs @ [msg], (s1, tr @ [?e0]))"
      and b: "insert_failed ?e0" and c: "variant_outcome ?e0 = [False]"
    show ?G
      using a b c
      by (intro exI[of _ "[msg]"] exI[of _ s1] exI[of _ "[?e0]"] exI[of _ False])
         (simp add: expected_variant_inserts_def variant_outcomes_def rows_inserted_def)
  qed
  show ?thesis
  proof (cases r)
    case (Failure e)
    show ?thesis
      by (rule failed) (simp_all add: insert_variant_def traced_insert_single ins Failure)
  next
    case (Success data)
    show ?thesis
    proof (cases data)
      case None
      show ?thesis
        by (rule failed) (simp_all add: insert_variant_def traced_insert_single ins Success None)
    next
      case (Some newVariant)
      let ?vid = "field newVariant ''id''"
      let ?as = "attributesToInsert ?vid (attributes v)"
      let ?fs = "variantFeaturesToInsert ?vid (variant_features v)"
      obtain e1 sb v1 where 1:
        "insert_child (traced io) ''variant_attributes''
            (''Variant Attributes ('' @ variant_name v @ '')'') ?as (errs, (s1, tr @ [?e0])) =
          (errs @ e1, (sb, (tr @ [?e0]) @ v1))"
        "map statement v1 = (if ?as = [] then [] else [''insert '' @ ''variant_attributes''])"
        "list_all is_insert v1" "length e1 = length (filter insert_failed v1)"
        "variant_outcomes v1 = []" "rows_inserted ''product_images'' v1 = []"
        using insert_child_traced[of io "''variant_attributes''"
            "''Variant Attributes ('' @ variant_name v @ '')''" ?as errs s1 "tr @ [?e0]"
            "''product_images''"]
        by auto
      obtain e2 sc v2 where 2:
        "insert_child (traced io) ''variant_features''
            (''Variant Features ('' @ variant_name v @ '')'') ?fs (errs @ e1, (sb, (tr @ [?e0]) @ v1)) =
          ((errs @ e1) @ e2, (sc, ((tr @ [?e0]) @ v1) @ v2))"
        "map statement v2 = (if ?fs = [] then [] else [''insert '' @ ''variant_features''])"
        "list_all is_insert v2" "length e2 = length (filter insert_failed v2)"
        "variant_outcomes v2 = []" "rows_inserted ''product_images'' v2 = []"
        using insert_child_traced[of io "''variant_features''"
            "''Variant Features ('' @ variant_name v @ '')''" ?fs "errs @ e1" sb
            "(tr @ [?e0]) @ v1" "''product_images''"]
        by auto
      have run: "insert_variant (traced io) drop_id pid v (errs, (s, tr)) =
                   (errs @ (e1 @ e2), (sc, tr @ (?e0 # v1 @ v2)))"
        using 1(1) 2(1)
        by (simp add: insert_variant_def traced_insert_single ins Success Some Let_def)
      have st: "map statement (?e0 # v1 @ v2) = expected_variant_inserts v True"
        using 1(2) 2(2)
        by (simp add: expected_variant_inserts_def attributesToInsert_Nil
              variantFeaturesToInsert_Nil)
      have vo: "variant_outcomes (?e0 # v1 @ v2) = [True]"
        using 1(5) 2(5) by (simp add: variant_outcomes_def Success Some)
      have fl: "length (e1 @ e2) = length (filter insert_failed (?e0 # v1 @ v2))"
        using 1(4) 2(4) by (simp add: Success Some)
      have ri: "rows_inserted ''product_images'' (?e0 # v1 @ v2) = []"
        using 1(6) 2(6) by (simp add: rows_inserted_def)
      show ?thesis
        using run st vo fl ri 1(3) 2(3)
        by (intro exI[of _ "e1 @ e2"] exI[of _ sc] exI[of _ "?e0 # v1 @ v2"] exI[of _ True]) simp
    qed
  qed
qed

text \<open>The loop over the variants.\<close>

lemma fold_insert_variant_traced:
  "\<exists>errs' s' evs inserted.
     fold (insert_variant (traced io) drop_id pid) vs (errs, (s, tr)) = (errs @ errs', (s', tr @ evs))
     \<and> length inserted = length vs
     \<and> variant_outcomes evs = inserted
     \<and> map statement evs = concat (map (\<lambda>(v, ok). expected_variant_inserts v ok) (zip vs inserted))
     \<and> list_all is_insert evs
     \<and> length errs' = length (filter insert_failed evs)
     \<and> rows_inserted ''product_images'' evs = []"
proof (induction vs arbitrary: errs s tr)
  case Nil
  show ?case
    by (intro exI[of _ "[]"] exI[of _ s]) simp
next
  case (Cons v vs)
  obtain e1 sa v1 ok where 1:
    "insert_variant (traced io) drop_id pid v (errs, (s, tr)) = (errs @ e1, (sa, tr @ v1))"
    "map statement v1 = expected_variant_inserts v ok" "variant_outcomes v1 = [ok]"
    "list_all is_insert v1" "length e1 = length (filter insert_failed v1)"
    "rows_inserted ''product_images'' v1 = []"
    using insert_variant_traced[of io drop_id pid v errs s tr] by auto
  obtain e2 sb v2 oks where 2:
    "fold (insert_variant (traced io) drop_id pid) vs (errs @ e1, (sa, tr @ v1)) =
       ((errs @ e1) @ e2, (sb, (tr @ v1) @ v2))"
    "length oks = length vs" "variant_outcomes v2 = oks"
    "map statement v2 = concat (map (\<lambda>(v, ok). expected_variant_inserts v ok) (zip vs oks))"
    "list_all is_insert v2" "length e2 = length (filter insert_failed v2)"
    "rows_inserted ''product_images'' v2 = []"
    using Cons.IH[of "errs @ e1" sa "tr @ v1"] by auto
  have run: "fold (insert_variant (traced io) drop_id pid) (v # vs) (errs, (s, tr)) =
               (errs @ (e1 @ e2), (sb, tr @ (v1 @ v2)))"
    using 1(1) 2(1) by simp
  show ?case
    using run 1 2
    by (intro exI[of _ "e1 @ e2"] exI[of _ sb] exI[of _ "v1 @ v2"] exI[of _ "ok # oks"]) simp
qed

text \<open>The whole phase.\<close>

lemma insert_related_traced:
  "\<exists>errs' s' evs inserted.
     insert_related (traced io) drop_id pid d (errs, (s, tr)) = (errs @ errs', (s', tr @ evs))
     \<and> length inserted = length (variants d)
     \<and> variant_outcomes evs = inserted
     \<and> map statement evs = expected_child_inserts d inserted
     \<and> list_all is_insert evs
     \<and> length errs' = length (filter insert_failed evs)
     \<and> rows_inserted ''product_images'' evs =
         (if images d = [] then [] else [imagesToInsert pid (images d)])"
proof -
  let ?img = "''product_images''"
  obtain e1 s1 v1 where 1:
    "insert_child (traced io) ''product_images'' ''Images'' (imagesToInsert pid (images d))
       (errs, (s, tr)) = (errs @ e1, (s1, tr @ v1))"
    "map statement v1 = (if images d = [] then [] else [''insert product_images''])"
    "list_all is_insert v1" "length e1 = length (filter insert_failed v1)"
    "variant_outcomes v1 = []"
    "rows_inserted ?img v1 = (if images d = [] then [] else [imagesToInsert pid (images d)])"
    using insert_child_traced[of io "''product_images''" "''Images''"
        "imagesToInsert pid (images d)" errs s tr ?img]
    by (auto simp: imagesToInsert_Nil)
  obtain e2 s2 v2 where 2:
    "insert_child (traced io) ''product_features'' ''Features'' (featuresToInsert pid (features d))
       (errs @ e1, (s1, tr @ v1)) = ((errs @ e1) @ e2, (s2, (tr @ v1) @ v2))"
    "map statement v2 = (if features d = [] then [] else [''insert product_features''])"
    "list_all is_insert v2" "length e2 = length (filter insert_failed v2)"
    "variant_outcomes v2 = []" "rows_inserted ?img v2 = []"
    using insert_child_traced[of io "''product_features''" "''Features''"
        "featuresToInsert pid (features d)" "errs @ e1" s1 "tr @ v1" ?img]
    by (auto simp: featuresToInsert_def)
  obtain e3 s3 v3 where 3:
    "insert_child (traced io) ''product_tags'' ''Tags'' (tagsToInsert pid (tags d))
       ((errs @ e1) @ e2, (s2, (tr @ v1) @ v2)) =
       (((errs @ e1) @ e2) @ e3, (s3, ((tr @ v1) @ v2) @ v3))"
    "map statement v3 = (if tags d = [] then [] else [''insert product_tags''])"
    "list_all is_insert v3" "length e3 = length (filter insert_failed v3)"
    "variant_outcomes v3 = []" "rows_inserted ?img v3 = []"
    using insert_child_traced[of io "''product_tags''" "''Tags''"
        "tagsToInsert pid (tags d)" "(errs @ e1) @ e2" s2 "(tr @ v1) @ v2" ?img]
    by (auto simp: tagsToInsert_def)
  obtain e4 s4 v4 where 4:
    "insert_child (traced io) ''product_faqs'' ''FAQs'' (faqsToInsert pid (faqs d))
       (((errs @ e1) @ e2) @ e3, (s3, ((tr @ v1) @ v2) @ v3)) =
       ((((errs @ e1) @ e2) @ e3) @ e4, (s4, (((tr @ v1) @ v2) @ v3) @ v4))"
    "map statement v4 = (if faqs d = [] then [] else [''insert product_faqs''])"
    "list_all is_insert v4" "length e4 = length (filter insert_failed v4)"
    "variant_outcomes v4 = []" "rows_inserted ?img v4 = []"
    using insert_child_traced[of io "''product_faqs''" "''FAQs''"
        "faqsToInsert pid (faqs d)" "((errs @ e1) @ e2) @ e3" s3 "((tr @ v1) @ v2) @ v3" ?img]
    by (auto simp: faqsToInsert_def)
  obtain e5 s5 v5 where 5:
    "insert_child (traced io) ''product_testimonial_videos'' ''Testimonial Videos''
       (videosToInsert pid (testimonial_videos d))
       ((((errs @ e1) @ e2) @ e3) @ e4, (s4, (((tr @ v1) @ v2) @ v3) @ v4)) =
       (((((errs @ e1) @ e2) @ e3) @ e4) @ e5, (s5, ((((tr @ v1) @ v2) @ v3) @ v4) @ v5))"
    "map statement v5 =
       (if testimonial_videos d = [] then [] else [''insert product_testimonial_videos''])"
    "list_all is_insert v5" "length e5 = length (filter insert_failed v5)"
    "variant_outcomes v5 = []" "rows_inserted ?img v5 = []"
    using insert_child_traced[of io "''product_testimonial_videos''" "''Testimonial Videos''"
        "videosToInsert pid (testimonial_videos d)" "(((errs @ e1) @ e2) @ e3) @ e4" s4
        "(((tr @ v1) @ v2) @ v3) @ v4" ?img]
    by (auto simp: videosToInsert_def)
  obtain e6 s6 v6 where 6:
    "insert_child (traced io) ''customer_testimonials'' ''Customer Testimonials''
       (testimonialsToInsert pid (customer_testimonials d))
       (((((errs @ e1) @ e2) @ e3) @ e4) @ e5, (s5, ((((tr @ v1) @ v2) @ v3) @ v4) @ v5)) =
       ((((((errs @ e1) @ e2) @ e3) @ e4) @ e5) @ e6,
        (s6, (((((tr @ v1) @ v2) @ v3) @ v4) @ v5) @ v6))"
    "map statement v6 =
       (if customer_testimonials d = [] then [] else [''insert customer_testimonials''])"
    "list_all is_insert v6" "length e6 = length (filter insert_failed v6)"
    "variant_outcomes v6 = []" "rows_inserted ?img v6 = []"
    using insert_child_traced[of io "''customer_testimonials''" "''Customer Testimonials''"
        "testimonialsToInsert pid (customer_testimonials d)"
        "((((errs @ e1) @ e2) @ e3) @ e4) @ e5" s5 "((((tr @ v1) @ v2) @ v3) @ v4) @ v5" ?img]
    by (auto simp: testimonialsToInsert_def)
  obtain e7 s7 v7 oks where 7:
    "fold (insert_variant (traced io) drop_id pid) (variants d)
       ((((((errs @ e1) @ e2) @ e3) @ e4) @ e5) @ e6,
        (s6, (((((tr @ v1) @ v2) @ v3) @ v4) @ v5) @ v6)) =
       (((((((errs @ e1) @ e2) @ e3) @ e4) @ e5) @ e6) @ e7,
        (s7, ((((((tr @ v1) @ v2) @ v3) @ v4) @ v5) @ v6) @ v7))"
    "length oks = length (variants d)" "variant_outcomes v7 = oks"
    "map statement v7 =
       concat (map (\<lambda>(v, ok). expected_variant_inserts v ok) (zip (variants d) oks))"
    "list_all is_insert v7" "length e7 = length (filter insert_failed v7)"
    "rows_inserted ?img v7 = []"
    using fold_insert_variant_traced[of io drop_id pid "variants d"
        "(((((errs @ e1) @ e2) @ e3) @ e4) @ e5) @ e6" s6
        "(((((tr @ v1) @ v2) @ v3) @ v4) @ v5) @ v6"]
    by blast
  have run: "insert_related (traced io) drop_id pid d (errs, (s, tr)) =
               (errs @ (e1 @ e2 @ e3 @ e4 @ e5 @ e6 @ e7),
                (s7, tr @ (v1 @ v2 @ v3 @ v4 @ v5 @ v6 @ v7)))"
    unfolding insert_related_def Let_def 1(1) 2(1) 3(1) 4(1) 5(1) 6(1) 7(1) by simp
  have st: "map statement (v1 @ v2 @ v3 @ v4 @ v5 @ v6 @ v7) = expected_child_inserts d oks"
    by (simp add: expected_child_inserts_def 1(2) 2(2) 3(2) 4(2) 5(2) 6(2) 7(4))
  have vo: "variant_outcomes (v1 @ v2 @ v3 @ v4 @ v5 @ v6 @ v7) = oks"
    by (simp add: 1(5) 2(5) 3(5) 4(5) 5(5) 6(5) 7(3))
  have al: "list_all is_insert (v1 @ v2 @ v3 @ v4 @ v5 @ v6 @ v7)"
    by (simp add: 1(3) 2(3) 3(3) 4(3) 5(3) 6(3) 7(5))
  have fl: "length (e1 @ e2 @ e3 @ e4 @ e5 @ e6 @ e7) =
              length (filter insert_failed (v1 @ v2 @ v3 @ v4 @ v5 @ v6 @ v7))"
    by (simp add: 1(4) 2(4) 3(4) 4(4) 5(4) 6(4) 7(6))
  have ri: "rows_inserted ?img (v1 @ v2 @ v3 @ v4 @ v5 @ v6 @ v7) =
              (if images d = [] then [] else [imagesToInsert pid (images d)])"
    by (simp add: 1(6) 2(6) 3(6) 4(6) 5(6) 6(6) 7(7))
  show ?thesis
    using run st vo al fl ri 7(2)
    by (intro exI[of _ "e1 @ e2 @ e3 @ e4 @ e5 @ e6 @ e7"] exI[of _ s7]
          exI[of _ "v1 @ v2 @ v3 @ v4 @ v5 @ v6 @ v7"] exI[of _ oks]) simp
qed

text \<open>Phases that issue no insert.\<close>

lemma getProductRelatedPaths_traced:
  "\<exists>r s' e. getProductRelatedPaths (traced io) pid (s, tr) = (r, (s', tr @ [e])) \<and> \<not> is_insert e"
proof -
  obtain r s' where sel: "select_single io ''products'' ''categories ( slug ), brands ( slug )''
                            (Eq ''products_id'' pid) s = (r, s')"
    by (cases "select_single io ''products'' ''categories ( slug ), brands ( slug )''
                 (Eq ''products_id'' pid) s")
  show ?thesis
    by (cases r) (simp_all add: getProductRelatedPaths_def traced_select_single sel Let_def)
qed

lemma all_requests_traced_quiet:
  "\<exists>r s' evs. all_requests (traced io) secret payload urls (s, tr) = (r, (s', tr @ evs))
     \<and> list_all (\<lambda>e. \<not> is_insert e) evs"
proof (induction urls arbitrary: s tr)
  case Nil
  show ?case by (intro exI[of _ "([], [])"] exI[of _ s] exI[of _ "[]"]) simp
next
  case (Cons baseUrl rest)
  define f where "f = fst (http_post io (baseUrl @ ''/api/revalidate'') (''Bearer '' @ secret) payload s)"
  define s1 where "s1 = snd (http_post io (baseUrl @ ''/api/revalidate'') (''Bearer '' @ secret) payload s)"
  let ?e = "HttpPost (baseUrl @ ''/api/revalidate'') (''Bearer '' @ secret) payload f"
  have "snd (request_try (traced io) secret payload baseUrl (s, tr)) = (s1, tr @ [?e])"
    unfolding f_def s1_def
    by (simp add: request_try_def traced_http_post split: prod.splits fetch_result.splits sum.splits)
  then have "snd (request_one (traced io) secret payload baseUrl (s, tr)) = (s1, tr @ [?e])"
    by (simp add: request_one_snd)
  then obtain rr l1 where one:
    "request_one (traced io) secret payload baseUrl (s, tr) = ((rr, l1), (s1, tr @ [?e]))"
    by (metis prod.collapse)
  obtain rs l2 s2 evs where more:
    "all_requests (traced io) secret payload rest (s1, tr @ [?e]) = ((rs, l2), (s2, (tr @ [?e]) @ evs))"
    "list_all (\<lambda>e. \<not> is_insert e) evs"
    using Cons.IH[of s1 "tr @ [?e]"] by (metis prod.exhaust)
  have "all_requests (traced io) secret payload (baseUrl # rest) (s, tr) =
          ((rr # rs, l1 @ l2), (s2, tr @ (?e # evs)))"
    using one more(1) by simp
  then show ?case
    using more(2)
    by (intro exI[of _ "(rr # rs, l1 @ l2)"] exI[of _ s2] exI[of _ "?e # evs"]) simp
qed

lemma revalidate_traced_quiet:
  "\<exists>lines s' evs. revalidateCustomerApp (traced io) env payload (s, tr) = (Returns lines, (s', tr @ evs))
     \<and> list_all (\<lambda>e. \<not> is_insert e) evs"
proof -
  have idle: "\<And>line. revalidateCustomerApp (traced io) env payload (s, tr) = (Returns [line], (s, tr))
                \<Longrightarrow> ?thesis"
    by (intro exI[of _ _] exI[of _ s] exI[of _ "[]"]) simp
  show ?thesis
  proof (cases "\<exists>u k. CUSTOMER_APP_BASE_URLS env = Some u \<and> REVALIDATION_SECRET env = Some k
                  \<and> k \<noteq> [] \<and> split_trim u \<noteq> []")
    case False
    then have "CUSTOMER_APP_BASE_URLS env = None \<or> CUSTOMER_APP_BASE_URLS env = Some []
           \<or> REVALIDATION_SECRET env = None \<or> REVALIDATION_SECRET env = Some []
           \<or> (\<exists>u. CUSTOMER_APP_BASE_URLS env = Some u \<and> split_trim u = [])"
      by (cases "CUSTOMER_APP_BASE_URLS env"; cases "REVALIDATION_SECRET env") auto
    then obtain line where
      "revalidateCustomerApp (traced io) env payload (s, tr) = (Returns [line], (s, tr))"
      using revalidate_unconfigured[of env "traced io" payload "(s, tr)"] by blast
    then show ?thesis by (rule idle)
  next
    case True
    then obtain u k where c: "CUSTOMER_APP_BASE_URLS env = Some u" "REVALIDATION_SECRET env = Some k"
      "k \<noteq> []" "split_trim u \<noteq> []" by blast
    have u: "u \<noteq> []" using c(4) split_trim_Nil by auto
    obtain rs ls s' evs where a:
      "all_requests (traced io) k payload (split_trim u) (s, tr) = ((rs, ls), (s', tr @ evs))"
      "list_all (\<lambda>e. \<not> is_insert e) evs"
      using all_requests_traced_quiet[of io k payload "split_trim u" s tr] by (metis prod.exhaust)
    show ?thesis
      using c u a by (simp add: revalidateCustomerApp_def Let_def)
  qed
qed

section \<open>Runs of the update route\<close>

lemma allSettled_deletes_traced_quiet:
  "\<exists>rs s' evs. allSettled_deletes (traced io) targets (s, tr) = (rs, (s', tr @ evs))
     \<and> list_all (\<lambda>e. \<not> is_insert e) evs"
proof (induction targets arbitrary: s tr)
  case Nil
  show ?case by (intro exI[of _ "[]"] exI[of _ s] exI[of _ "[]"]) simp
next
  case (Cons tf rest)
  obtain t f where tf: "tf = (t, f)" by (cases tf)
  obtain r s1 where d: "delete_rows io t f s = (r, s1)" by (cases "delete_rows io t f s")
  obtain rs s2 evs where more:
    "allSettled_deletes (traced io) rest (s1, tr @ [DeleteRows t f r]) =
       (rs, (s2, (tr @ [DeleteRows t f r]) @ evs))"
    "list_all (\<lambda>e. \<not> is_insert e) evs"
    using Cons.IH[of s1 "tr @ [DeleteRows t f r]"] by blast
  have "allSettled_deletes (traced io) (tf # rest) (s, tr) =
          (r # rs, (s2, tr @ (DeleteRows t f r # evs)))"
    using d more(1) by (simp add: tf traced_delete_rows)
  then show ?case
    using more(2)
    by (intro exI[of _ "r # rs"] exI[of _ s2] exI[of _ "DeleteRows t f r # evs"]) simp
qed

lemma fetch_variant_ids_traced_quiet:
  "\<exists>r s' e. fetch_variant_ids (traced io) pid (s, tr) = (r, (s', tr @ [e])) \<and> \<not> is_insert e"
proof -
  obtain r s' where sel: "select_rows io ''product_variants'' ''id'' (Eq ''product_id'' pid) s = (r, s')"
    by (cases "select_rows io ''product_variants'' ''id'' (Eq ''product_id'' pid) s")
  show ?thesis
    by (cases r)
       (auto simp: fetch_variant_ids_def traced_select_rows sel split: option.splits)
qed

lemma delete_phase_traced_quiet:
  "\<exists>r s' evs. delete_phase (traced io) pid (s, tr) = (r, (s', tr @ evs))
     \<and> list_all (\<lambda>e. \<not> is_insert e) evs"
proof -
  obtain fe ids s1 e1 where f:
    "fetch_variant_ids (traced io) pid (s, tr) = ((fe, ids), (s1, tr @ [e1]))" "\<not> is_insert e1"
    using fetch_variant_ids_traced_quiet[of io pid s tr] by (metis prod.exhaust)
  obtain rs s2 v2 where a:
    "allSettled_deletes (traced io) (deletePromises pid ids) (s1, tr @ [e1]) =
       (rs, (s2, (tr @ [e1]) @ v2))"
    "list_all (\<lambda>e. \<not> is_insert e) v2"
    using allSettled_deletes_traced_quiet[of io "deletePromises pid ids" s1 "tr @ [e1]"] by blast
  show ?thesis
  proof (cases "may_delete_variants ids (fe @ delete_errors rs)")
    case False
    have "delete_phase (traced io) pid (s, tr) = (Inr (fe @ delete_errors rs), (s2, tr @ (e1 # v2)))"
      using f(1) a(1) False by (simp add: delete_phase_def Let_def)
    then show ?thesis
      using f(2) a(2)
      by (intro exI[of _ "Inr (fe @ delete_errors rs)"] exI[of _ s2] exI[of _ "e1 # v2"]) simp
  next
    case True
    obtain r s3 where d: "delete_rows io ''product_variants'' (In ''id'' ids) s2 = (r, s3)"
      by (cases "delete_rows io ''product_variants'' (In ''id'' ids) s2")
    let ?e3 = "DeleteRows ''product_variants'' (In ''id'' ids) r"
    have "\<exists>res. delete_phase (traced io) pid (s, tr) = (res, (s3, tr @ (e1 # v2 @ [?e3])))"
      using f(1) a(1) True d
      by (simp add: delete_phase_def Let_def traced_delete_rows split: settled.splits response.splits)
    then obtain res where
      "delete_phase (traced io) pid (s, tr) = (res, (s3, tr @ (e1 # v2 @ [?e3])))" ..
    then show ?thesis
      using f(2) a(2)
      by (intro exI[of _ res] exI[of _ s3] exI[of _ "e1 # v2 @ [?e3]"]) simp
  qed
qed

text \<open>A run of the update route on the reference database that answers 200.\<close>

lemma update_memdb_images:
  assumes "safeParse body = Inr p"
    and "res_status (fst (update_POST memdb_platform env slugify now safeParse (Some body) db)) = 200"
  shows "tables (snd (update_POST memdb_platform env slugify now safeParse (Some body) db))
           ''product_images'' =
         filter (\<lambda>r. \<not> matches (Eq ''product_id'' (JNum (of_int (products_id p)))) r)
           (tables db ''product_images'')
         @ imagesToInsert (JNum (of_int (products_id p))) (images p)"
proof -
  let ?pid = "JNum (of_int (products_id p))"
  let ?run = "update_POST memdb_platform env slugify now safeParse (Some body) db"
  obtain r1 where sel:
    "select_single memdb_platform ''products'' ''slug, category_id, brand_id''
       (Eq ''products_id'' ?pid) db = (r1, db)"
    using mem_select_single_snd[of "''products''" "''slug, category_id, brand_id''"
        "Eq ''products_id'' ?pid" db]
    by (simp add: memdb_statements) (metis prod.collapse)
  have not404: "\<And>st. res_status (json_response
      [(''error'', JStr ''Could not find product to update'')] 404) \<noteq> 200"
    by (simp add: json_response_def)
  obtain current where r1: "r1 = Success (Some current)"
  proof (cases r1)
    case (Failure e)
    then have "res_status (fst ?run) = 404"
      using assms(1) sel by (simp add: update_POST_def Let_def json_response_def)
    then show ?thesis using assms(2) by simp
  next
    case (Success data)
    show ?thesis
    proof (cases data)
      case None
      then have "res_status (fst ?run) = 404"
        using assms(1) sel Success by (simp add: update_POST_def Let_def json_response_def)
      then show ?thesis using assms(2) by simp
    next
      case (Some c)
      then show ?thesis using that Success by simp
    qed
  qed
  obtain oldPaths where pth: "getProductRelatedPaths memdb_platform ?pid db = (oldPaths, db)"
    using getProductRelatedPaths_memdb_snd[of ?pid db] by (metis prod.collapse)
  obtain errs0 where d0: "fst (delete_phase memdb_platform ?pid db) = Inr errs0"
    using delete_phase_memdb_returns by blast
  define db3 where "db3 = snd (delete_phase memdb_platform ?pid db)"
  have del: "delete_phase memdb_platform ?pid db = (Inr errs0, db3)"
    using d0 by (simp add: db3_def prod_eq_iff)
  have i3: "tables db3 ''product_images'' =
      filter (\<lambda>r. \<not> matches (Eq ''product_id'' ?pid) r) (tables db ''product_images'')"
    unfolding db3_def by (rule delete_phase_memdb_images)
  let ?row = "dataToUpdate (coreUpdateData slugify p) (u_seo_keywords p) now"
  obtain r4 db4 where upd:
    "update_rows memdb_platform ''products'' ?row (Eq ''products_id'' ?pid) db3 = (r4, db4)"
    by (cases "update_rows memdb_platform ''products'' ?row (Eq ''products_id'' ?pid) db3")
  have i4: "tables db4 ''product_images'' = tables db3 ''product_images''"
    using mem_update_rows_products_images[of ?row "Eq ''products_id'' ?pid" db3] upd
    by (simp add: memdb_statements)
  have r4: "r4 = Success ()"
  proof (cases r4)
    case (Failure e)
    then have "res_status (fst ?run) = 409 \<or> res_status (fst ?run) = 500"
      using assms(1) sel r1 pth del upd
      by (simp add: update_POST_def Let_def json_response_def)
    then show ?thesis using assms(2) by auto
  next
    case (Success u)
    then show ?thesis by simp
  qed
  obtain errs db5 where rel: "insert_related memdb_platform True ?pid p (errs0, db4) = (errs, db5)"
    by (cases "insert_related memdb_platform True ?pid p (errs0, db4)")
  have i5: "tables db5 ''product_images'' =
              tables db4 ''product_images'' @ imagesToInsert ?pid (images p)"
    using insert_related_memdb_images[of True ?pid p "(errs0, db4)"] rel by simp
  obtain newPaths where pth2: "getProductRelatedPaths memdb_platform ?pid db5 = (newPaths, db5)"
    using getProductRelatedPaths_memdb_snd[of ?pid db5] by (metis prod.collapse)
  let ?payload = "\<lparr> path = None, paths = Some (update_paths (u_newSlug slugify p)
                     (field current ''slug'') oldPaths newPaths) \<rparr>"
  obtain lines where rev: "revalidateCustomerApp memdb_platform env ?payload db5 = (Returns lines, db5)"
    using revalidate_returns[of memdb_platform env ?payload db5]
      revalidate_memdb_snd[of env ?payload db5]
    by auto
  have "snd ?run = db5"
    using assms(1) sel r1 pth del upd r4 rel pth2 rev
    by (simp add: update_POST_def Let_def)
  then show ?thesis using i3 i4 i5 by simp
qed

text \<open>A run of the update route on any platform that answers 200.\<close>

lemma update_run_traced_images:
  fixes io :: "'s platform"
  assumes "safeParse body = Inr p"
    and "res_status (fst (update_POST (traced io) env slugify now safeParse (Some body) (s, []))) = 200"
  shows "rows_inserted ''product_images''
           (snd (snd (update_POST (traced io) env slugify now safeParse (Some body) (s, [])))) =
         (if images p = [] then []
          else [imagesToInsert (JNum (of_int (products_id p))) (images p)])"
proof -
  let ?pid = "JNum (of_int (products_id p))"
  let ?run = "update_POST (traced io) env slugify now safeParse (Some body) (s, [])"
  let ?q = "\<lambda>e. \<not> is_insert e"
  obtain r1 s1 where sel0:
    "select_single io ''products'' ''slug, category_id, brand_id'' (Eq ''products_id'' ?pid) s = (r1, s1)"
    by (cases "select_single io ''products'' ''slug, category_id, brand_id''
                 (Eq ''products_id'' ?pid) s")
  let ?e1 = "SelectSingle ''products'' ''slug, category_id, brand_id'' (Eq ''products_id'' ?pid) r1"
  have sel: "select_single (traced io) ''products'' ''slug, category_id, brand_id''
               (Eq ''products_id'' ?pid) (s, []) = (r1, (s1, [?e1]))"
    using sel0 by (simp add: traced_select_single)
  obtain current where r1: "r1 = Success (Some current)"
  proof (cases r1)
    case (Failure e)
    then have "res_status (fst ?run) = 404"
      using assms(1) sel by (simp add: update_POST_def Let_def json_response_def)
    then show ?thesis using assms(2) by simp
  next
    case (Success data)
    show ?thesis
    proof (cases data)
      case None
      then have "res_status (fst ?run) = 404"
        using assms(1) sel Success by (simp add: update_POST_def Let_def json_response_def)
      then show ?thesis using assms(2) by simp
    next
      case (Some c)
      then show ?thesis using that Success by simp
    qed
  qed
  obtain oldPaths s2 e2 where pth:
    "getProductRelatedPaths (traced io) ?pid (s1, [?e1]) = (oldPaths, (s2, [?e1] @ [e2]))" "?q e2"
    using getProductRelatedPaths_traced[of io ?pid s1 "[?e1]"] by blast
  obtain r3 s3 v3 where del:
    "delete_phase (traced io) ?pid (s2, [?e1] @ [e2]) = (r3, (s3, ([?e1] @ [e2]) @ v3))"
    "list_all ?q v3"
    using delete_phase_traced_quiet[of io ?pid s2 "[?e1] @ [e2]"] by blast
  obtain errs0 where r3: "r3 = Inr errs0"
  proof (cases r3)
    case (Inl thrown)
    then have "res_status (fst ?run) = 500"
      using assms(1) sel r1 pth(1) del(1)
      by (simp add: update_POST_def Let_def unexpected_error_def json_response_def)
    then show ?thesis using assms(2) by simp
  next
    case (Inr e)
    then show ?thesis using that by simp
  qed
  let ?row = "dataToUpdate (coreUpdateData slugify p) (u_seo_keywords p) now"
  obtain r4 s4 where upd0:
    "update_rows io ''products'' ?row (Eq ''products_id'' ?pid) s3 = (r4, s4)"
    by (cases "update_rows io ''products'' ?row (Eq ''products_id'' ?pid) s3")
  let ?e4 = "UpdateRows ''products'' ?row (Eq ''products_id'' ?pid) r4"
  have upd: "update_rows (traced io) ''products'' ?row (Eq ''products_id'' ?pid)
               (s3, ([?e1] @ [e2]) @ v3) = (r4, (s4, (([?e1] @ [e2]) @ v3) @ [?e4]))"
    using upd0 by (simp add: traced_update_rows)
  have r4: "r4 = Success ()"
  proof (cases r4)
    case (Failure e)
    then have "res_status (fst ?run) = 409 \<or> res_status (fst ?run) = 500"
      using assms(1) sel r1 pth(1) del(1) r3 upd
      by (simp add: update_POST_def Let_def json_response_def)
    then show ?thesis using assms(2) by auto
  next
    case (Success u)
    then show ?thesis by simp
  qed
  obtain errs s5 evs where rel:
    "insert_related (traced io) True ?pid p (errs0, (s4, (([?e1] @ [e2]) @ v3) @ [?e4])) =
       (errs0 @ errs, (s5, ((([?e1] @ [e2]) @ v3) @ [?e4]) @ evs))"
    "rows_inserted ''product_images'' evs =
       (if images p = [] then [] else [imagesToInsert ?pid (images p)])"
    using insert_related_traced[of io True ?pid p errs0 s4 "(([?e1] @ [e2]) @ v3) @ [?e4]"]
    by blast
  obtain newPaths s6 e6 where pth2:
    "getProductRelatedPaths (traced io) ?pid (s5, ((([?e1] @ [e2]) @ v3) @ [?e4]) @ evs) =
       (newPaths, (s6, (((([?e1] @ [e2]) @ v3) @ [?e4]) @ evs) @ [e6]))" "?q e6"
    using getProductRelatedPaths_traced[of io ?pid s5 "((([?e1] @ [e2]) @ v3) @ [?e4]) @ evs"]
    by blast
  let ?payload = "\<lparr> path = None, paths = Some (update_paths (u_newSlug slugify p)
                     (field current ''slug'') oldPaths newPaths) \<rparr>"
  obtain lines s7 v7 where rev:
    "revalidateCustomerApp (traced io) env ?payload
        (s6, (((([?e1] @ [e2]) @ v3) @ [?e4]) @ evs) @ [e6]) =
       (Returns lines, (s7, ((((([?e1] @ [e2]) @ v3) @ [?e4]) @ evs) @ [e6]) @ v7))"
    "list_all ?q v7"
    using revalidate_traced_quiet[of io env ?payload s6
        "(((([?e1] @ [e2]) @ v3) @ [?e4]) @ evs) @ [e6]"]
    by blast
  have "snd (snd ?run) = ((((([?e1] @ [e2]) @ v3) @ [?e4]) @ evs) @ [e6]) @ v7"
    unfolding update_POST_def using assms(1) sel r1 pth(1) del(1) r3 upd r4 rel(1) pth2(1) rev(1)
    by (simp add: Let_def)
  moreover have "rows_inserted ''product_images''
                   (((((([?e1] @ [e2]) @ v3) @ [?e4]) @ evs) @ [e6]) @ v7) =
                 rows_inserted ''product_images'' evs"
    using quiet_events(4)[OF del(2), of "''product_images''"]
      quiet_events(4)[OF rev(2), of "''product_images''"] pth(2) pth2(2)
    by (simp only: rows_inserted_append) (simp add: rows_inserted_def not_insert_quiet)
  ultimately show ?thesis using rel(2) by simp
qed

subsection \<open>Claim C1: failures of child inserts are collected, not fatal\<close>

lemma errors_in_created_response:
  "errors_in (created_response newProduct errs) = map JStr errs"
  by (simp add: errors_in_def created_response_def json_response_def field_def)

lemma create_run_traced:
  fixes io :: "'s platform"
  assumes "safeParse body = Inr p"
    and "insert_single io ''products'' (dataToInsert p (slugify (c_name p)))
           ''products_id, slug, category_id, brand_id'' s = (Success (Some newProduct), sa)"
  shows "\<exists>errs s' evs quiet1 quiet2 inserted.
     create_POST (traced io) env slugify safeParse (Some body) (s, []) =
       (created_response newProduct errs,
        (s', InsertSingle ''products'' (dataToInsert p (slugify (c_name p)))
               ''products_id, slug, category_id, brand_id'' (Success (Some newProduct))
             # evs @ quiet1 @ quiet2))
     \<and> length inserted = length (variants p)
     \<and> variant_outcomes evs = inserted
     \<and> map statement evs = expected_child_inserts p inserted
     \<and> list_all is_insert evs
     \<and> length errs = length (filter insert_failed evs)
     \<and> rows_inserted ''product_images'' evs =
         (if images p = [] then [] else [imagesToInsert (field newProduct ''products_id'') (images p)])
     \<and> list_all (\<lambda>e. \<not> is_insert e) quiet1
     \<and> list_all (\<lambda>e. \<not> is_insert e) quiet2"
proof -
  let ?pid = "field newProduct ''products_id''"
  let ?e0 = "InsertSingle ''products'' (dataToInsert p (slugify (c_name p)))
               ''products_id, slug, category_id, brand_id'' (Success (Some newProduct))"
  have ins: "insert_single (traced io) ''products'' (dataToInsert p (slugify (c_name p)))
           ''products_id, slug, category_id, brand_id'' (s, []) =
           (Success (Some newProduct), (sa, [?e0]))"
    using assms(2) by (simp add: traced_insert_single)
  obtain errs sb evs oks where rel:
    "insert_related (traced io) False ?pid p ([], (sa, [?e0])) = ([] @ errs, (sb, [?e0] @ evs))"
    "length oks = length (variants p)" "variant_outcomes evs = oks"
    "map statement evs = expected_child_inserts p oks" "list_all is_insert evs"
    "length errs = length (filter insert_failed evs)"
    "rows_inserted ''product_images'' evs =
       (if images p = [] then [] else [imagesToInsert ?pid (images p)])"
    using insert_related_traced[of io False ?pid p "[]" sa "[?e0]"] by blast
  obtain related sc e where pth:
    "getProductRelatedPaths (traced io) ?pid (sb, [?e0] @ evs) = (related, (sc, ([?e0] @ evs) @ [e]))"
    "\<not> is_insert e"
    using getProductRelatedPaths_traced[of io ?pid sb "[?e0] @ evs"] by blast
  obtain lines sd q where rev:
    "revalidateCustomerApp (traced io) env
        \<lparr> path = None, paths = Some (create_paths newProduct related) \<rparr>
        (sc, ([?e0] @ evs) @ [e]) = (Returns lines, (sd, (([?e0] @ evs) @ [e]) @ q))"
    "list_all (\<lambda>e. \<not> is_insert e) q"
    using revalidate_traced_quiet[of io env _ sc "([?e0] @ evs) @ [e]"] by blast
  have run: "create_POST (traced io) env slugify safeParse (Some body) (s, []) =
       (created_response newProduct errs, (sd, ?e0 # evs @ [e] @ q))"
    unfolding create_POST_def using assms(1) ins rel(1) pth(1) rev(1) by (simp add: Let_def)
  show ?thesis
    using run rel(2-7) pth(2) rev(2)
    by (intro exI[of _ errs] exI[of _ sd] exI[of _ evs] exI[of _ "[e]"] exI[of _ q] exI[of _ oks])
       simp
qed

text \<open>
  Claim C1.  For every create request whose payload passes validation and whose core
  insert succeeds, on every platform (whatever each statement comes back with):
  the route answers 201; the \<open>errors\<close> array of the body has one string for each insert
  that failed; and the inserts issued are the core insert followed by exactly the
  inserts the spec describes --- one for every child collection that is not empty,
  then every variant's insert and, only when that insert succeeded, the inserts of its
  attributes and features.  So a failed insert stops nothing but the nested inserts of
  the variant that failed.
\<close>

theorem C1_child_failures_collected:
  fixes io :: "'s platform"
  assumes "safeParse body = Inr p"
    and "insert_single io ''products'' (dataToInsert p (slugify (c_name p)))
           ''products_id, slug, category_id, brand_id'' s = (Success (Some newProduct), sa)"
  shows "res_status (fst (create_POST (traced io) env slugify safeParse (Some body) (s, []))) = 201
    \<and> length (errors_in (fst (create_POST (traced io) env slugify safeParse (Some body) (s, [])))) =
        length (filter insert_failed
                  (snd (snd (create_POST (traced io) env slugify safeParse (Some body) (s, [])))))
    \<and> map statement
          (filter is_insert
             (snd (snd (create_POST (traced io) env slugify safeParse (Some body) (s, []))))) =
        ''insert products''
        # expected_child_inserts p
            (variant_outcomes
               (snd (snd (create_POST (traced io) env slugify safeParse (Some body) (s, [])))))
    \<and> length (variant_outcomes
                 (snd (snd (create_POST (traced io) env slugify safeParse (Some body) (s, []))))) =
        length (variants p)"
proof -
  obtain errs s' evs q1 q2 oks where run:
    "create_POST (traced io) env slugify safeParse (Some body) (s, []) =
       (created_response newProduct errs,
        (s', InsertSingle ''products'' (dataToInsert p (slugify (c_name p)))
               ''products_id, slug, category_id, brand_id'' (Success (Some newProduct))
             # evs @ q1 @ q2))"
    and f: "length oks = length (variants p)" "variant_outcomes evs = oks"
      "map statement evs = expected_child_inserts p oks" "list_all is_insert evs"
      "length errs = length (filter insert_failed evs)"
      "list_all (\<lambda>e. \<not> is_insert e) q1" "list_all (\<lambda>e. \<not> is_insert e) q2"
    using create_run_traced[where safeParse = safeParse and body = body and p = p and io = io
        and slugify = slugify and s = s and newProduct = newProduct and sa = sa and env = env]
      assms
    by blast
  let ?e0 = "InsertSingle ''products'' (dataToInsert p (slugify (c_name p)))
               ''products_id, slug, category_id, brand_id'' (Success (Some newProduct))"
  have all: "filter is_insert evs = evs" using f(4) by (simp add: list_all_iff)
  have st: "res_status (created_response newProduct errs) = 201"
    by (simp add: created_response_def json_response_def)
  have fi: "filter is_insert (?e0 # evs @ q1 @ q2) = ?e0 # evs"
    using all quiet_events(1)[OF f(6)] quiet_events(1)[OF f(7)] by simp
  have ff: "filter insert_failed (?e0 # evs @ q1 @ q2) = filter insert_failed evs"
    using quiet_events(2)[OF f(6)] quiet_events(2)[OF f(7)] by simp
  have "variant_outcomes ([?e0] @ evs @ q1 @ q2) = oks"
    using f(2) quiet_events(3)[OF f(6)] quiet_events(3)[OF f(7)]
    by (simp only: variant_outcomes_append) (simp add: variant_outcomes_def)
  then have vo: "variant_outcomes (?e0 # evs @ q1 @ q2) = oks" by simp
  show ?thesis
    unfolding run fst_conv snd_conv st fi ff vo errors_in_created_response
    using f(1,3,5) by simp
qed

theorem C1_child_failures_witness:
  "res_status (fst (create_POST (traced (flaky_platform [''product_images'', ''product_variants'']))
                      env_two slugify_model Inr (Some create_green_hat) (shop, []))) = 201
   \<and> errors_in (fst (create_POST (traced (flaky_platform [''product_images'', ''product_variants'']))
                      env_two slugify_model Inr (Some create_green_hat) (shop, []))) =
       [JStr ''Images: insert failed'', JStr ''Variant (Broken): insert failed'']
   \<and> map statement
        (snd (snd (create_POST (traced (flaky_platform [''product_images'', ''product_variants'']))
                     env_two slugify_model Inr (Some create_green_hat) (shop, [])))) =
       [''insert products'', ''insert product_images'', ''insert product_tags'',
        ''insert product_variants'', ''insert product_variants'', ''insert variant_attributes'',
        ''select products'', ''post https://a.example/api/revalidate'',
        ''post https://b.example/api/revalidate'']"
proof -
  let ?io = "flaky_platform [''product_images'', ''product_variants'']"
  let ?r = "insert_single ?io ''products''
              (dataToInsert create_green_hat (slugify_model (c_name create_green_hat)))
              ''products_id, slug, category_id, brand_id'' shop"
  have "case fst ?r of Success (Some np) \<Rightarrow> True | Success None \<Rightarrow> False | Failure e \<Rightarrow> False"
    by code_simp
  then obtain np where np: "fst ?r = Success (Some np)"
    by (cases "fst ?r") (auto split: option.splits)
  then have h2: "?r = (Success (Some np), snd ?r)" by (simp add: prod_eq_iff)
  have h1: "(Inr :: ValidatedProductData \<Rightarrow> jsval + ValidatedProductData) create_green_hat
              = Inr create_green_hat" by simp
  have a: "res_status (fst (create_POST (traced ?io) env_two slugify_model Inr
                              (Some create_green_hat) (shop, []))) = 201"
    using C1_child_failures_collected[where safeParse = Inr and body = create_green_hat
        and p = create_green_hat and io = ?io and slugify = slugify_model and s = shop
        and newProduct = np and sa = "snd ?r" and env = env_two] h1 h2
    by simp
  have b: "errors_in (fst (create_POST (traced ?io) env_two slugify_model Inr
                      (Some create_green_hat) (shop, []))) =
       [JStr ''Images: insert failed'', JStr ''Variant (Broken): insert failed'']"
    by code_simp
  have c: "map statement
        (snd (snd (create_POST (traced ?io) env_two slugify_model Inr
                      (Some create_green_hat) (shop, [])))) =
       [''insert products'', ''insert product_images'', ''insert product_tags'',
        ''insert product_variants'', ''insert product_variants'', ''insert variant_attributes'',
        ''select products'', ''post https://a.example/api/revalidate'',
        ''post https://b.example/api/revalidate'']"
    by code_simp
  show ?thesis using a b c by simp
qed

subsection \<open>Claim C2: creating a product whose slug is taken\<close>

lemma create_conflict:
  assumes "safeParse body = Inr p"
    and "insert_single io ''products'' (dataToInsert p (slugify (c_name p)))
           ''products_id, slug, category_id, brand_id'' s = (Failure e, sa)"
    and "err_code e = ''23505''"
  shows "create_POST io env slugify safeParse (Some body) s =
           (json_response
              [(''error'', JStr (''Product creation failed: ''
                  @ (if err_details e = [] then ''Duplicate value exists'' else err_details e)))]
              409, sa)"
  using assms by (simp add: create_POST_def Let_def)

text \<open>
  Claim C2, as stated, says that a create request whose name gives the slug of an existing
  product is not rejected and gets a suffixed slug.  The create route has no probe loop
  (part\_004, lines 127--135): in the sample shop, which has a product with slug
  \<open>red-hat\<close>, creating ``Red Hat'' issues one statement, the insert with slug \<open>red-hat\<close>, and
  is rejected with 409; no product is stored.
\<close>

theorem C2_duplicate_slug_counterexample:
  "res_status (fst (create_POST (traced memdb_platform) env_unset slugify_model Inr
                      (Some create_red_hat) (shop, []))) = 409
   \<and> map statement (snd (snd (create_POST (traced memdb_platform) env_unset slugify_model Inr
                      (Some create_red_hat) (shop, [])))) = [''insert products'']
   \<and> map (\<lambda>r. field r ''slug'')
        (tables (fst (snd (create_POST (traced memdb_platform) env_unset slugify_model Inr
                      (Some create_red_hat) (shop, [])))) ''products'') =
       [JStr ''red-hat'', JStr ''blue-cap'']"
  by code_simp

text \<open>
  Claim C2, amended.  For every create request whose payload passes validation and whose
  name derives (by slugify) the slug of an existing product, on a database that enforces
  the uniqueness of product slugs: the route issues exactly one statement, the insert of
  the product with the base slug, the database refuses it as a duplicate (code 23505),
  the route answers 409 and nothing is stored.  No suffixed slug is tried.
\<close>

theorem C2_duplicate_slug_conflict:
  assumes "safeParse body = Inr p"
    and "\<exists>row \<in> set (tables db ''products''). field row ''slug'' = JStr (slugify (c_name p))"
  shows "create_POST (traced memdb_platform) env slugify safeParse (Some body) (db, []) =
           (json_response
              [(''error'', JStr (''Product creation failed: '' @ err_details unique_violation))] 409,
            (db, [InsertSingle ''products'' (dataToInsert p (slugify (c_name p)))
                    ''products_id, slug, category_id, brand_id'' (Failure unique_violation)]))"
proof -
  have taken: "slug_taken (tables db ''products'') (field (dataToInsert p (slugify (c_name p))) ''slug'')"
    using assms(2) by (auto simp: slug_taken_def dataToInsert_slug list_ex_iff)
  have ins: "insert_single (traced memdb_platform) ''products'' (dataToInsert p (slugify (c_name p)))
           ''products_id, slug, category_id, brand_id'' (db, []) =
          (Failure unique_violation,
           (db, [InsertSingle ''products'' (dataToInsert p (slugify (c_name p)))
                    ''products_id, slug, category_id, brand_id'' (Failure unique_violation)]))"
    using taken by (simp add: traced_insert_single memdb_statements mem_insert_single_def)
  have d: "err_details unique_violation \<noteq> []" "err_code unique_violation = ''23505''"
    by (simp_all add: unique_violation_def)
  show ?thesis
    using create_conflict[where safeParse = safeParse and body = body and p = p
        and io = "traced memdb_platform" and slugify = slugify and s = "(db, [])"
        and e = unique_violation and env = env] assms(1) ins d
    by simp
qed

theorem C2_duplicate_slug_witness:
  "(\<exists>row \<in> set (tables shop ''products'').
       field row ''slug'' = JStr (slugify_model (c_name create_red_hat)))
   \<and> create_POST (traced memdb_platform) env_two slugify_model Inr (Some create_red_hat) (shop, []) =
       (json_response
          [(''error'', JStr ''Product creation failed: Key (slug) already exists.'')] 409,
        (shop, [InsertSingle ''products'' (dataToInsert create_red_hat ''red-hat'')
                  ''products_id, slug, category_id, brand_id'' (Failure unique_violation)]))"
proof -
  have n: "slugify_model (c_name create_red_hat) = ''red-hat''"
    by code_simp
  have ex: "\<exists>row \<in> set (tables shop ''products'').
       field row ''slug'' = JStr (slugify_model (c_name create_red_hat))"
    unfolding n by code_simp
  have p: "(Inr :: ValidatedProductData \<Rightarrow> jsval + ValidatedProductData) create_red_hat = Inr create_red_hat"
    by simp
  show ?thesis
    using ex p C2_duplicate_slug_conflict[where safeParse = Inr and body = create_red_hat
        and p = create_red_hat and db = shop and slugify = slugify_model and env = env_two]
    by (simp add: n unique_violation_def)
qed

subsection \<open>Claim C3: the slug of an updated product\<close>

text \<open>
  Claim C3, as stated, says that the slug is regenerated only if the name changed (or no
  slug was supplied) and that a collision is resolved by probing numeric suffixes.  The
  update route does neither (lines 122--128 and 337--352).  In the sample shop: an update
  of product 1 that keeps its name ``Red Hat'' and supplies the slug \<open>my-hat\<close> sends the
  regenerated slug \<open>red-hat\<close>; and renaming product 2 to ``Red Hat'' collides with product 1
  and is answered 409 after the statements listed below, none of which probes a slug,
  with the slugs stored as before.
\<close>

theorem C3_slug_collision_counterexample:
  "field (dataToUpdate (coreUpdateData slugify_model same_name_own_slug)
            (u_seo_keywords same_name_own_slug) ''2024-01-01'') ''slug'' = JStr ''red-hat''
   \<and> res_status (fst (update_POST (traced memdb_platform) env_unset slugify_model ''2024-01-01'' Inr
                        (Some rename_cap_to_red_hat) (shop, []))) = 409
   \<and> map statement (snd (snd (update_POST (traced memdb_platform) env_unset slugify_model
                        ''2024-01-01'' Inr (Some rename_cap_to_red_hat) (shop, [])))) =
       [''select products'', ''select products'', ''select product_variants'',
        ''delete product_images'', ''delete product_features'', ''delete product_tags'',
        ''delete product_faqs'', ''delete product_testimonial_videos'',
        ''delete customer_testimonials'', ''update products'']
   \<and> map (\<lambda>r. field r ''slug'')
        (tables (fst (snd (update_POST (traced memdb_platform) env_unset slugify_model
                        ''2024-01-01'' Inr (Some rename_cap_to_red_hat) (shop, [])))) ''products'') =
       [JStr ''red-hat'', JStr ''blue-cap'']"
  by code_simp

text \<open>
  Claim C3, amended.  For every product-update request that passes validation and finds
  the product: the slug sent with the core update is \<open>slugify(name)\<close> whenever a non-empty
  name is supplied --- whether or not the name changed and whatever slug was supplied ---
  and otherwise the supplied slug, if any, as it is.  Between the fetch of the current
  row and the core update the route runs only the lookup of the category and brand
  paths and the deletion phase: it probes no slug.  When the database refuses the core
  update as a duplicate (code 23505), the route answers 409 and issues nothing more.
\<close>

theorem C3_update_slug_conflict:
  assumes "safeParse body = Inr p"
    and "select_single io ''products'' ''slug, category_id, brand_id''
           (Eq ''products_id'' (JNum (of_int (products_id p)))) s = (Success (Some current), sa)"
    and "getProductRelatedPaths io (JNum (of_int (products_id p))) sa = (oldPaths, sb)"
    and "delete_phase io (JNum (of_int (products_id p))) sb = (Inr deletionErrors, sc)"
    and "update_rows io ''products'' (dataToUpdate (coreUpdateData slugify p) (u_seo_keywords p) now)
           (Eq ''products_id'' (JNum (of_int (products_id p)))) sc = (Failure e, sd)"
    and "err_code e = ''23505''"
  shows "update_POST io env slugify now safeParse (Some body) s =
           (json_response
              [(''error'', JStr (''Product update failed: ''
                  @ (if err_details e = [] then ''Duplicate value exists'' else err_details e)))]
              409, sd)
         \<and> field (dataToUpdate (coreUpdateData slugify p) (u_seo_keywords p) now) ''slug'' =
             (case u_name p of
                None \<Rightarrow> field (u_rest p) ''slug''
              | Some n \<Rightarrow> if n = [] then field (u_rest p) ''slug'' else JStr (slugify n))"
proof -
  have "update_POST io env slugify now safeParse (Some body) s =
           (json_response
              [(''error'', JStr (''Product update failed: ''
                  @ (if err_details e = [] then ''Duplicate value exists'' else err_details e)))]
              409, sd)"
    using assms by (simp add: update_POST_def Let_def)
  moreover have "field (dataToUpdate (coreUpdateData slugify p) (u_seo_keywords p) now) ''slug'' =
             (case u_name p of
                None \<Rightarrow> field (u_rest p) ''slug''
              | Some n \<Rightarrow> if n = [] then field (u_rest p) ''slug'' else JStr (slugify n))"
    by (simp add: dataToUpdate_slug coreUpdateData_slug u_newSlug_def split: option.splits)
  ultimately show ?thesis by simp
qed

theorem C3_update_slug_witness:
  "update_POST memdb_platform env_two slugify_model ''2024-01-01'' Inr
       (Some rename_cap_to_red_hat) shop =
     (json_response [(''error'', JStr ''Product update failed: Key (slug) already exists.'')] 409,
      snd (delete_phase memdb_platform (JNum 2) shop))
   \<and> field (dataToUpdate (coreUpdateData slugify_model rename_cap_to_red_hat)
              (u_seo_keywords rename_cap_to_red_hat) ''2024-01-01'') ''slug'' = JStr ''red-hat''"
proof -
  let ?p = rename_cap_to_red_hat
  let ?pid = "JNum (of_int (products_id ?p))"
  let ?s3 = "snd (delete_phase memdb_platform (JNum 2) shop)"
  have pid: "?pid = JNum 2" by (simp add: rename_cap_to_red_hat_def related_data.extend_def ValidatedUpdateData.fields_def)
  have n: "u_name ?p = Some ''Red Hat''" by (simp add: rename_cap_to_red_hat_def related_data.extend_def ValidatedUpdateData.fields_def)
  have sl: "slugify_model ''Red Hat'' = ''red-hat''" by code_simp
  have "fst (select_single memdb_platform ''products'' ''slug, category_id, brand_id''
               (Eq ''products_id'' (JNum 2)) shop) =
          Success (Some [(''products_id'', JNum 2), (''name'', JStr ''Blue Cap''),
                         (''slug'', JStr ''blue-cap''), (''category_id'', JNull), (''brand_id'', JNull),
                         (''categories'', JNull), (''brands'', JNull)])"
    by code_simp
  then have h2: "select_single memdb_platform ''products'' ''slug, category_id, brand_id''
               (Eq ''products_id'' ?pid) shop =
          (Success (Some [(''products_id'', JNum 2), (''name'', JStr ''Blue Cap''),
                         (''slug'', JStr ''blue-cap''), (''category_id'', JNull), (''brand_id'', JNull),
                         (''categories'', JNull), (''brands'', JNull)]), shop)"
    unfolding pid using mem_select_single_snd[of "''products''" "''slug, category_id, brand_id''" "Eq ''products_id'' (JNum 2)" shop]
    by (simp add: memdb_statements prod_eq_iff)
  have h3: "getProductRelatedPaths memdb_platform ?pid shop =
              (fst (getProductRelatedPaths memdb_platform ?pid shop), shop)"
    using getProductRelatedPaths_memdb_snd[of ?pid shop] by (simp add: prod_eq_iff)
  have "fst (delete_phase memdb_platform (JNum 2) shop) = Inr []" by code_simp
  then have h4: "delete_phase memdb_platform ?pid shop = (Inr [], ?s3)"
    unfolding pid by (simp add: prod_eq_iff)
  have "fst (update_rows memdb_platform ''products''
               (dataToUpdate (coreUpdateData slugify_model ?p) (u_seo_keywords ?p) ''2024-01-01'')
               (Eq ''products_id'' (JNum 2)) ?s3) = Failure unique_violation"
    by code_simp
  then have u: "fst (mem_update_rows ''products''
               (dataToUpdate (coreUpdateData slugify_model ?p) (u_seo_keywords ?p) ''2024-01-01'')
               (Eq ''products_id'' (JNum 2)) ?s3) = Failure unique_violation"
    by (simp add: memdb_statements)
  then have "snd (mem_update_rows ''products''
               (dataToUpdate (coreUpdateData slugify_model ?p) (u_seo_keywords ?p) ''2024-01-01'')
               (Eq ''products_id'' (JNum 2)) ?s3) = ?s3"
    by (rule mem_update_rows_failure)
  with u have h5: "update_rows memdb_platform ''products''
               (dataToUpdate (coreUpdateData slugify_model ?p) (u_seo_keywords ?p) ''2024-01-01'')
               (Eq ''products_id'' ?pid) ?s3 = (Failure unique_violation, ?s3)"
    unfolding pid by (simp add: prod_eq_iff memdb_statements)
  have h6: "err_code unique_violation = ''23505''" by (simp add: unique_violation_def)
  have h1: "(Inr :: ValidatedUpdateData \<Rightarrow> jsval + ValidatedUpdateData) ?p = Inr ?p" by simp
  show ?thesis
    using C3_update_slug_conflict[where safeParse = Inr and body = ?p and p = ?p
        and io = memdb_platform and slugify = slugify_model and now = "''2024-01-01''"
        and s = shop and sa = shop and sb = shop and sc = ?s3 and sd = ?s3
        and e = unique_violation and env = env_two, OF h1 h2 h3 h4 h5 h6]
    by (simp add: n sl unique_violation_def)
qed

subsection \<open>Claim C4: an invalid update payload changes nothing\<close>

text \<open>
  Claim C4.  When the payload of an update request fails schema validation, the route
  answers 400 with the violations as details and issues no statement at all: the state
  of the outside world and the trace are what they were, so the stored product and its
  child rows are unchanged.
\<close>

theorem C4_invalid_update_no_persistence:
  assumes "safeParse body = Inl violations"
  shows "update_POST (traced io) env slugify now safeParse (Some body) (s, tr) =
           (json_response [(''error'', JStr ''Invalid product data''), (''details'', violations)] 400,
            (s, tr))"
  using assms by (simp add: update_POST_def)

theorem C4_invalid_update_witness:
  "safeParse_id_price \<lparr> body_products_id = Some 1, body_price = Some (- 1) \<rparr> =
     Inl (JObj [(''formErrors'', JArr []),
                (''fieldErrors'',
                   JObj [(''price'', JArr [JStr ''Number must be greater than or equal to 0''])])])
   \<and> res_status (fst (update_POST (traced memdb_platform) env_two slugify_model ''2024-01-01''
          safeParse_id_price (Some \<lparr> body_products_id = Some 1, body_price = Some (- 1) \<rparr>) (shop, []))) = 400
   \<and> snd (update_POST (traced memdb_platform) env_two slugify_model ''2024-01-01''
          safeParse_id_price (Some \<lparr> body_products_id = Some 1, body_price = Some (- 1) \<rparr>) (shop, []))
       = (shop, [])"
proof -
  have v: "safeParse_id_price \<lparr> body_products_id = Some 1, body_price = Some (- 1) \<rparr> =
     Inl (JObj [(''formErrors'', JArr []),
                (''fieldErrors'',
                   JObj [(''price'', JArr [JStr ''Number must be greater than or equal to 0''])])])"
    by (simp add: safeParse_id_price_def field_issues_def)
  show ?thesis
    using v C4_invalid_update_no_persistence[where safeParse = safeParse_id_price
        and body = "\<lparr> body_products_id = Some 1, body_price = Some (- 1) \<rparr>"
        and io = memdb_platform and env = env_two and slugify = slugify_model
        and now = "''2024-01-01''" and s = shop and tr = "[]"]
    by (simp add: json_response_def)
qed

subsection \<open>Claim C5: the image rows after a create or an update\<close>

lemma create_run_images:
  fixes io :: "'s platform"
  assumes "safeParse body = Inr p"
    and "insert_single io ''products'' (dataToInsert p (slugify (c_name p)))
           ''products_id, slug, category_id, brand_id'' s = (Success (Some newProduct), sa)"
  shows "rows_inserted ''product_images''
           (snd (snd (create_POST (traced io) env slugify safeParse (Some body) (s, [])))) =
         (if images p = [] then []
          else [imagesToInsert (field newProduct ''products_id'') (images p)])"
proof -
  obtain errs s' evs q1 q2 oks where run:
    "create_POST (traced io) env slugify safeParse (Some body) (s, []) =
       (created_response newProduct errs,
        (s', InsertSingle ''products'' (dataToInsert p (slugify (c_name p)))
               ''products_id, slug, category_id, brand_id'' (Success (Some newProduct))
             # evs @ q1 @ q2))"
    and f: "rows_inserted ''product_images'' evs =
         (if images p = [] then [] else [imagesToInsert (field newProduct ''products_id'') (images p)])"
      "list_all (\<lambda>e. \<not> is_insert e) q1" "list_all (\<lambda>e. \<not> is_insert e) q2"
    using create_run_traced[where safeParse = safeParse and body = body and p = p and io = io
        and slugify = slugify and s = s and newProduct = newProduct and sa = sa and env = env]
      assms
    by blast
  let ?e0 = "InsertSingle ''products'' (dataToInsert p (slugify (c_name p)))
               ''products_id, slug, category_id, brand_id'' (Success (Some newProduct))"
  have "rows_inserted ''product_images'' ([?e0] @ evs @ q1 @ q2) =
          rows_inserted ''product_images'' evs"
    using quiet_events(4)[OF f(2), of "''product_images''"]
      quiet_events(4)[OF f(3), of "''product_images''"]
    by (simp only: rows_inserted_append) (simp add: rows_inserted_def)
  then show ?thesis unfolding run using f(1) by simp
qed

text \<open>
  The image rows built from the submitted URLs are one row per URL, in order, with
  \<open>sort_order\<close> the index and \<open>is_primary\<close> true exactly at index 0.  On every platform, a
  create whose core insert succeeded and an update that answers 200 issue no other insert
  into \<open>product_images\<close> than the one with these rows (and none when the list is empty).
  On the reference database, where every deletion of child rows takes effect, the image
  rows stored for the product after an update that answers 200 are exactly these rows.
\<close>

lemma image_rows_of_create_and_update:
  fixes io :: "'s platform"
  shows "length (imagesToInsert pid urls) = length urls
    \<and> (\<forall>i. i < length urls \<longrightarrow>
          imagesToInsert pid urls ! i =
            [(''product_id'', pid), (''url'', JStr (urls ! i)),
             (''is_primary'', JBool (i = 0)), (''sort_order'', JNum (of_nat i))])
    \<and> (safeParseC bodyC = Inr pc
        \<and> insert_single io ''products'' (dataToInsert pc (slugify (c_name pc)))
             ''products_id, slug, category_id, brand_id'' s = (Success (Some newProduct), sa)
        \<longrightarrow> rows_inserted ''product_images''
              (snd (snd (create_POST (traced io) env slugify safeParseC (Some bodyC) (s, [])))) =
            (if images pc = [] then []
             else [imagesToInsert (field newProduct ''products_id'') (images pc)]))
    \<and> (safeParseU bodyU = Inr pu
        \<and> res_status (fst (update_POST (traced io) env slugify now safeParseU (Some bodyU) (s, []))) = 200
        \<longrightarrow> rows_inserted ''product_images''
              (snd (snd (update_POST (traced io) env slugify now safeParseU (Some bodyU) (s, [])))) =
            (if images pu = [] then []
             else [imagesToInsert (JNum (of_int (products_id pu))) (images pu)]))
    \<and> (safeParseU bodyU = Inr pu
        \<and> res_status (fst (update_POST memdb_platform env slugify now safeParseU (Some bodyU) db)) = 200
        \<longrightarrow> filter (matches (Eq ''product_id'' (JNum (of_int (products_id pu)))))
              (tables (snd (update_POST memdb_platform env slugify now safeParseU (Some bodyU) db))
                 ''product_images'') =
            imagesToInsert (JNum (of_int (products_id pu))) (images pu))"
proof (intro conjI impI allI)
  show "length (imagesToInsert pid urls) = length urls"
    by (rule imagesToInsert_length)
next
  fix i assume "i < length urls"
  then show "imagesToInsert pid urls ! i =
            [(''product_id'', pid), (''url'', JStr (urls ! i)),
             (''is_primary'', JBool (i = 0)), (''sort_order'', JNum (of_nat i))]"
    by (rule imagesToInsert_nth)
next
  assume "safeParseC bodyC = Inr pc
        \<and> insert_single io ''products'' (dataToInsert pc (slugify (c_name pc)))
             ''products_id, slug, category_id, brand_id'' s = (Success (Some newProduct), sa)"
  then show "rows_inserted ''product_images''
              (snd (snd (create_POST (traced io) env slugify safeParseC (Some bodyC) (s, [])))) =
            (if images pc = [] then []
             else [imagesToInsert (field newProduct ''products_id'') (images pc)])"
    using create_run_images[where safeParse = safeParseC and body = bodyC and p = pc and io = io
        and slugify = slugify and s = s and newProduct = newProduct and sa = sa and env = env]
    by blast
next
  assume "safeParseU bodyU = Inr pu
        \<and> res_status (fst (update_POST (traced io) env slugify now safeParseU (Some bodyU) (s, []))) = 200"
  then show "rows_inserted ''product_images''
              (snd (snd (update_POST (traced io) env slugify now safeParseU (Some bodyU) (s, [])))) =
            (if images pu = [] then []
             else [imagesToInsert (JNum (of_int (products_id pu))) (images pu)])"
    using update_run_traced_images[where safeParse = safeParseU and body = bodyU and p = pu
        and io = io and slugify = slugify and s = s and env = env and now = now]
    by blast
next
  let ?pid = "JNum (of_int (products_id pu))"
  assume a: "safeParseU bodyU = Inr pu
        \<and> res_status (fst (update_POST memdb_platform env slugify now safeParseU (Some bodyU) db)) = 200"
  have "tables (snd (update_POST memdb_platform env slugify now safeParseU (Some bodyU) db))
           ''product_images'' =
         filter (\<lambda>r. \<not> matches (Eq ''product_id'' ?pid) r) (tables db ''product_images'')
         @ imagesToInsert ?pid (images pu)"
    using a update_memdb_images[where safeParse = safeParseU and body = bodyU and p = pu
        and slugify = slugify and db = db and env = env and now = now]
    by blast
  moreover have "filter (matches (Eq ''product_id'' ?pid)) (imagesToInsert ?pid (images pu)) =
                   imagesToInsert ?pid (images pu)"
    by (rule imagesToInsert_match) simp_all
  ultimately show "filter (matches (Eq ''product_id'' ?pid))
              (tables (snd (update_POST memdb_platform env slugify now safeParseU (Some bodyU) db))
                 ''product_images'') =
            imagesToInsert ?pid (images pu)"
    by simp
qed

lemma image_rows_example:
  "map (\<lambda>r. field r ''url'') (tables shop ''product_images'') =
     [JStr ''https://img.example/a'', JStr ''https://img.example/b'', JStr ''https://img.example/c'']
   \<and> res_status (fst (update_POST memdb_platform env_two slugify_model ''2024-01-01'' Inr
                        (Some new_images) shop)) = 200
   \<and> filter (matches (Eq ''product_id'' (JNum 1)))
        (tables (snd (update_POST memdb_platform env_two slugify_model ''2024-01-01'' Inr
                        (Some new_images) shop)) ''product_images'') =
       [[(''product_id'', JNum 1), (''url'', JStr ''https://img.example/x''),
         (''is_primary'', JBool True), (''sort_order'', JNum 0)],
        [(''product_id'', JNum 1), (''url'', JStr ''https://img.example/y''),
         (''is_primary'', JBool False), (''sort_order'', JNum 1)]]"
proof -
  have a: "map (\<lambda>r. field r ''url'') (tables shop ''product_images'') =
     [JStr ''https://img.example/a'', JStr ''https://img.example/b'', JStr ''https://img.example/c'']"
    by code_simp
  have st: "res_status (fst (update_POST memdb_platform env_two slugify_model ''2024-01-01'' Inr
                        (Some new_images) shop)) = 200"
    by code_simp
  have p: "(Inr :: ValidatedUpdateData \<Rightarrow> jsval + ValidatedUpdateData) new_images = Inr new_images"
    by simp
  have rows: "imagesToInsert (JNum (of_int (products_id new_images))) (images new_images) =
       [[(''product_id'', JNum 1), (''url'', JStr ''https://img.example/x''),
         (''is_primary'', JBool True), (''sort_order'', JNum 0)],
        [(''product_id'', JNum 1), (''url'', JStr ''https://img.example/y''),
         (''is_primary'', JBool False), (''sort_order'', JNum 1)]]"
    by code_simp
  have pid: "JNum (of_int (products_id new_images)) = JNum 1"
    by (simp add: new_images_def related_data.extend_def ValidatedUpdateData.fields_def)
  have "filter (matches (Eq ''product_id'' (JNum (of_int (products_id new_images)))))
          (tables (snd (update_POST memdb_platform env_two slugify_model ''2024-01-01'' Inr
                          (Some new_images) shop)) ''product_images'') =
        imagesToInsert (JNum (of_int (products_id new_images))) (images new_images)"
    using p st image_rows_of_create_and_update[where safeParseU = Inr and bodyU = new_images and pu = new_images
        and env = env_two and slugify = slugify_model and now = "''2024-01-01''" and db = shop
        and io = memdb_platform and s = shop and safeParseC = Inr and bodyC = create_red_hat
        and pc = create_red_hat and pid = JNull and urls = "[]" and newProduct = "[]" and sa = shop]
    by blast
  then show ?thesis using a st rows pid by simp
qed


text \<open>
  Claim C5 says that after a successful update no image row of the previously stored set
  remains.  The update route reads the outcome of its batch of deletions only through
  \<open>status === 'rejected'\<close> (lines 301--309); a deletion that the database refuses resolves
  to \<open>{ error }\<close> and goes unnoticed.  In the sample shop product 1 has the images a, b
  and c.  When the deletion on \<open>product_images\<close> is refused, the update of the images to
  x and y answers 200 with the message of a complete success and no \<open>errors\<close>, and the
  product has five image rows, two of them primary.
\<close>

theorem C5_old_images_remain_after_refused_deletion:
  "res_status (fst (update_POST (refusing_platform [''product_images'']) env_unset slugify_model
                      ''2024-01-01'' Inr (Some new_images) shop)) = 200
   \<and> field (res_body (fst (update_POST (refusing_platform [''product_images'']) env_unset
                      slugify_model ''2024-01-01'' Inr (Some new_images) shop))) ''message'' =
       JStr ''Product and all related data updated successfully''
   \<and> field (res_body (fst (update_POST (refusing_platform [''product_images'']) env_unset
                      slugify_model ''2024-01-01'' Inr (Some new_images) shop))) ''errors'' =
       JUndefined
   \<and> map (\<lambda>r. (field r ''url'', field r ''is_primary'', field r ''sort_order''))
        (filter (matches (Eq ''product_id'' (JNum 1)))
           (tables (snd (update_POST (refusing_platform [''product_images'']) env_unset
                      slugify_model ''2024-01-01'' Inr (Some new_images) shop)) ''product_images'')) =
       [(JStr ''https://img.example/a'', JBool True, JNum 0),
        (JStr ''https://img.example/b'', JBool False, JNum 1),
        (JStr ''https://img.example/c'', JBool False, JNum 2),
        (JStr ''https://img.example/x'', JBool True, JNum 0),
        (JStr ''https://img.example/y'', JBool False, JNum 1)]"
  by code_simp

subsection \<open>Claim C6: the paths revalidated after an update\<close>








subsection \<open>Claim C7: deleting a category that a product references\<close>

lemma category_delete_conflict:
  assumes "safeParse body = Inr cid"
    and "select_single io ''categories'' ''slug, parent_category_id''
           (Eq ''categories_id'' (JNum (of_int cid))) s = (Success (Some row), sa)"
    and "delete_rows io ''categories'' (Eq ''categories_id'' (JNum (of_int cid))) sa =
           (Fulfilled (Failure e), sb)"
    and "err_code e = ''23503''"
  shows "category_delete_POST io env safeParse (Some body) s =
           (json_response
              [(''error'', JStr (''Cannot delete category: It is referenced by other records (e.g., products, subcategories). Details: ''
                  @ err_details e))] 409, sb)"
  using assms by (simp add: category_delete_POST_def Let_def)

lemma embed_other: "t \<noteq> ''products'' \<Longrightarrow> embed db t row = row"
  by (simp add: embed_def)

text \<open>
  Claim C7.  On a database that refuses the deletion of a referenced category (the
  foreign-key constraint of the spec, section 3): for every valid request to delete a
  stored category that at least one product references by \<open>category_id\<close>, the route
  fetches the category, issues the deletion, which the database refuses with code 23503,
  and answers 409; the database is left exactly as it was, so the category row is still
  stored unchanged.
\<close>

theorem C7_referenced_category_conflict:
  assumes "safeParse body = Inr cid"
    and "filter (matches (Eq ''categories_id'' (JNum (of_int cid)))) (tables db ''categories'') = [row]"
    and "\<exists>p \<in> set (tables db ''products''). field p ''category_id'' = JNum (of_int cid)"
  shows "category_delete_POST (traced memdb_platform) env safeParse (Some body) (db, []) =
           (json_response
              [(''error'', JStr (''Cannot delete category: It is referenced by other records (e.g., products, subcategories). Details: ''
                  @ err_details foreign_key_violation))] 409,
            (db, [SelectSingle ''categories'' ''slug, parent_category_id''
                    (Eq ''categories_id'' (JNum (of_int cid))) (Success (Some row)),
                  DeleteRows ''categories'' (Eq ''categories_id'' (JNum (of_int cid)))
                    (Fulfilled (Failure foreign_key_violation))]))"
proof -
  let ?f = "Eq ''categories_id'' (JNum (of_int cid))"
  have "row \<in> set (filter (matches ?f) (tables db ''categories''))"
    using assms(2) by simp
  then have key: "field row ''categories_id'' = JNum (of_int cid)" by simp
  have sel: "select_single (traced memdb_platform) ''categories'' ''slug, parent_category_id'' ?f (db, []) =
           (Success (Some row),
            (db, [SelectSingle ''categories'' ''slug, parent_category_id'' ?f (Success (Some row))]))"
    using assms(2)
    by (simp add: traced_select_single memdb_statements mem_select_single_def mem_select_def embed_other)
  have ref: "referenced db ''categories'' row"
    using assms(3) by (auto simp: referenced_def key list_ex_iff)
  have del: "delete_rows (traced memdb_platform) ''categories'' ?f
               (db, [SelectSingle ''categories'' ''slug, parent_category_id'' ?f (Success (Some row))]) =
           (Fulfilled (Failure foreign_key_violation),
            (db, [SelectSingle ''categories'' ''slug, parent_category_id'' ?f (Success (Some row)),
                  DeleteRows ''categories'' ?f (Fulfilled (Failure foreign_key_violation))]))"
    using assms(2) ref
    by (simp add: traced_delete_rows memdb_statements mem_delete_rows_def)
  have c: "err_code foreign_key_violation = ''23503''" by (simp add: foreign_key_violation_def)
  show ?thesis
    using category_delete_conflict[where safeParse = safeParse and body = body and cid = cid
        and io = "traced memdb_platform" and s = "(db, [])" and row = row
        and e = foreign_key_violation and env = env] assms(1) sel del c
    by simp
qed

theorem C7_referenced_category_witness:
  "filter (matches (Eq ''categories_id'' (JNum (of_int 7)))) (tables shop ''categories'') =
     [[(''categories_id'', JNum 7), (''slug'', JStr ''hats''), (''parent_category_id'', JNull)]]
   \<and> (\<exists>p \<in> set (tables shop ''products''). field p ''category_id'' = JNum (of_int 7))
   \<and> category_delete_POST (traced memdb_platform) env_two Inr (Some (7::int)) (shop, []) =
       (json_response
          [(''error'', JStr ''Cannot delete category: It is referenced by other records (e.g., products, subcategories). Details: Key is still referenced from table products.'')]
          409,
        (shop, [SelectSingle ''categories'' ''slug, parent_category_id''
                  (Eq ''categories_id'' (JNum 7))
                  (Success (Some [(''categories_id'', JNum 7), (''slug'', JStr ''hats''),
                                  (''parent_category_id'', JNull)])),
                DeleteRows ''categories'' (Eq ''categories_id'' (JNum 7))
                  (Fulfilled (Failure foreign_key_violation))]))"
proof -
  have a: "filter (matches (Eq ''categories_id'' (JNum (of_int 7)))) (tables shop ''categories'') =
     [[(''categories_id'', JNum 7), (''slug'', JStr ''hats''), (''parent_category_id'', JNull)]]"
    by code_simp
  have b: "\<exists>p \<in> set (tables shop ''products''). field p ''category_id'' = JNum (of_int 7)"
    by code_simp
  have p: "(Inr :: int \<Rightarrow> jsval + int) 7 = Inr 7" by simp
  show ?thesis
    using a b p C7_referenced_category_conflict[where safeParse = Inr and body = "7::int"
        and cid = 7 and db = shop and env = env_two
        and row = "[(''categories_id'', JNum 7), (''slug'', JStr ''hats''), (''parent_category_id'', JNull)]"]
    by (simp add: foreign_key_violation_def)
qed

subsection \<open>Claim C10: when the variants themselves are deleted\<close>









end
